(* ===== verification/Prelude.thy ===== *)
theory Prelude
  imports Complex_Main "HOL-Library.Sublist" "HOL-Library.Word"
begin

text \<open>
  What every component of the development shares: the names of the machine types, the string
  functions of the C++ standard library and of QString that the code calls, the index search
  that several classes write out as a loop, and the lemmas on lists, maps and indices the
  component proofs use. Nothing here is specific to one class of the program.
\<close>

section \<open>Types and collections of facts\<close>

type_synonym byte = "8 word"
type_synonym bytes = "byte list"

text \<open>
  A C++ \<open>double\<close> (\<open>qreal\<close>) that is only stored and copied is a rational number; where the code
  computes with it the theory Binary64 rounds every operation.
\<close>

type_synonym double = rat

named_theorems row_simps \<open>rewriting of row searches and row updates\<close>
named_theorems inv_intros \<open>preservation of component invariants\<close>

section \<open>Numbers as text\<close>

text \<open>\<open>std::to_string\<close> and \<open>QString::number\<close> on a value that is not negative.\<close>

definition digit_char :: "nat \<Rightarrow> char" where
  "digit_char d = char_of (48 + d)"

fun show_nat :: "nat \<Rightarrow> string" where
  "show_nat n = (if n < 10 then [digit_char n] else show_nat (n div 10) @ [digit_char (n mod 10)])"

declare show_nat.simps [simp del]

lemma show_nat_nonempty [simp]: "show_nat n \<noteq> []"
  by (subst show_nat.simps) simp

definition is_digit_char :: "char \<Rightarrow> bool" where
  "is_digit_char c \<longleftrightarrow> 48 \<le> (of_char c :: nat) \<and> (of_char c :: nat) \<le> 57"

lemma digit_char_is_digit: "d < 10 \<Longrightarrow> is_digit_char (digit_char d)"
  by (simp add: is_digit_char_def digit_char_def)

lemma show_nat_digits: "c \<in> set (show_nat n) \<Longrightarrow> is_digit_char c"
proof (induction n rule: show_nat.induct)
  case (1 n)
  then show ?case
    by (cases "n < 10")
      (auto simp: show_nat.simps [of n] digit_char_is_digit)
qed

lemma non_digit_notin_show_nat: "\<not> is_digit_char c \<Longrightarrow> c \<notin> set (show_nat n)"
  using show_nat_digits by blast

section \<open>Searching in strings\<close>

text \<open>
  \<open>std::string::find(sub)\<close>: the least position at which \<open>sub\<close> occurs, \<open>None\<close> for \<open>npos\<close>. The
  empty string occurs at position 0.
\<close>

fun str_find :: "string \<Rightarrow> string \<Rightarrow> nat option" where
  "str_find [] sub = (if sub = [] then Some 0 else None)"
| "str_find (c # cs) sub =
     (if prefix sub (c # cs) then Some 0 else map_option Suc (str_find cs sub))"

text \<open>\<open>std::string::find(sub, pos)\<close>.\<close>

definition str_find_from :: "string \<Rightarrow> string \<Rightarrow> nat \<Rightarrow> nat option" where
  "str_find_from s sub pos =
     (if length s < pos then None else map_option ((+) pos) (str_find (drop pos s) sub))"

text \<open>\<open>std::string::substr(pos, n)\<close>, for a \<open>pos\<close> inside the string.\<close>

definition str_sub :: "string \<Rightarrow> nat \<Rightarrow> nat \<Rightarrow> string" where
  "str_sub s pos n = take n (drop pos s)"

text \<open>\<open>s.rfind(p, 0) == 0\<close> and \<open>QString::startsWith\<close>.\<close>

definition starts_with :: "string \<Rightarrow> string \<Rightarrow> bool" where
  "starts_with s p \<longleftrightarrow> prefix p s"

text \<open>\<open>QString::endsWith\<close>.\<close>

definition ends_with :: "string \<Rightarrow> string \<Rightarrow> bool" where
  "ends_with s p \<longleftrightarrow> suffix p s"

text \<open>\<open>QString::lastIndexOf(sub)\<close>: the greatest position at which \<open>sub\<close> occurs, or -1.\<close>

fun str_last_index :: "string \<Rightarrow> string \<Rightarrow> int" where
  "str_last_index [] sub = (if sub = [] then 0 else -1)"
| "str_last_index (c # cs) sub =
     (let i = str_last_index cs sub
      in if 0 \<le> i then i + 1 else if prefix sub (c # cs) then 0 else -1)"

lemma str_find_Some_prefix: "str_find s sub = Some i \<Longrightarrow> i \<le> length s \<and> prefix sub (drop i s)"
  by (induction s arbitrary: i) (auto split: if_splits)

lemma str_find_char_skip:
  "c \<notin> set u \<Longrightarrow> str_find (u @ c # v) [c] = Some (length u)"
  by (induction u) auto

lemma str_find_char_None: "c \<notin> set u \<Longrightarrow> str_find u [c] = None"
  by (induction u) auto

lemma str_last_index_ge: "-1 \<le> str_last_index s sub"
  by (induction s) (auto simp: Let_def)

lemma str_last_index_None_prefix:
  "str_last_index t sub = -1 \<Longrightarrow> sub \<noteq> [] \<Longrightarrow> \<not> prefix sub t"
  by (cases t) (auto simp: Let_def split: if_splits)

text \<open>An occurrence at the start of \<open>t\<close> and nowhere later is the last one of \<open>u @ t\<close>.\<close>

lemma str_last_index_append:
  "str_last_index t sub = 0 \<Longrightarrow> str_last_index (u @ t) sub = int (length u)"
  by (induction u) (auto simp: Let_def)

lemma str_last_index_absent:
  assumes "hd sub \<notin> set t" "sub \<noteq> []"
  shows "str_last_index t sub = -1"
  using assms(1)
proof (induction t)
  case Nil
  then show ?case using assms(2) by simp
next
  case (Cons c t)
  then have "\<not> prefix sub (c # t)" using assms(2) by (cases sub) auto
  with Cons show ?case by simp
qed

section \<open>The index of the first row that satisfies a test\<close>

text \<open>
  The loop \<open>for (i = 0; i < xs.size(); ++i) if (P(xs[i])) return i; return -1;\<close> of several
  classes.
\<close>

fun index_where :: "('a \<Rightarrow> bool) \<Rightarrow> 'a list \<Rightarrow> int" where
  "index_where P [] = -1"
| "index_where P (x # xs) =
     (if P x then 0 else let i = index_where P xs in if i < 0 then -1 else i + 1)"

lemma index_where_lower: "-1 \<le> index_where P xs"
  by (induction xs) (auto simp: Let_def)

lemma index_where_neg [row_simps]: "index_where P xs < 0 \<longleftrightarrow> (\<forall>x \<in> set xs. \<not> P x)"
  by (induction xs) (auto simp: Let_def)

lemma index_where_nonneg [row_simps]: "0 \<le> index_where P xs \<longleftrightarrow> (\<exists>x \<in> set xs. P x)"
  using index_where_neg [of P xs] by force

lemma index_where_hit:
  "0 \<le> index_where P xs \<Longrightarrow>
     nat (index_where P xs) < length xs \<and> P (xs ! nat (index_where P xs))"
  by (induction xs) (auto simp: Let_def nat_add_distrib split: if_splits)

lemma index_where_upper: "index_where P xs < int (length xs)"
  by (induction xs) (auto simp: Let_def)

lemma index_where_first:
  "0 \<le> index_where P xs \<Longrightarrow> j < nat (index_where P xs) \<Longrightarrow> \<not> P (xs ! j)"
proof (induction xs arbitrary: j)
  case (Cons x xs)
  then show ?case
    by (cases j) (auto simp: Let_def nat_add_distrib split: if_splits)
qed simp

lemma index_where_unique:
  assumes "i < length xs" "P (xs ! i)" "\<And>j. j < length xs \<Longrightarrow> P (xs ! j) \<Longrightarrow> j = i"
  shows "index_where P xs = int i"
proof -
  have "0 \<le> index_where P xs"
    using assms(1,2) by (auto simp: index_where_nonneg)
  with index_where_hit [OF this] assms(3) show ?thesis
    by force
qed

lemma find_index_where:
  "find P xs = (if index_where P xs < 0 then None else Some (xs ! nat (index_where P xs)))"
  by (induction xs) (auto simp: Let_def nat_add_distrib)

lemma find_SomeD: "find P xs = Some x \<Longrightarrow> P x \<and> x \<in> set xs"
  by (auto simp: find_Some_iff)

lemma find_append: "find P (xs @ ys) = (case find P xs of None \<Rightarrow> find P ys | Some x \<Rightarrow> Some x)"
  by (induction xs) auto

lemma find_update_at_index:
  assumes "0 \<le> index_where P xs" "P y"
  shows "find P (xs[nat (index_where P xs) := y]) = Some y"
  using assms by (induction xs) (auto simp: Let_def nat_add_distrib split: if_splits)

lemma find_update_other:
  assumes "i < length xs" "\<not> P (xs ! i)" "\<not> P y"
  shows "find P (xs[i := y]) = find P xs"
  using assms
proof (induction xs arbitrary: i)
  case (Cons x xs)
  then show ?case by (cases i) auto
qed simp

section \<open>Lists updated by index\<close>

lemma map_list_update_same:
  "f (xs ! i) = f y \<Longrightarrow> map f (xs[i := y]) = map f xs"
  by (induction xs arbitrary: i) (auto split: nat.splits)

lemma map_upd_cong: "(\<And>x. x \<in> set xs \<Longrightarrow> g (f x) = g x) \<Longrightarrow> map g (map f xs) = map g xs"
  by simp

lemma map_concat_map_cong:
  "(\<And>x. x \<in> set xs \<Longrightarrow> map f (g x) = map h (k x)) \<Longrightarrow>
     map f (concat (map g xs)) = map h (concat (map k xs))"
  by (induction xs) auto

lemma distinct_map_nth_inj:
  "distinct (map f xs) \<Longrightarrow> i < length xs \<Longrightarrow> j < length xs \<Longrightarrow> f (xs ! i) = f (xs ! j) \<Longrightarrow> i = j"
  by (metis distinct_conv_nth length_map nth_map)

text \<open>\<open>QList::removeAt(i)\<close> and \<open>QList::insert(i, x)\<close>, for an \<open>i\<close> in range.\<close>

definition list_remove_at :: "nat \<Rightarrow> 'a list \<Rightarrow> 'a list" where
  "list_remove_at i xs = take i xs @ drop (Suc i) xs"

definition list_insert_at :: "nat \<Rightarrow> 'a \<Rightarrow> 'a list \<Rightarrow> 'a list" where
  "list_insert_at i x xs = take i xs @ x # drop i xs"

lemma length_list_remove_at: "i < length xs \<Longrightarrow> length (list_remove_at i xs) = length xs - 1"
  by (simp add: list_remove_at_def)

lemma length_list_insert_at: "i \<le> length xs \<Longrightarrow> length (list_insert_at i x xs) = Suc (length xs)"
  by (simp add: list_insert_at_def)

lemma list_remove_at_append: "list_remove_at (length us) (us @ x # vs) = us @ vs"
  by (simp add: list_remove_at_def)

lemma list_insert_at_append: "list_insert_at (length us) x (us @ vs) = us @ x # vs"
  by (simp add: list_insert_at_def)

section \<open>Sequences of operations\<close>

text \<open>
  A component is a state, operations on it and an invariant. The client of the contract is
  whoever calls the operations in any order: the invariant holds after every sequence.
\<close>

locale op_system =
  fixes init :: "'s" and step :: "'s \<Rightarrow> 'op \<Rightarrow> 's" and inv :: "'s \<Rightarrow> bool"
  assumes init_inv: "inv init"
    and step_inv: "inv s \<Longrightarrow> inv (step s x)"
begin

lemma run_from_inv: "inv s \<Longrightarrow> inv (foldl step s ops)"
  by (induction ops arbitrary: s) (auto intro: step_inv)

lemma run_inv: "inv (foldl step init ops)"
  by (rule run_from_inv [OF init_inv])

end

section \<open>Bounded histories\<close>

text \<open>
  Five classes keep the last \<open>cap\<close> entries of a sequence, each with a loop or a test of its
  own. The contract: there is room, or the oldest entry goes. The client sees the last \<open>cap\<close>
  entries of what was pushed, newest last.
\<close>

definition last_n :: "nat \<Rightarrow> 'a list \<Rightarrow> 'a list" where
  "last_n n xs = drop (length xs - n) xs"

lemma length_last_n [simp]: "length (last_n n xs) = min n (length xs)"
  by (auto simp: last_n_def)

lemma last_n_all [simp]: "length xs \<le> n \<Longrightarrow> last_n n xs = xs"
  by (simp add: last_n_def)

lemma last_n_snoc_full:
  "n \<le> length xs \<Longrightarrow> 0 < n \<Longrightarrow> last_n n (xs @ [x]) = tl (last_n n xs) @ [x]"
  by (simp add: last_n_def Suc_diff_le tl_drop drop_Suc)

text \<open>\<open>while (q.size() > n) q.pop_front();\<close>\<close>

function trim_front :: "nat \<Rightarrow> 'a list \<Rightarrow> 'a list" where
  "trim_front n xs = (if n < length xs then trim_front n (tl xs) else xs)"
  by pat_completeness auto
termination
  by (relation "measure (\<lambda>(n, xs). length xs)") auto

declare trim_front.simps [simp del]

lemma trim_front_last_n: "trim_front n xs = last_n n xs"
proof (induction n xs rule: trim_front.induct)
  case (1 n xs)
  show ?case
  proof (cases "n < length xs")
    case True
    then obtain y ys where xs: "xs = y # ys" by (cases xs) auto
    with True 1 show ?thesis
      by (subst trim_front.simps) (auto simp: last_n_def Suc_diff_le)
  next
    case False
    then show ?thesis by (subst trim_front.simps) simp
  qed
qed

locale bounded_history =
  fixes push :: "'a list \<Rightarrow> 'a \<Rightarrow> 'a list" and cap :: nat
  assumes cap_pos: "0 < cap"
    and push_room: "length xs < cap \<Longrightarrow> push xs x = xs @ [x]"
    and push_full: "length xs = cap \<Longrightarrow> push xs x = tl xs @ [x]"
begin

lemma push_last_n: "length xs \<le> cap \<Longrightarrow> push xs x = last_n cap (xs @ [x])"
  using cap_pos
  by (cases "length xs = cap")
    (auto simp: push_full push_room last_n_snoc_full)

lemma push_bounded: "length xs \<le> cap \<Longrightarrow> length (push xs x) \<le> cap"
  by (simp add: push_last_n)

lemma push_newest: "length xs \<le> cap \<Longrightarrow> push xs x \<noteq> [] \<and> last (push xs x) = x"
  using cap_pos by (cases "length xs = cap") (auto simp: push_full push_room)

lemma push_all: "foldl push [] ys = last_n cap ys"
proof (induction ys rule: rev_induct)
  case Nil
  then show ?case by simp
next
  case (snoc y ys)
  have "foldl push [] (ys @ [y]) = push (last_n cap ys) y"
    using snoc by simp
  also have "\<dots> = last_n cap (ys @ [y])"
    using cap_pos by (cases "length ys < cap") (auto simp: push_room push_full last_n_snoc_full)
  finally show ?case .
qed

end

section \<open>Rows found by a key\<close>

text \<open>
  A table of rows and a function that gives the index of the row with a key, or a negative
  number. The provider promises that a hit is a row with that key and that a miss means there
  is none, in the states its invariant allows. The client reads fields of the row found.
\<close>

locale row_lookup =
  fixes rows :: "'s \<Rightarrow> 'r list" and key :: "'r \<Rightarrow> 'k" and idx :: "'s \<Rightarrow> 'k \<Rightarrow> int"
    and ok :: "'s \<Rightarrow> bool"
  assumes idx_hit: "ok s \<Longrightarrow> 0 \<le> idx s k \<Longrightarrow>
      nat (idx s k) < length (rows s) \<and> key (rows s ! nat (idx s k)) = k"
    and idx_miss: "ok s \<Longrightarrow> idx s k < 0 \<Longrightarrow> k \<notin> key ` set (rows s)"
begin

lemma idx_found_iff: "ok s \<Longrightarrow> 0 \<le> idx s k \<longleftrightarrow> k \<in> key ` set (rows s)"
  using idx_hit [of s k] idx_miss [of s k] by (metis image_eqI linorder_not_less nth_mem)

lemma idx_row:
  assumes "ok s" "distinct (map key (rows s))" "r \<in> set (rows s)"
  shows "0 \<le> idx s (key r) \<and> rows s ! nat (idx s (key r)) = r"
proof -
  from assms(3) obtain i where i: "i < length (rows s)" "rows s ! i = r"
    by (auto simp: in_set_conv_nth)
  have nn: "0 \<le> idx s (key r)"
    using assms(1,3) idx_found_iff by blast
  with idx_hit [OF assms(1) nn] i show ?thesis
    using distinct_map_nth_inj [OF assms(2)] by metis
qed

end

text \<open>The search loop provides the contract for any table.\<close>

lemma index_where_lookup:
  "row_lookup rows key (\<lambda>s k. index_where (\<lambda>r. key r = k) (rows s)) (\<lambda>_. True)"
proof
  fix s k
  assume "0 \<le> index_where (\<lambda>r. key r = k) (rows s)"
  then show "nat (index_where (\<lambda>r. key r = k) (rows s)) < length (rows s) \<and>
      key (rows s ! nat (index_where (\<lambda>r. key r = k) (rows s))) = k"
    by (rule index_where_hit)
qed (auto simp: row_simps)

end
