(* ===== verification/Json.thy ===== *)
theory Json
  imports Prelude
begin

text \<open>
  The JSON library (nlohmann-json, a package of vcpkg.json, not part of the repository) is a
  parameter of the model: a record of the calls the code makes, over an arbitrary type of
  documents. Every theorem about a store holds for every such library unless it says
  otherwise. The calls that can throw return a sum; an exception is a value \<open>Inl e\<close>.

  The second part gives one concrete library, with documents as a datatype and the parser as a
  finite table of texts. The witnesses of the development evaluate the model on it.
\<close>

section \<open>The library as a parameter\<close>

text \<open>The exceptions of the library, by the number it gives them.\<close>

datatype exn = TypeError nat | ParseError nat

record 'j json_ops =
  j_parse :: "string \<Rightarrow> 'j"  \<comment> \<open>\<open>parse(s, nullptr, false)\<close>: never throws\<close>
  j_parse_throw :: "string \<Rightarrow> exn + 'j"  \<comment> \<open>\<open>parse(s)\<close>\<close>
  j_is_array :: "'j \<Rightarrow> bool"
  j_is_object :: "'j \<Rightarrow> bool"
  j_elems :: "'j \<Rightarrow> 'j list"  \<comment> \<open>the elements of an array, as a range loop visits them\<close>
  j_contains :: "'j \<Rightarrow> string \<Rightarrow> bool"
  j_at :: "'j \<Rightarrow> string \<Rightarrow> 'j"  \<comment> \<open>\<open>operator[]\<close> on a key that is present\<close>
  j_string :: "'j \<Rightarrow> string \<Rightarrow> string \<Rightarrow> exn + string"  \<comment> \<open>\<open>value(key, "...")\<close>\<close>
  j_double :: "'j \<Rightarrow> string \<Rightarrow> double \<Rightarrow> exn + double"  \<comment> \<open>\<open>value(key, 0.0)\<close>\<close>
  j_int :: "'j \<Rightarrow> string \<Rightarrow> int \<Rightarrow> exn + int"  \<comment> \<open>\<open>value(key, 0)\<close> and \<open>value(key, 0LL)\<close>\<close>
  j_bool :: "'j \<Rightarrow> string \<Rightarrow> bool \<Rightarrow> exn + bool"  \<comment> \<open>\<open>value(key, false)\<close>\<close>

section \<open>Sequencing of calls that may throw\<close>

definition bindE :: "exn + 'a \<Rightarrow> ('a \<Rightarrow> exn + 'b) \<Rightarrow> exn + 'b" where
  "bindE m f = (case m of Inl e \<Rightarrow> Inl e | Inr x \<Rightarrow> f x)"

lemma bindE_simps [simp]: "bindE (Inl e) f = Inl e" "bindE (Inr x) f = f x"
  by (simp_all add: bindE_def)

lemma bindE_Inr_iff: "bindE m f = Inr y \<longleftrightarrow> (\<exists>x. m = Inr x \<and> f x = Inr y)"
  by (cases m) auto

text \<open>Whether a call returned, and what.\<close>

definition returned :: "exn + 'a \<Rightarrow> bool" where
  "returned m \<longleftrightarrow> (case m of Inl _ \<Rightarrow> False | Inr _ \<Rightarrow> True)"

lemma returned_simps [simp]: "\<not> returned (Inl e)" "returned (Inr x)"
  by (simp_all add: returned_def)

section \<open>A concrete library\<close>

datatype jv = JNull | JBool bool | JInt int | JFloat rat | JStr string
  | JArr "jv list" | JObj "(string \<times> jv) list" | JDiscarded

fun jv_object :: "jv \<Rightarrow> (string \<times> jv) list option" where
  "jv_object (JObj kvs) = Some kvs"
| "jv_object _ = None"

fun jv_elems :: "jv \<Rightarrow> jv list" where
  "jv_elems (JArr vs) = vs"
| "jv_elems _ = []"

text \<open>
  \<open>value(key, default)\<close> throws type_error 306 on a value that is not an object, returns the
  default when the key is absent, and throws type_error 302 when the value under the key has
  another type.
\<close>

definition jv_value :: "(jv \<Rightarrow> 'a option) \<Rightarrow> jv \<Rightarrow> string \<Rightarrow> 'a \<Rightarrow> exn + 'a" where
  "jv_value get v k dflt =
     (case jv_object v of
        None \<Rightarrow> Inl (TypeError 306)
      | Some kvs \<Rightarrow>
          (case map_of kvs k of
             None \<Rightarrow> Inr dflt
           | Some w \<Rightarrow> (case get w of None \<Rightarrow> Inl (TypeError 302) | Some x \<Rightarrow> Inr x)))"

fun jv_get_string :: "jv \<Rightarrow> string option" where
  "jv_get_string (JStr s) = Some s"
| "jv_get_string _ = None"

fun jv_get_bool :: "jv \<Rightarrow> bool option" where
  "jv_get_bool (JBool b) = Some b"
| "jv_get_bool _ = None"

fun jv_get_double :: "jv \<Rightarrow> double option" where
  "jv_get_double (JInt i) = Some (of_int i)"
| "jv_get_double (JFloat r) = Some r"
| "jv_get_double _ = None"

fun jv_get_int :: "jv \<Rightarrow> int option" where
  "jv_get_int (JInt i) = Some i"
| "jv_get_int (JFloat r) = Some (if 0 \<le> r then \<lfloor>r\<rfloor> else \<lceil>r\<rceil>)"
| "jv_get_int (JBool b) = Some (if b then 1 else 0)"
| "jv_get_int _ = None"

definition jv_ops :: "(string \<times> jv) list \<Rightarrow> jv json_ops" where
  "jv_ops texts =
     \<lparr>j_parse = (\<lambda>s. case map_of texts s of None \<Rightarrow> JDiscarded | Some v \<Rightarrow> v),
      j_parse_throw = (\<lambda>s. case map_of texts s of None \<Rightarrow> Inl (ParseError 101) | Some v \<Rightarrow> Inr v),
      j_is_array = (\<lambda>v. case v of JArr _ \<Rightarrow> True | _ \<Rightarrow> False),
      j_is_object = (\<lambda>v. jv_object v \<noteq> None),
      j_elems = jv_elems,
      j_contains = (\<lambda>v k. case jv_object v of None \<Rightarrow> False | Some kvs \<Rightarrow> map_of kvs k \<noteq> None),
      j_at = (\<lambda>v k. case jv_object v of None \<Rightarrow> JNull
               | Some kvs \<Rightarrow> (case map_of kvs k of None \<Rightarrow> JNull | Some w \<Rightarrow> w)),
      j_string = jv_value jv_get_string,
      j_double = jv_value jv_get_double,
      j_int = jv_value jv_get_int,
      j_bool = jv_value jv_get_bool\<rparr>"

lemma jv_ops_simps [simp]:
  "j_parse (jv_ops texts) s = (case map_of texts s of None \<Rightarrow> JDiscarded | Some v \<Rightarrow> v)"
  "j_is_array (jv_ops texts) v \<longleftrightarrow> (case v of JArr _ \<Rightarrow> True | _ \<Rightarrow> False)"
  "j_is_object (jv_ops texts) v \<longleftrightarrow> jv_object v \<noteq> None"
  "j_elems (jv_ops texts) v = jv_elems v"
  "j_string (jv_ops texts) = jv_value jv_get_string"
  "j_double (jv_ops texts) = jv_value jv_get_double"
  "j_int (jv_ops texts) = jv_value jv_get_int"
  "j_bool (jv_ops texts) = jv_value jv_get_bool"
  by (simp_all add: jv_ops_def)

end
