(* ===== verification/CameraStore.thy ===== *)
theory CameraStore
  imports Json
begin

text \<open>
  Src/Domain/Camera.hpp and Src/Domain/Camera.cpp: the table of cameras the CAMERA packets
  describe. The store keeps the list of the last packet (\<open>data_\<close>) and a map from camera ids to
  what telemetry and AI packets add (\<open>table_\<close>). Every method runs under the store's mutex,
  except that \<open>updateFromJson\<close> takes it once per element and once for the list.
\<close>

section \<open>Data\<close>

record DeviceInfo =
  hum :: double
  light :: double
  tilt :: double
  tmp :: double

definition DeviceInfo_default :: DeviceInfo where
  "DeviceInfo_default = \<lparr>hum = 0, light = 0, tilt = 0, tmp = 0\<rparr>"

record CameraData =
  cd_title :: string
  cd_cameraType :: string
  cd_isOnline :: bool
  cd_cameraId :: string
  cd_deviceInfo :: DeviceInfo

record AiInfo =
  ai_Img :: "string list"
  ai_personCount :: "int list"

record CameraStruct =
  cs_deviceInfo :: DeviceInfo
  cs_aiInfo :: AiInfo
  cs_sourceUrl :: string

definition AiInfo_default :: AiInfo where
  "AiInfo_default = \<lparr>ai_Img = [], ai_personCount = []\<rparr>"

definition CameraStruct_default :: CameraStruct where
  "CameraStruct_default =
     \<lparr>cs_deviceInfo = DeviceInfo_default, cs_aiInfo = AiInfo_default, cs_sourceUrl = ''''\<rparr>"

record CameraStore =
  cst_data :: "CameraData list"
  cst_table :: "string \<rightharpoonup> CameraStruct"

definition CameraStore_init :: CameraStore where
  "CameraStore_init = \<lparr>cst_data = [], cst_table = Map.empty\<rparr>"

section \<open>The camera id in a stream URL\<close>

text \<open>
  The path component after the host: the text between the first slash behind the first
  occurrence of \<open>ip\<close> and the next slash, or the empty string where the code finds none.
\<close>

definition stream_id_of_url :: "string \<Rightarrow> string \<Rightarrow> string" where
  "stream_id_of_url ip sourceUrl =
     (if sourceUrl = '''' then ''''
      else case str_find sourceUrl ip of
        None \<Rightarrow> ''''
      | Some pos \<Rightarrow>
          (case str_find_from sourceUrl ''/'' (pos + length ip) of
             None \<Rightarrow> ''''
           | Some slashPos \<Rightarrow>
               if slashPos + 1 < length sourceUrl then
                 (case str_find_from sourceUrl ''/'' (slashPos + 1) of
                    None \<Rightarrow> ''''
                  | Some nextSlash \<Rightarrow>
                      ip @ ''/'' @ str_sub sourceUrl (slashPos + 1) (nextSlash - slashPos - 1))
               else ''''))"

definition CameraStore_cameraId :: "string \<Rightarrow> string \<Rightarrow> string" where
  "CameraStore_cameraId ip sourceUrl =
     (let cameraId = stream_id_of_url ip sourceUrl
      in if cameraId = '''' \<and> ip \<noteq> '''' then ip @ ''/0'' else cameraId)"

section \<open>Operations\<close>

text \<open>One element of the packet: the fields in the order the code reads them.\<close>

definition CameraStore_item :: "'j json_ops \<Rightarrow> 'j \<Rightarrow> exn + CameraData \<times> string" where
  "CameraStore_item J item =
     bindE (j_string J item ''source_url'' '''') (\<lambda>sourceUrl.
     bindE (j_string J item ''type'' '''') (\<lambda>cameraType.
     bindE (j_bool J item ''is_online'' False) (\<lambda>isOnline.
     bindE (j_string J item ''ip'' '''') (\<lambda>ip.
       Inr (\<lparr>cd_title = ip @ '' ('' @ cameraType @ '')'', cd_cameraType = cameraType,
             cd_isOnline = isOnline, cd_cameraId = CameraStore_cameraId ip sourceUrl,
             cd_deviceInfo = DeviceInfo_default\<rparr>, sourceUrl)))))"

text \<open>The locked block inside the loop.\<close>

definition CameraStore_put :: "string \<Rightarrow> string \<Rightarrow> CameraStore \<Rightarrow> CameraStore" where
  "CameraStore_put cameraId sourceUrl st =
     (let t = (case cst_table st cameraId of
                 None \<Rightarrow> (cst_table st)(cameraId \<mapsto> CameraStruct_default)
               | Some _ \<Rightarrow> cst_table st)
      in st\<lparr>cst_table := t(cameraId \<mapsto> (the (t cameraId))\<lparr>cs_sourceUrl := sourceUrl\<rparr>)\<rparr>)"

fun CameraStore_items ::
  "'j json_ops \<Rightarrow> 'j list \<Rightarrow> CameraData list \<Rightarrow> CameraStore \<Rightarrow> CameraStore \<times> (exn + CameraData list)"
where
  "CameraStore_items J [] newData st = (st, Inr newData)"
| "CameraStore_items J (item # rest) newData st =
     (if \<not> j_is_object J item then CameraStore_items J rest newData st
      else case CameraStore_item J item of
        Inl e \<Rightarrow> (st, Inl e)
      | Inr (d, sourceUrl) \<Rightarrow>
          if cd_cameraId d \<noteq> ''''
          then CameraStore_items J rest (newData @ [d]) (CameraStore_put (cd_cameraId d) sourceUrl st)
          else CameraStore_items J rest newData st)"

text \<open>
  The outcome is the exception that leaves the method, or \<open>None\<close> where it returns before the
  callback, or the list the callback gets.
\<close>

definition CameraStore_updateFromJson ::
  "'j json_ops \<Rightarrow> string \<Rightarrow> CameraStore \<Rightarrow> CameraStore \<times> (exn + CameraData list option)" where
  "CameraStore_updateFromJson J json st =
     (let parsed = j_parse J json in
      if \<not> j_is_array J parsed then (st, Inr None)
      else case CameraStore_items J (j_elems J parsed) [] st of
        (st', Inl e) \<Rightarrow> (st', Inl e)
      | (st', Inr newData) \<Rightarrow> (st'\<lparr>cst_data := newData\<rparr>, Inr (Some newData)))"

definition CameraStore_snapshot :: "CameraStore \<Rightarrow> CameraData list" where
  "CameraStore_snapshot st =
     map (\<lambda>d. case cst_table st (cd_cameraId d) of
                None \<Rightarrow> d
              | Some c \<Rightarrow> d\<lparr>cd_deviceInfo := cs_deviceInfo c\<rparr>) (cst_data st)"

text \<open>\<open>table_[cameraId]\<close> creates the default entry where there is none.\<close>

definition CameraStore_entry :: "CameraStore \<Rightarrow> string \<Rightarrow> CameraStruct" where
  "CameraStore_entry st cameraId =
     (case cst_table st cameraId of None \<Rightarrow> CameraStruct_default | Some c \<Rightarrow> c)"

definition CameraStore_updateDeviceInfo :: "string \<Rightarrow> DeviceInfo \<Rightarrow> CameraStore \<Rightarrow> CameraStore" where
  "CameraStore_updateDeviceInfo cameraId info st =
     st\<lparr>cst_table := (cst_table st)(cameraId \<mapsto> (CameraStore_entry st cameraId)\<lparr>cs_deviceInfo := info\<rparr>)\<rparr>"

definition CameraStore_updateAiInfo :: "string \<Rightarrow> AiInfo \<Rightarrow> CameraStore \<Rightarrow> CameraStore" where
  "CameraStore_updateAiInfo cameraId info st =
     st\<lparr>cst_table := (cst_table st)(cameraId \<mapsto> (CameraStore_entry st cameraId)\<lparr>cs_aiInfo := info\<rparr>)\<rparr>"

definition CameraStore_getCameraStruct :: "string \<Rightarrow> CameraStore \<Rightarrow> CameraStruct" where
  "CameraStore_getCameraStruct cameraId st =
     (case cst_table st cameraId of Some c \<Rightarrow> c | None \<Rightarrow> CameraStruct_default)"

definition CameraStore_clear :: "CameraStore \<Rightarrow> CameraStore" where
  "CameraStore_clear st = st\<lparr>cst_data := [], cst_table := Map.empty\<rparr>"

section \<open>Laws of the parts\<close>

lemma CameraStore_put_table [simp]:
  "cst_table (CameraStore_put cid url st) =
     (cst_table st)(cid \<mapsto> (CameraStore_entry st cid)\<lparr>cs_sourceUrl := url\<rparr>)"
  by (auto simp: CameraStore_put_def CameraStore_entry_def Let_def split: option.splits)

lemma CameraStore_put_data [simp]: "cst_data (CameraStore_put cid url st) = cst_data st"
  by (simp add: CameraStore_put_def Let_def)

lemma CameraStore_items_data [simp]:
  "cst_data (fst (CameraStore_items J items acc st)) = cst_data st"
  by (induction items arbitrary: acc st) (auto split: sum.splits)

text \<open>
  What a packet adds for one camera id besides the list: the entry exists and its URL is the
  packet's; the telemetry in the entry is not touched.
\<close>

lemma CameraStore_items_entry:
  "cs_deviceInfo (CameraStore_entry (fst (CameraStore_items J items acc st)) cid) =
     cs_deviceInfo (CameraStore_entry st cid) \<and>
   cs_aiInfo (CameraStore_entry (fst (CameraStore_items J items acc st)) cid) =
     cs_aiInfo (CameraStore_entry st cid)"
  by (induction items arbitrary: acc st)
    (auto simp: CameraStore_entry_def split: sum.splits)

lemma CameraStore_items_dom:
  "dom (cst_table st) \<subseteq> dom (cst_table (fst (CameraStore_items J items acc st)))"
proof (induction items arbitrary: acc st)
  case Nil
  then show ?case by simp
next
  case (Cons item rest)
  show ?case
    using Cons [where st = st]
      Cons [where acc = "acc @ [d]" and st = "CameraStore_put (cd_cameraId d) url st" for d url]
    by (fastforce split: sum.splits)
qed

lemma CameraStore_items_in_table:
  assumes "CameraStore_items J items acc st = (st', Inr ds)" "d \<in> set ds" "d \<notin> set acc"
  shows "cd_cameraId d \<noteq> '''' \<and> cd_cameraId d \<in> dom (cst_table st')"
  using assms
proof (induction items arbitrary: acc st)
  case Nil
  then show ?case by simp
next
  case (Cons item rest)
  consider (skip) "CameraStore_items J rest acc st = (st', Inr ds)"
    | (add) x url where "cd_cameraId x \<noteq> ''''"
        "CameraStore_items J rest (acc @ [x]) (CameraStore_put (cd_cameraId x) url st) = (st', Inr ds)"
    using Cons.prems(1) by (auto split: if_splits sum.splits)
  then show ?case
  proof cases
    case skip
    then show ?thesis using Cons by blast
  next
    case add
    show ?thesis
    proof (cases "d = x")
      case True
      have "cd_cameraId x \<in> dom (cst_table (CameraStore_put (cd_cameraId x) url st))" by simp
      moreover note CameraStore_items_dom [of "CameraStore_put (cd_cameraId x) url st" J rest "acc @ [x]"]
      ultimately show ?thesis
        using add True by auto
    next
      case False
      then show ?thesis using Cons.IH [OF add(2)] Cons.prems(2,3) by simp
    qed
  qed
qed

section \<open>The invariant and every sequence of operations\<close>

text \<open>
  Every listed camera has a non-empty id with an entry in the table, so \<open>getCameraStruct\<close> on a
  listed camera is never the default for a missing one.
\<close>

definition CameraStore_inv :: "CameraStore \<Rightarrow> bool" where
  "CameraStore_inv st \<longleftrightarrow>
     (\<forall>d \<in> set (cst_data st). cd_cameraId d \<noteq> '''' \<and> cst_table st (cd_cameraId d) \<noteq> None)"

datatype CameraStore_op =
    CS_updateFromJson string
  | CS_updateDeviceInfo string DeviceInfo
  | CS_updateAiInfo string AiInfo
  | CS_clear

fun CameraStore_step :: "'j json_ops \<Rightarrow> CameraStore \<Rightarrow> CameraStore_op \<Rightarrow> CameraStore" where
  "CameraStore_step J st (CS_updateFromJson json) = fst (CameraStore_updateFromJson J json st)"
| "CameraStore_step J st (CS_updateDeviceInfo cid info) = CameraStore_updateDeviceInfo cid info st"
| "CameraStore_step J st (CS_updateAiInfo cid info) = CameraStore_updateAiInfo cid info st"
| "CameraStore_step J st CS_clear = CameraStore_clear st"

lemma CameraStore_inv_init [inv_intros]: "CameraStore_inv CameraStore_init"
  by (simp add: CameraStore_inv_def CameraStore_init_def)

lemma CameraStore_updateFromJson_inv [inv_intros]:
  assumes "CameraStore_inv st"
  shows "CameraStore_inv (fst (CameraStore_updateFromJson J json st))"
proof -
  obtain st' r where items: "CameraStore_items J (j_elems J (j_parse J json)) [] st = (st', r)"
    by fastforce
  have data: "cst_data st' = cst_data st" and dom: "dom (cst_table st) \<subseteq> dom (cst_table st')"
    using CameraStore_items_data [of J "j_elems J (j_parse J json)" "[]" st]
      CameraStore_items_dom [of st J "j_elems J (j_parse J json)" "[]"] items by auto
  show ?thesis
  proof (cases r)
    case (Inl e)
    with items assms data dom show ?thesis
      by (auto simp: CameraStore_updateFromJson_def CameraStore_inv_def Let_def)
  next
    case (Inr ds)
    with CameraStore_items_in_table [of J _ "[]" st st' ds] items assms show ?thesis
      by (fastforce simp: CameraStore_updateFromJson_def CameraStore_inv_def Let_def)
  qed
qed

lemma CameraStore_step_inv [inv_intros]:
  assumes "CameraStore_inv st"
  shows "CameraStore_inv (CameraStore_step J st x)"
proof (cases x)
  case (CS_updateFromJson json)
  with assms show ?thesis by (simp add: CameraStore_updateFromJson_inv)
qed (use assms in \<open>auto simp: CameraStore_inv_def CameraStore_updateDeviceInfo_def
      CameraStore_updateAiInfo_def CameraStore_clear_def\<close>)

interpretation camera_store: op_system CameraStore_init "CameraStore_step J" CameraStore_inv for J
  by unfold_locales (auto intro: inv_intros)

section \<open>What a packet does\<close>

text \<open>
  The specification of the loop: the elements that are objects, read into rows, without the
  rows that get no camera id. An element is good if it is not an object or all its fields read.
\<close>

definition CameraStore_good :: "'j json_ops \<Rightarrow> 'j \<Rightarrow> bool" where
  "CameraStore_good J item \<longleftrightarrow> (j_is_object J item \<longrightarrow> returned (CameraStore_item J item))"

definition CameraStore_row :: "'j json_ops \<Rightarrow> 'j \<Rightarrow> (CameraData \<times> string) list" where
  "CameraStore_row J item =
     (if j_is_object J item
      then (case CameraStore_item J item of
              Inl e \<Rightarrow> []
            | Inr (d, url) \<Rightarrow> if cd_cameraId d = '''' then [] else [(d, url)])
      else [])"

definition CameraStore_listed :: "'j json_ops \<Rightarrow> 'j list \<Rightarrow> (CameraData \<times> string) list" where
  "CameraStore_listed J items = concat (map (CameraStore_row J) items)"

definition CameraStore_puts :: "(CameraData \<times> string) list \<Rightarrow> CameraStore \<Rightarrow> CameraStore" where
  "CameraStore_puts rows st = fold (\<lambda>(d, url). CameraStore_put (cd_cameraId d) url) rows st"

lemma CameraStore_items_good:
  "\<forall>item \<in> set items. CameraStore_good J item \<Longrightarrow>
     CameraStore_items J (items @ rest) acc st =
       CameraStore_items J rest (acc @ map fst (CameraStore_listed J items))
         (CameraStore_puts (CameraStore_listed J items) st)"
  by (induction items arbitrary: acc st)
    (auto simp: CameraStore_listed_def CameraStore_puts_def CameraStore_row_def
      CameraStore_good_def returned_def split: sum.splits)

lemma CameraStore_items_Inl:
  "snd (CameraStore_items J items acc st) = Inl e \<Longrightarrow>
     \<exists>good bad rest. items = good @ bad # rest \<and> (\<forall>item \<in> set good. CameraStore_good J item) \<and>
       j_is_object J bad \<and> CameraStore_item J bad = Inl e"
proof (induction items arbitrary: acc st)
  case Nil
  then show ?case by simp
next
  case (Cons item items)
  show ?case
  proof (cases "CameraStore_good J item")
    case True
    then obtain acc' st' where "snd (CameraStore_items J items acc' st') = Inl e"
      using Cons.prems
      by (auto simp: CameraStore_good_def returned_def split: if_splits sum.splits prod.splits)
    then obtain good bad rest where "items = good @ bad # rest"
        "\<forall>item \<in> set good. CameraStore_good J item" "j_is_object J bad" "CameraStore_item J bad = Inl e"
      using Cons.IH by blast
    with True show ?thesis
      by (intro exI [of _ "item # good"] exI [of _ bad] exI [of _ rest]) simp
  next
    case False
    with Cons.prems show ?thesis
      by (intro exI [of _ "[]"] exI [of _ item] exI [of _ items])
        (auto simp: CameraStore_good_def returned_def split: sum.splits)
  qed
qed

lemma CameraStore_puts_url:
  "cs_sourceUrl (CameraStore_entry (CameraStore_puts rows st) cid) =
     last (cs_sourceUrl (CameraStore_entry st cid) #
             map snd (filter (\<lambda>(d, url). cd_cameraId d = cid) rows))"
proof (induction rows arbitrary: st)
  case Nil
  then show ?case by (simp add: CameraStore_puts_def)
next
  case (Cons r rows)
  obtain d url where "r = (d, url)" by fastforce
  with Cons [of "CameraStore_put (cd_cameraId d) url st"] show ?case
    by (auto simp: CameraStore_puts_def CameraStore_entry_def split: if_splits)
qed

lemma CameraStore_puts_data [simp]: "cst_data (CameraStore_puts rows st) = cst_data st"
  by (induction rows arbitrary: st) (auto simp: CameraStore_puts_def)

lemma CameraStore_update_good:
  assumes "j_is_array J (j_parse J json)"
    and "\<forall>item \<in> set (j_elems J (j_parse J json)). CameraStore_good J item"
  shows "CameraStore_updateFromJson J json st =
     (let rows = CameraStore_listed J (j_elems J (j_parse J json))
      in ((CameraStore_puts rows st)\<lparr>cst_data := map fst rows\<rparr>, Inr (Some (map fst rows))))"
  using assms(1) CameraStore_items_good [OF assms(2), of "[]" "[]" st]
  by (simp add: CameraStore_updateFromJson_def Let_def)

section \<open>Properties\<close>

text \<open>
  Whatever CAMERA packets, telemetry updates, AI updates and logouts arrive, in
  whatever order and with whatever JSON library, every camera the store lists has a non-empty
  id and an entry in the table. This includes packets that make the parser throw half way.
\<close>

theorem CameraStore_listed_cameras_have_entries:
  "\<forall>d \<in> set (cst_data (foldl (CameraStore_step J) CameraStore_init ops)).
     cd_cameraId d \<noteq> '''' \<and>
     cst_table (foldl (CameraStore_step J) CameraStore_init ops) (cd_cameraId d) \<noteq> None"
  using camera_store.run_inv [of J ops] unfolding CameraStore_inv_def .

theorem CameraStore_listed_cameras_have_entries_witness:
  "CameraStore_inv (foldl (CameraStore_step (jv_ops [(''t'', JArr [JObj [(''ip'', JStr ''10.0.0.1'')]])]))
     CameraStore_init [CS_updateFromJson ''t'', CS_clear, CS_updateFromJson ''t''])"
  unfolding CameraStore_inv_def by (rule CameraStore_listed_cameras_have_entries)

text \<open>
  Claim C14. A CAMERA packet never touches telemetry or AI data: for every camera id, the sensor
  values and the AI record in the table are those from before the packet, on every path
  through the update (rejected packet, exception in the middle, success).
\<close>

theorem CameraStore_update_keeps_telemetry:
  "cs_deviceInfo (CameraStore_entry (fst (CameraStore_updateFromJson J json st)) cid) =
     cs_deviceInfo (CameraStore_entry st cid) \<and>
   cs_aiInfo (CameraStore_entry (fst (CameraStore_updateFromJson J json st)) cid) =
     cs_aiInfo (CameraStore_entry st cid)"
  using CameraStore_items_entry [of J "j_elems J (j_parse J json)" "[]" st cid]
  by (auto simp: CameraStore_updateFromJson_def CameraStore_entry_def Let_def
      split: prod.splits sum.splits)

text \<open>
  A packet all of whose objects read without an exception replaces the list by exactly
  the rows of the packet that get a camera id, in packet order, hands the same list to the
  callback, and leaves for every camera id the stream URL of the last row with that id (the
  URL from before where the packet has none).
\<close>

theorem CameraStore_update_success:
  fixes J :: "'j json_ops" and st :: CameraStore
  assumes "j_is_array J (j_parse J json)"
    and "\<forall>item \<in> set (j_elems J (j_parse J json)). CameraStore_good J item"
  defines "rows \<equiv> CameraStore_listed J (j_elems J (j_parse J json))"
    and "st' \<equiv> fst (CameraStore_updateFromJson J json st)"
  shows "snd (CameraStore_updateFromJson J json st) = Inr (Some (map fst rows)) \<and>
     cst_data st' = map fst rows \<and>
     cs_sourceUrl (CameraStore_getCameraStruct cid st') =
       last (cs_sourceUrl (CameraStore_getCameraStruct cid st) #
              map snd (filter (\<lambda>(d, url). cd_cameraId d = cid) rows))"
proof -
  have get: "CameraStore_getCameraStruct cid s = CameraStore_entry s cid" for s
    by (auto simp: CameraStore_getCameraStruct_def CameraStore_entry_def split: option.splits)
  have entry: "CameraStore_entry (s\<lparr>cst_data := x\<rparr>) cid = CameraStore_entry s cid" for s x
    by (simp add: CameraStore_entry_def)
  show ?thesis
    by (simp add: CameraStore_update_good [OF assms(1,2)] Let_def get entry CameraStore_puts_url
        rows_def st'_def)
qed

theorem CameraStore_update_success_witness:
  "map cd_cameraId (cst_data (fst (CameraStore_updateFromJson
     (jv_ops [(''t'', JArr [JObj [(''ip'', JStr ''10.0.0.1'')], JInt 3, JObj []])]) ''t'' CameraStore_init)))
   = [''10.0.0.1/0'']"
proof -
  let ?J = "jv_ops [(''t'', JArr [JObj [(''ip'', JStr ''10.0.0.1'')], JInt 3, JObj []])]"
  have "j_is_array ?J (j_parse ?J ''t'')" by simp
  moreover have "\<forall>item \<in> set (j_elems ?J (j_parse ?J ''t'')). CameraStore_good ?J item"
    by (simp add: CameraStore_good_def CameraStore_item_def jv_value_def)
  ultimately show ?thesis
    using CameraStore_update_success [of ?J "''t''" CameraStore_init]
    by (simp add: CameraStore_listed_def CameraStore_row_def CameraStore_item_def jv_value_def
        CameraStore_cameraId_def stream_id_of_url_def)
qed

text \<open>
  Claim C3. The update throws exactly when some object of the packet has a field of the wrong
  type, with the exception of the first such object, and then the list of cameras is the one
  from before the packet. (The table entries of the objects before it are already written.)
\<close>

theorem CameraStore_update_throws_iff:
  "(snd (CameraStore_updateFromJson J json st) = Inl e \<longleftrightarrow>
      j_is_array J (j_parse J json) \<and>
      (\<exists>good bad rest. j_elems J (j_parse J json) = good @ bad # rest \<and>
         list_all (CameraStore_good J) good \<and> j_is_object J bad \<and> CameraStore_item J bad = Inl e)) \<and>
   (returned (snd (CameraStore_updateFromJson J json st)) \<or>
      cst_data (fst (CameraStore_updateFromJson J json st)) = cst_data st)"
  (is "(?throws \<longleftrightarrow> ?arr \<and> ?bad) \<and> _")
proof -
  let ?items = "j_elems J (j_parse J json)"
  have loop: "?throws \<longleftrightarrow> ?arr \<and> snd (CameraStore_items J ?items [] st) = Inl e"
    by (auto simp: CameraStore_updateFromJson_def Let_def split: prod.splits sum.splits)
  have bad: "snd (CameraStore_items J ?items [] st) = Inl e" if ?bad
  proof -
    from that obtain good bad rest where "?items = good @ bad # rest"
        "list_all (CameraStore_good J) good" "j_is_object J bad" "CameraStore_item J bad = Inl e"
      by blast
    then show ?thesis
      by (simp add: CameraStore_items_good list_all_iff)
  qed
  have "?throws \<longleftrightarrow> ?arr \<and> ?bad"
    using loop bad CameraStore_items_Inl [of J ?items "[]" st e] by (force simp: list_all_iff)
  moreover have "returned (snd (CameraStore_updateFromJson J json st)) \<or>
      cst_data (fst (CameraStore_updateFromJson J json st)) = cst_data st"
    using CameraStore_items_data [of J ?items "[]" st]
    by (auto simp: CameraStore_updateFromJson_def Let_def simp del: CameraStore_items_data
        split: prod.splits sum.splits)
  ultimately show ?thesis by blast
qed

text \<open>
  A telemetry update for a camera id shows in the next snapshot at exactly the cameras
  with that id and leaves every other row as it was.
\<close>

theorem CameraStore_snapshot_after_telemetry:
  "CameraStore_snapshot (CameraStore_updateDeviceInfo cid info st) =
     map (\<lambda>d. if cd_cameraId d = cid then d\<lparr>cd_deviceInfo := info\<rparr> else d) (CameraStore_snapshot st)"
  by (auto simp: CameraStore_snapshot_def CameraStore_updateDeviceInfo_def split: option.splits)

text \<open>
  The id of a camera in a stream URL of the form the server sends (scheme and
  credentials, the ip, a port, a slash, the stream number, a slash, the rest) is the ip, a
  slash and the stream number.
\<close>

theorem CameraStore_cameraId_of_url:
  assumes "str_find (pre @ ip @ port @ ''/'' @ stream @ ''/'' @ post) ip = Some (length pre)"
    and "CHR ''/'' \<notin> set port" and "CHR ''/'' \<notin> set stream"
  shows "CameraStore_cameraId ip (pre @ ip @ port @ ''/'' @ stream @ ''/'' @ post) =
           ip @ ''/'' @ stream"
proof -
  let ?url = "pre @ ip @ port @ ''/'' @ stream @ ''/'' @ post"
  let ?slash = "length pre + length ip + length port"
  have first: "str_find_from ?url ''/'' (length pre + length ip) = Some ?slash"
    using str_find_char_skip [OF assms(2), of "stream @ ''/'' @ post"]
    by (simp add: str_find_from_def)
  have "drop (?slash + 1) ?url = stream @ ''/'' @ post"
    by simp
  then have second: "str_find_from ?url ''/'' (?slash + 1) = Some (?slash + 1 + length stream)"
    using str_find_char_skip [OF assms(3), of post] by (simp add: str_find_from_def)
  have "stream_id_of_url ip ?url = ip @ ''/'' @ stream"
    unfolding stream_id_of_url_def using assms(1) first second by (simp add: str_sub_def)
  then show ?thesis by (simp add: CameraStore_cameraId_def)
qed

theorem CameraStore_cameraId_of_url_witness:
  "CameraStore_cameraId ''192.168.0.17'' ''rtsp://admin:pw@192.168.0.17:554/0/profile2/media.smp''
     = ''192.168.0.17/0''"
  using CameraStore_cameraId_of_url
    [of "''rtsp://admin:pw@''" "''192.168.0.17''" "'':554''" "''0''" "''profile2/media.smp''"]
  by simp

end
