(* ===== verification/DeviceStore.thy ===== *)
theory DeviceStore
  imports CameraStore
begin

text \<open>
  Src/Domain/Device.hpp and Src/Domain/Device.cpp: one record per device ip, merged from the
  CAMERA packets (id, type, online flag) and the AVAILABLE packets (load figures and their
  history). The store is the vector \<open>devices_\<close>; each update holds the mutex for its whole loop.
  The clock reading of an AVAILABLE update is an argument.
\<close>

section \<open>Data\<close>

record DeviceSnapshot =
  s_timestamp :: int
  s_cpu :: double
  s_memory :: double
  s_temp :: double
  s_uptime :: int

record DeviceIntegrated =
  d_ip :: string
  d_cameraId :: string
  d_type :: string
  d_isOnline :: bool
  d_cpu :: double
  d_memory :: double
  d_temp :: double
  d_uptime :: int
  d_lastUpdate :: int
  d_hasMotor :: bool
  d_hasIr :: bool
  d_hasHeater :: bool
  d_history :: "DeviceSnapshot list"

definition DeviceIntegrated_new :: "string \<Rightarrow> DeviceIntegrated" where
  "DeviceIntegrated_new ip =
     \<lparr>d_ip = ip, d_cameraId = '''', d_type = '''', d_isOnline = False, d_cpu = 0, d_memory = 0,
      d_temp = 0, d_uptime = 0, d_lastUpdate = 0, d_hasMotor = True, d_hasIr = False,
      d_hasHeater = False, d_history = []\<rparr>"

type_synonym DeviceStore = "DeviceIntegrated list"

definition MAX_HISTORY :: nat where
  "MAX_HISTORY = 60"

section \<open>Lookup\<close>

definition DeviceStore_findIndexByIp :: "DeviceStore \<Rightarrow> string \<Rightarrow> int" where
  "DeviceStore_findIndexByIp devices ip = index_where (\<lambda>d. d_ip d = ip) devices"

definition DeviceStore_hasDevice :: "DeviceStore \<Rightarrow> string \<Rightarrow> bool" where
  "DeviceStore_hasDevice devices ip \<longleftrightarrow> 0 \<le> DeviceStore_findIndexByIp devices ip"

definition DeviceStore_cameraIdByIp :: "DeviceStore \<Rightarrow> string \<Rightarrow> string" where
  "DeviceStore_cameraIdByIp devices ip =
     (let idx = DeviceStore_findIndexByIp devices ip
      in if 0 \<le> idx then d_cameraId (devices ! nat idx) else '''')"

definition DeviceStore_getHistory :: "DeviceStore \<Rightarrow> string \<Rightarrow> DeviceSnapshot list" where
  "DeviceStore_getHistory devices ip =
     (let idx = DeviceStore_findIndexByIp devices ip
      in if idx < 0 then [] else d_history (devices ! nat idx))"

section \<open>CAMERA packets\<close>

definition DeviceStore_cameraId :: "string \<Rightarrow> string \<Rightarrow> string" where
  "DeviceStore_cameraId ip sourceUrl =
     (let cameraId = stream_id_of_url ip sourceUrl
      in if cameraId = '''' then ip @ ''/0'' else cameraId)"

text \<open>The first device with the ip, or a new one.\<close>

definition DeviceStore_base :: "DeviceStore \<Rightarrow> string \<Rightarrow> DeviceIntegrated" where
  "DeviceStore_base devices ip =
     (case find (\<lambda>d. d_ip d = ip) devices of Some d \<Rightarrow> d | None \<Rightarrow> DeviceIntegrated_new ip)"

text \<open>One element of the packet: no device where the element is not an object or has no ip.\<close>

definition DeviceStore_camera_item ::
  "'j json_ops \<Rightarrow> DeviceStore \<Rightarrow> 'j \<Rightarrow> exn + DeviceIntegrated option" where
  "DeviceStore_camera_item J devices item =
     (if \<not> j_is_object J item then Inr None
      else bindE (j_string J item ''ip'' '''') (\<lambda>ip.
        if ip = '''' then Inr None
        else bindE (j_string J item ''source_url'' '''') (\<lambda>sourceUrl.
          bindE (j_string J item ''type'' '''') (\<lambda>type.
          bindE (j_bool J item ''is_online'' False) (\<lambda>isOnline.
            Inr (Some ((DeviceStore_base devices ip)
              \<lparr>d_cameraId := DeviceStore_cameraId ip sourceUrl, d_type := type,
               d_isOnline := isOnline, d_hasMotor := (type = ''SUB_PI''),
               d_hasIr := False, d_hasHeater := False\<rparr>))))))) "

fun DeviceStore_camera_items ::
  "'j json_ops \<Rightarrow> DeviceStore \<Rightarrow> 'j list \<Rightarrow> DeviceIntegrated list \<Rightarrow> exn + DeviceIntegrated list"
where
  "DeviceStore_camera_items J devices [] merged = Inr merged"
| "DeviceStore_camera_items J devices (item # rest) merged =
     bindE (DeviceStore_camera_item J devices item) (\<lambda>r.
       case r of
         None \<Rightarrow> DeviceStore_camera_items J devices rest merged
       | Some device \<Rightarrow> DeviceStore_camera_items J devices rest (merged @ [device]))"

text \<open>The devices that are not in the packet go offline and stay, behind the merged ones.\<close>

fun DeviceStore_keep_offline :: "DeviceStore \<Rightarrow> DeviceIntegrated list \<Rightarrow> DeviceIntegrated list" where
  "DeviceStore_keep_offline [] merged = merged"
| "DeviceStore_keep_offline (old # olds) merged =
     (case find (\<lambda>d. d_ip d = d_ip old) merged of
        None \<Rightarrow> DeviceStore_keep_offline olds (merged @ [old\<lparr>d_isOnline := False\<rparr>])
      | Some _ \<Rightarrow> DeviceStore_keep_offline olds merged)"

definition DeviceStore_updateFromCameraJson ::
  "'j json_ops \<Rightarrow> string \<Rightarrow> DeviceStore \<Rightarrow> DeviceStore \<times> (exn + DeviceIntegrated list option)" where
  "DeviceStore_updateFromCameraJson J json devices =
     (let parsed = j_parse J json in
      if \<not> j_is_array J parsed then (devices, Inr None)
      else case DeviceStore_camera_items J devices (j_elems J parsed) [] of
        Inl e \<Rightarrow> (devices, Inl e)
      | Inr merged \<Rightarrow>
          (let merged' = DeviceStore_keep_offline devices merged
           in (merged', Inr (Some merged'))))"

section \<open>AVAILABLE packets\<close>

definition DeviceStore_push_history :: "DeviceSnapshot list \<Rightarrow> DeviceSnapshot \<Rightarrow> DeviceSnapshot list" where
  "DeviceStore_push_history history snap = trim_front MAX_HISTORY (history @ [snap])"

definition DeviceStore_addSnapshot :: "DeviceIntegrated \<Rightarrow> DeviceSnapshot \<Rightarrow> DeviceIntegrated" where
  "DeviceStore_addSnapshot device snap =
     device\<lparr>d_history := DeviceStore_push_history (d_history device) snap\<rparr>"

text \<open>
  The assignments through the pointer \<open>device\<close>, in order; a field that throws leaves the
  assignments before it in place.
\<close>

definition DeviceStore_readings ::
  "'j json_ops \<Rightarrow> int \<Rightarrow> 'j \<Rightarrow> DeviceIntegrated \<Rightarrow> DeviceIntegrated \<times> (exn + unit)" where
  "DeviceStore_readings J timestamp item device =
     (case j_double J item ''cpu'' 0 of Inl e \<Rightarrow> (device, Inl e) | Inr cpu \<Rightarrow>
      (let device = device\<lparr>d_cpu := cpu\<rparr> in
      case j_double J item ''memory'' 0 of Inl e \<Rightarrow> (device, Inl e) | Inr memory \<Rightarrow>
      (let device = device\<lparr>d_memory := memory\<rparr> in
      case j_double J item ''temp'' 0 of Inl e \<Rightarrow> (device, Inl e) | Inr temp \<Rightarrow>
      (let device = device\<lparr>d_temp := temp\<rparr> in
      case j_int J item ''uptime'' 0 of Inl e \<Rightarrow> (device, Inl e) | Inr uptime \<Rightarrow>
      (let device = device\<lparr>d_uptime := uptime, d_lastUpdate := timestamp\<rparr>;
           s = \<lparr>s_timestamp = timestamp, s_cpu = d_cpu device, s_memory = d_memory device,
                s_temp = d_temp device, s_uptime = d_uptime device\<rparr>
       in (DeviceStore_addSnapshot device s, Inr ()))))))"

text \<open>
  The vector and the position the pointer refers to: the first device with the ip, or a new one
  at the end.
\<close>

definition DeviceStore_slot :: "DeviceStore \<Rightarrow> string \<Rightarrow> DeviceStore \<times> nat" where
  "DeviceStore_slot devices ip =
     (let idx = DeviceStore_findIndexByIp devices ip
      in if 0 \<le> idx then (devices, nat idx)
         else (devices @ [DeviceIntegrated_new ip], length devices))"

definition DeviceStore_available_item ::
  "'j json_ops \<Rightarrow> int \<Rightarrow> 'j \<Rightarrow> DeviceStore \<Rightarrow> DeviceStore \<times> (exn + unit)" where
  "DeviceStore_available_item J timestamp item devices =
     (if \<not> j_is_object J item then (devices, Inr ())
      else case j_string J item ''ip'' '''' of
        Inl e \<Rightarrow> (devices, Inl e)
      | Inr ip \<Rightarrow>
          if ip = '''' then (devices, Inr ())
          else
            (let (devices', i) = DeviceStore_slot devices ip;
                 (device, r) = DeviceStore_readings J timestamp item (devices' ! i)
             in (devices'[i := device], r)))"

fun DeviceStore_available_items ::
  "'j json_ops \<Rightarrow> int \<Rightarrow> 'j list \<Rightarrow> DeviceStore \<Rightarrow> DeviceStore \<times> (exn + unit)" where
  "DeviceStore_available_items J timestamp [] devices = (devices, Inr ())"
| "DeviceStore_available_items J timestamp (item # rest) devices =
     (case DeviceStore_available_item J timestamp item devices of
        (devices', Inl e) \<Rightarrow> (devices', Inl e)
      | (devices', Inr _) \<Rightarrow> DeviceStore_available_items J timestamp rest devices')"

definition DeviceStore_updateFromAvailableJson ::
  "'j json_ops \<Rightarrow> int \<Rightarrow> string \<Rightarrow> DeviceStore \<Rightarrow> DeviceStore \<times> (exn + DeviceIntegrated list option)" where
  "DeviceStore_updateFromAvailableJson J timestamp json devices =
     (let parsed = j_parse J json in
      if \<not> j_is_object J parsed then (devices, Inr None)
      else
        case (if j_contains J parsed ''devices'' \<and> j_is_array J (j_at J parsed ''devices'')
              then DeviceStore_available_items J timestamp (j_elems J (j_at J parsed ''devices'')) devices
              else (devices, Inr ())) of
          (devices', Inl e) \<Rightarrow> (devices', Inl e)
        | (devices', Inr _) \<Rightarrow> (devices', Inr (Some devices')))"

section \<open>The rest of the interface\<close>

definition DeviceStore_snapshot :: "DeviceStore \<Rightarrow> DeviceIntegrated list" where
  "DeviceStore_snapshot devices = devices"

text \<open>The deprecated entry point ignores its text and hands out the snapshot.\<close>

definition DeviceStore_updateFromJson ::
  "string \<Rightarrow> DeviceStore \<Rightarrow> DeviceStore \<times> (exn + DeviceIntegrated list option)" where
  "DeviceStore_updateFromJson json devices = (devices, Inr (Some (DeviceStore_snapshot devices)))"

definition DeviceStore_clear :: "DeviceStore \<Rightarrow> DeviceStore" where
  "DeviceStore_clear devices = []"

section \<open>The parts meet their contracts\<close>

interpretation device_history: bounded_history DeviceStore_push_history MAX_HISTORY
  by unfold_locales
    (auto simp: DeviceStore_push_history_def MAX_HISTORY_def trim_front_last_n last_n_snoc_full)

interpretation device_rows: row_lookup "\<lambda>devices. devices" d_ip DeviceStore_findIndexByIp "\<lambda>_. True"
  by (simp add: DeviceStore_findIndexByIp_def [abs_def] index_where_lookup)

section \<open>The abstract store: a map from ips to devices\<close>

definition DeviceStore_abs :: "DeviceStore \<Rightarrow> string \<rightharpoonup> DeviceIntegrated" where
  "DeviceStore_abs devices = (\<lambda>ip. find (\<lambda>d. d_ip d = ip) devices)"

lemma DeviceStore_abs_Some: "DeviceStore_abs devices ip = Some d \<Longrightarrow> d_ip d = ip \<and> d \<in> set devices"
  by (auto simp: DeviceStore_abs_def find_Some_iff)

lemma DeviceStore_abs_None: "DeviceStore_abs devices ip = None \<longleftrightarrow> ip \<notin> d_ip ` set devices"
  by (auto simp: DeviceStore_abs_def find_None_iff)

lemma DeviceStore_getHistory_abs:
  "DeviceStore_getHistory devices ip =
     (case DeviceStore_abs devices ip of None \<Rightarrow> [] | Some d \<Rightarrow> d_history d)"
  by (simp add: DeviceStore_getHistory_def DeviceStore_findIndexByIp_def DeviceStore_abs_def
      find_index_where Let_def)

lemma DeviceStore_cameraIdByIp_abs:
  "DeviceStore_cameraIdByIp devices ip =
     (case DeviceStore_abs devices ip of None \<Rightarrow> '''' | Some d \<Rightarrow> d_cameraId d)"
  by (simp add: DeviceStore_cameraIdByIp_def DeviceStore_findIndexByIp_def DeviceStore_abs_def
      find_index_where Let_def)

lemma DeviceStore_hasDevice_abs:
  "DeviceStore_hasDevice devices ip \<longleftrightarrow> DeviceStore_abs devices ip \<noteq> None"
  by (auto simp: DeviceStore_hasDevice_def DeviceStore_findIndexByIp_def DeviceStore_abs_def
      find_index_where)

text \<open>What an AVAILABLE element does to the map, and what a CAMERA packet does.\<close>

definition DeviceMap_get :: "(string \<rightharpoonup> DeviceIntegrated) \<Rightarrow> string \<Rightarrow> DeviceIntegrated" where
  "DeviceMap_get m ip = (case m ip of Some d \<Rightarrow> d | None \<Rightarrow> DeviceIntegrated_new ip)"

definition DeviceMap_available_item ::
  "'j json_ops \<Rightarrow> int \<Rightarrow> 'j \<Rightarrow> (string \<rightharpoonup> DeviceIntegrated) \<Rightarrow> (string \<rightharpoonup> DeviceIntegrated) \<times> (exn + unit)"
where
  "DeviceMap_available_item J ts item m =
     (if \<not> j_is_object J item then (m, Inr ())
      else case j_string J item ''ip'' '''' of
        Inl e \<Rightarrow> (m, Inl e)
      | Inr ip \<Rightarrow>
          if ip = '''' then (m, Inr ())
          else (let (d, r) = DeviceStore_readings J ts item (DeviceMap_get m ip) in (m(ip \<mapsto> d), r)))"



definition DeviceMap_camera ::
  "DeviceIntegrated list \<Rightarrow> (string \<rightharpoonup> DeviceIntegrated) \<Rightarrow> (string \<rightharpoonup> DeviceIntegrated)" where
  "DeviceMap_camera merged m =
     (\<lambda>ip. case DeviceStore_abs merged ip of
        Some d \<Rightarrow> Some d
      | None \<Rightarrow> map_option (\<lambda>d. d\<lparr>d_isOnline := False\<rparr>) (m ip))"

section \<open>Laws of the parts\<close>

lemma DeviceStore_readings_ip: "d_ip (fst (DeviceStore_readings J ts item d)) = d_ip d"
  by (auto simp: DeviceStore_readings_def DeviceStore_addSnapshot_def Let_def split: sum.splits)

lemma DeviceStore_readings_history:
  "length (d_history d) \<le> MAX_HISTORY \<Longrightarrow>
     length (d_history (fst (DeviceStore_readings J ts item d))) \<le> MAX_HISTORY"
  by (auto simp: DeviceStore_readings_def DeviceStore_addSnapshot_def Let_def
      device_history.push_bounded split: sum.splits)

lemma DeviceStore_readings_static:
  "d_cameraId (fst (DeviceStore_readings J ts item d)) = d_cameraId d \<and>
   d_type (fst (DeviceStore_readings J ts item d)) = d_type d \<and>
   d_isOnline (fst (DeviceStore_readings J ts item d)) = d_isOnline d"
  by (auto simp: DeviceStore_readings_def DeviceStore_addSnapshot_def Let_def split: sum.splits)

lemma DeviceIntegrated_new_simps [simp]:
  "d_ip (DeviceIntegrated_new ip) = ip" "d_history (DeviceIntegrated_new ip) = []"
  by (simp_all add: DeviceIntegrated_new_def)

text \<open>Writing through the pointer is writing to the map, reading is reading the map.\<close>

lemma DeviceStore_slot_write:
  assumes "DeviceStore_slot devices ip = (devices', i)" "d_ip d = ip"
  shows "DeviceStore_abs (devices'[i := d]) = (DeviceStore_abs devices)(ip \<mapsto> d)"
proof (cases "0 \<le> DeviceStore_findIndexByIp devices ip")
  case True
  let ?i = "nat (DeviceStore_findIndexByIp devices ip)"
  have hit: "?i < length devices" "d_ip (devices ! ?i) = ip"
    using device_rows.idx_hit [of devices ip] True by auto
  have "find (\<lambda>x. d_ip x = ip') (devices[?i := d]) =
      (if ip' = ip then Some d else find (\<lambda>x. d_ip x = ip') devices)" for ip'
  proof (cases "ip' = ip")
    case True
    have "0 \<le> index_where (\<lambda>x. d_ip x = ip) devices"
      using \<open>0 \<le> DeviceStore_findIndexByIp devices ip\<close>
      by (simp add: DeviceStore_findIndexByIp_def)
    from find_update_at_index [OF this, of d] assms(2) True show ?thesis
      by (simp add: DeviceStore_findIndexByIp_def)
  next
    case False
    with find_update_other [of ?i devices "\<lambda>x. d_ip x = ip'" d] hit assms(2) show ?thesis by auto
  qed
  with True assms(1) show ?thesis
    by (auto simp: DeviceStore_abs_def DeviceStore_slot_def fun_eq_iff)
next
  case False
  then have "find (\<lambda>x. d_ip x = ip) devices = None"
    using device_rows.idx_miss [of devices ip] by (auto simp: find_None_iff)
  with False assms show ?thesis
    by (auto simp: DeviceStore_abs_def DeviceStore_slot_def fun_eq_iff find_append
        split: option.splits)
qed

lemma DeviceStore_slot_read:
  "DeviceStore_slot devices ip = (devices', i) \<Longrightarrow>
     devices' ! i = DeviceMap_get (DeviceStore_abs devices) ip \<and> i < length devices'"
  using device_rows.idx_hit [of devices ip]
  by (auto simp: DeviceMap_get_def DeviceStore_abs_def find_index_where DeviceStore_slot_def
      DeviceStore_findIndexByIp_def Let_def split: if_splits)

lemma DeviceMap_get_ip: "d_ip (DeviceMap_get (DeviceStore_abs devices) ip) = ip"
  using DeviceStore_abs_Some [of devices ip] by (auto simp: DeviceMap_get_def split: option.splits)

lemma DeviceStore_available_item_abs:
  "DeviceMap_available_item J ts item (DeviceStore_abs devices) =
     (DeviceStore_abs (fst (DeviceStore_available_item J ts item devices)),
      snd (DeviceStore_available_item J ts item devices))"
proof -
  have write_ip: "let (devices', i) = DeviceStore_slot devices ip;
          (d, r) = DeviceStore_readings J ts item (devices' ! i)
      in DeviceStore_abs (devices'[i := d]) = (DeviceStore_abs devices)(ip \<mapsto> d) \<and>
         DeviceStore_readings J ts item (DeviceMap_get (DeviceStore_abs devices) ip) = (d, r)" for ip
  proof -
    obtain devices' i where s: "DeviceStore_slot devices ip = (devices', i)" by fastforce
    obtain d r where dr: "DeviceStore_readings J ts item (devices' ! i) = (d, r)" by fastforce
    have "d_ip d = ip"
      using DeviceStore_readings_ip [of J ts item "devices' ! i"] dr DeviceStore_slot_read [OF s]
      by (simp add: DeviceMap_get_ip)
    with s dr DeviceStore_slot_read [OF s] DeviceStore_slot_write [OF s] show ?thesis by simp
  qed
  show ?thesis
  proof (cases "j_string J item ''ip'' ''''")
    case (Inr ip)
    with write_ip [of ip] show ?thesis
      by (auto simp: DeviceMap_available_item_def DeviceStore_available_item_def Let_def
          split: prod.splits)
  qed (simp add: DeviceMap_available_item_def DeviceStore_available_item_def)
qed



lemma DeviceStore_available_item_cases:
  obtains "fst (DeviceStore_available_item J ts item devices) = devices"
  | devices' i ip d r where "DeviceStore_slot devices ip = (devices', i)" "ip \<noteq> ''''"
      "DeviceStore_readings J ts item (devices' ! i) = (d, r)"
      "DeviceStore_available_item J ts item devices = (devices'[i := d], r)"
proof (cases "\<exists>ip. j_is_object J item \<and> j_string J item ''ip'' '''' = Inr ip \<and> ip \<noteq> ''''")
  case True
  then obtain ip where ip: "j_is_object J item" "j_string J item ''ip'' '''' = Inr ip" "ip \<noteq> ''''"
    by blast
  obtain devices' i where s: "DeviceStore_slot devices ip = (devices', i)" by fastforce
  obtain d r where dr: "DeviceStore_readings J ts item (devices' ! i) = (d, r)" by fastforce
  from ip s dr show ?thesis by (intro that(2)) (auto simp: DeviceStore_available_item_def)
next
  case False
  then show ?thesis
    by (intro that(1)) (auto simp: DeviceStore_available_item_def split: sum.splits)
qed

lemma DeviceStore_base_simps [simp]:
  "d_ip (DeviceStore_base devices ip) = ip"
  "d_history (DeviceStore_base devices ip) = DeviceStore_getHistory devices ip"
  by (auto simp: DeviceStore_base_def DeviceStore_getHistory_abs DeviceStore_abs_def
      dest: find_SomeD split: option.splits)

lemma DeviceStore_camera_item_base:
  "DeviceStore_camera_item J devices item = Inr (Some d) \<Longrightarrow>
     d_ip d \<noteq> '''' \<and> d_history d = DeviceStore_getHistory devices (d_ip d)"
  by (auto simp: DeviceStore_camera_item_def bindE_Inr_iff split: if_splits)

text \<open>The rows a packet without a throwing field makes.\<close>

definition DeviceStore_camera_row :: "'j json_ops \<Rightarrow> DeviceStore \<Rightarrow> 'j \<Rightarrow> DeviceIntegrated list" where
  "DeviceStore_camera_row J devices item =
     (case DeviceStore_camera_item J devices item of Inr (Some d) \<Rightarrow> [d] | _ \<Rightarrow> [])"

definition DeviceStore_camera_rows :: "'j json_ops \<Rightarrow> DeviceStore \<Rightarrow> 'j list \<Rightarrow> DeviceIntegrated list" where
  "DeviceStore_camera_rows J devices items = concat (map (DeviceStore_camera_row J devices) items)"

lemma DeviceStore_camera_items_Inr:
  "DeviceStore_camera_items J devices items acc =
     (if \<forall>item \<in> set items. returned (DeviceStore_camera_item J devices item)
      then Inr (acc @ DeviceStore_camera_rows J devices items)
      else DeviceStore_camera_items J devices items acc) \<and>
   ((\<exists>item \<in> set items. \<not> returned (DeviceStore_camera_item J devices item)) \<longrightarrow>
      \<not> returned (DeviceStore_camera_items J devices items acc))"
  by (induction items arbitrary: acc)
    (auto simp: DeviceStore_camera_rows_def DeviceStore_camera_row_def bindE_def
      split: sum.splits option.splits)


lemma DeviceStore_camera_items_returned:
  "DeviceStore_camera_items J devices items acc = Inr merged \<Longrightarrow>
     merged = acc @ DeviceStore_camera_rows J devices items"
  using DeviceStore_camera_items_Inr [of J devices items acc] by (auto split: if_splits)

lemma DeviceStore_camera_rows_base:
  "d \<in> set (DeviceStore_camera_rows J devices items) \<Longrightarrow>
     d_ip d \<noteq> '''' \<and> d_history d = DeviceStore_getHistory devices (d_ip d)"
  by (auto simp: DeviceStore_camera_rows_def DeviceStore_camera_row_def
      dest: DeviceStore_camera_item_base [OF sym] split: sum.splits option.splits)

lemma DeviceStore_keep_offline_abs:
  "DeviceStore_abs (DeviceStore_keep_offline olds merged) =
     DeviceMap_camera merged (DeviceStore_abs olds)"
proof (induction olds arbitrary: merged)
  case Nil
  then show ?case
    by (auto simp: DeviceMap_camera_def DeviceStore_abs_def fun_eq_iff split: option.splits)
next
  case (Cons old olds)
  have IH: "find (\<lambda>d. d_ip d = ip) (DeviceStore_keep_offline olds m) =
      (case find (\<lambda>d. d_ip d = ip) m of
         None \<Rightarrow> map_option (\<lambda>d. d\<lparr>d_isOnline := False\<rparr>) (find (\<lambda>d. d_ip d = ip) olds)
       | Some d \<Rightarrow> Some d)" for m ip
    using Cons [of m, THEN fun_cong, of ip] by (simp add: DeviceMap_camera_def DeviceStore_abs_def)
  show ?case
  proof
    fix ip
    show "DeviceStore_abs (DeviceStore_keep_offline (old # olds) merged) ip =
        DeviceMap_camera merged (DeviceStore_abs (old # olds)) ip"
      by (cases "ip = d_ip old"; cases "find (\<lambda>d. d_ip d = d_ip old) merged")
        (simp_all add: IH DeviceMap_camera_def DeviceStore_abs_def find_append split: option.split)
  qed
qed

lemma DeviceStore_keep_offline_distinct:
  "distinct (map d_ip (DeviceStore_keep_offline olds merged)) \<longleftrightarrow> distinct (map d_ip merged)"
  by (induction olds arbitrary: merged) (auto simp: find_None_iff split: option.splits)


lemma DeviceStore_keep_offline_set:
  "d \<in> set (DeviceStore_keep_offline olds merged) \<Longrightarrow>
     d \<in> set merged \<or> (\<exists>old \<in> set olds. d = old\<lparr>d_isOnline := False\<rparr>)"
proof (induction olds arbitrary: merged)
  case (Cons old olds)
  then show ?case by (fastforce split: option.splits)
qed simp

section \<open>The invariant and every sequence of operations\<close>

definition DeviceStore_inv :: "DeviceStore \<Rightarrow> bool" where
  "DeviceStore_inv devices \<longleftrightarrow>
     (\<forall>d \<in> set devices. d_ip d \<noteq> '''' \<and> length (d_history d) \<le> MAX_HISTORY)"

datatype DeviceStore_op =
    DS_updateFromCameraJson string
  | DS_updateFromAvailableJson int string
  | DS_clear

fun DeviceStore_step :: "'j json_ops \<Rightarrow> DeviceStore \<Rightarrow> DeviceStore_op \<Rightarrow> DeviceStore" where
  "DeviceStore_step J devices (DS_updateFromCameraJson json) =
     fst (DeviceStore_updateFromCameraJson J json devices)"
| "DeviceStore_step J devices (DS_updateFromAvailableJson ts json) =
     fst (DeviceStore_updateFromAvailableJson J ts json devices)"
| "DeviceStore_step J devices DS_clear = DeviceStore_clear devices"

lemma DeviceStore_inv_history:
  "DeviceStore_inv devices \<Longrightarrow> length (DeviceStore_getHistory devices ip) \<le> MAX_HISTORY"
  by (auto simp: DeviceStore_inv_def DeviceStore_getHistory_abs dest: DeviceStore_abs_Some
      split: option.splits)



lemma DeviceStore_camera_outcome:
  "case snd (DeviceStore_updateFromCameraJson J json devices) of
     Inl e \<Rightarrow> fst (DeviceStore_updateFromCameraJson J json devices) = devices
   | Inr None \<Rightarrow> fst (DeviceStore_updateFromCameraJson J json devices) = devices
   | Inr (Some l) \<Rightarrow> l = fst (DeviceStore_updateFromCameraJson J json devices) \<and>
       fst (DeviceStore_updateFromCameraJson J json devices) = DeviceStore_keep_offline devices
             (DeviceStore_camera_rows J devices (j_elems J (j_parse J json)))"
  by (auto simp: DeviceStore_updateFromCameraJson_def Let_def split: sum.splits
      dest: DeviceStore_camera_items_returned)

lemma DeviceStore_camera_inv [inv_intros]:
  assumes "DeviceStore_inv devices"
  shows "DeviceStore_inv (fst (DeviceStore_updateFromCameraJson J json devices))"
proof -
  let ?rows = "DeviceStore_camera_rows J devices (j_elems J (j_parse J json))"
  have "DeviceStore_inv (DeviceStore_keep_offline devices ?rows)"
    using assms DeviceStore_camera_rows_base [of _ J devices] DeviceStore_inv_history [OF assms]
    by (fastforce simp: DeviceStore_inv_def dest: DeviceStore_keep_offline_set)
  then show ?thesis
    using DeviceStore_camera_outcome [of J json devices] assms
    by (auto split: sum.splits option.splits)
qed

lemma DeviceStore_available_item_inv:
  assumes "DeviceStore_inv devices"
  shows "DeviceStore_inv (fst (DeviceStore_available_item J ts item devices))"
proof (rule DeviceStore_available_item_cases [of J ts item devices])
  assume "fst (DeviceStore_available_item J ts item devices) = devices"
  with assms show ?thesis by simp
next
  fix devices' i ip d r
  assume a: "DeviceStore_slot devices ip = (devices', i)" "ip \<noteq> ''''"
    "DeviceStore_readings J ts item (devices' ! i) = (d, r)"
    "DeviceStore_available_item J ts item devices = (devices'[i := d], r)"
  have "DeviceStore_inv devices'"
    using a(1,2) assms
    by (auto simp: DeviceStore_slot_def DeviceStore_inv_def Let_def split: if_splits)
  moreover from this have "length (d_history (devices' ! i)) \<le> MAX_HISTORY"
    using DeviceStore_slot_read [OF a(1)] by (metis DeviceStore_inv_def nth_mem)
  then have "d_ip d = ip \<and> length (d_history d) \<le> MAX_HISTORY"
    using a(3) DeviceStore_readings_ip [of J ts item "devices' ! i"]
      DeviceStore_readings_history [of "devices' ! i" J ts item] DeviceStore_slot_read [OF a(1)]
    by (simp add: DeviceMap_get_ip)
  ultimately show ?thesis
    using a(2,4) by (auto simp: DeviceStore_inv_def dest!: subsetD [OF set_update_subset_insert])
qed

lemma DeviceStore_available_items_inv:
  "DeviceStore_inv devices \<Longrightarrow> DeviceStore_inv (fst (DeviceStore_available_items J ts items devices))"
proof (induction items arbitrary: devices)
  case (Cons item items)
  then show ?case
    using DeviceStore_available_item_inv [of devices J ts item] by (auto split: prod.splits sum.splits)
qed simp

lemma DeviceStore_available_inv [inv_intros]:
  "DeviceStore_inv devices \<Longrightarrow>
     DeviceStore_inv (fst (DeviceStore_updateFromAvailableJson J ts json devices))"
  using DeviceStore_available_items_inv [of devices J ts "j_elems J (j_at J (j_parse J json) ''devices'')"]
  by (auto simp: DeviceStore_updateFromAvailableJson_def Let_def split: prod.splits sum.splits)

lemma DeviceStore_step_inv: "DeviceStore_inv devices \<Longrightarrow> DeviceStore_inv (DeviceStore_step J devices x)"
  by (cases x)
    (simp_all add: DeviceStore_camera_inv DeviceStore_available_inv DeviceStore_clear_def
      DeviceStore_inv_def [of "[]"])

interpretation device_store: op_system "[]" "DeviceStore_step J" DeviceStore_inv for J
  by unfold_locales (auto intro: DeviceStore_step_inv simp: DeviceStore_inv_def [of "[]"])

text \<open>AVAILABLE updates never make two records for one ip.\<close>

lemma DeviceStore_available_items_distinct:
  "distinct (map d_ip devices) \<Longrightarrow>
     distinct (map d_ip (fst (DeviceStore_available_items J ts items devices)))"
proof (induction items arbitrary: devices)
  case (Cons item items)
  have "distinct (map d_ip (fst (DeviceStore_available_item J ts item devices)))"
  proof (rule DeviceStore_available_item_cases [of J ts item devices])
    fix devices' i ip d r
    assume a: "DeviceStore_slot devices ip = (devices', i)"
      "DeviceStore_readings J ts item (devices' ! i) = (d, r)"
      "DeviceStore_available_item J ts item devices = (devices'[i := d], r)"
    have "distinct (map d_ip devices')"
      using a(1) Cons.prems device_rows.idx_miss [of devices ip]
      by (auto simp: DeviceStore_slot_def Let_def split: if_splits)
    moreover have "d_ip d = d_ip (devices' ! i)"
      using DeviceStore_readings_ip [of J ts item "devices' ! i"] a(2) by simp
    ultimately show ?thesis
      using a(3) by (simp add: map_list_update_same)
  qed (use Cons.prems in simp)
  then show ?case
    using Cons.IH by (auto split: prod.splits sum.splits)
qed simp



section \<open>Properties\<close>

text \<open>
  After any sequence of CAMERA packets, AVAILABLE packets and logouts, valid or
  malformed, every device has a non-empty ip and at most \<open>MAX_HISTORY\<close> = 60 history entries.
\<close>

theorem DeviceStore_histories_bounded:
  "\<forall>d \<in> set (foldl (DeviceStore_step J) [] ops). d_ip d \<noteq> '''' \<and> length (d_history d) \<le> 60"
  using device_store.run_inv [of J ops] by (simp add: DeviceStore_inv_def MAX_HISTORY_def)

theorem DeviceStore_histories_bounded_witness:
  "\<exists>d \<in> set (foldl (DeviceStore_step (jv_ops [(''t'', JObj [(''devices'', JArr [JObj [(''ip'', JStr ''a'')]])])]))
     [] [DS_updateFromAvailableJson 5 ''t'']). d_ip d \<noteq> '''' \<and> length (d_history d) \<le> 60"
proof -
  let ?J = "jv_ops [(''t'', JObj [(''devices'', JArr [JObj [(''ip'', JStr ''a'')]])])]"
  let ?ds = "foldl (DeviceStore_step ?J) [] [DS_updateFromAvailableJson 5 ''t'']"
  have "?ds \<noteq> []"
    by (simp add: DeviceStore_updateFromAvailableJson_def DeviceStore_available_item_def
        DeviceStore_slot_def DeviceStore_findIndexByIp_def DeviceStore_readings_def
        jv_ops_def jv_value_def)
  then have "hd ?ds \<in> set ?ds" by (rule hd_in_set)
  then show ?thesis
    using DeviceStore_histories_bounded [of ?J "[DS_updateFromAvailableJson 5 ''t'']"] by blast
qed


text \<open>
  A CAMERA packet never loses history: for every ip, \<open>getHistory\<close> gives the same
  entries after the update as before, on every path.
\<close>

theorem DeviceStore_camera_keeps_history:
  "DeviceStore_getHistory (fst (DeviceStore_updateFromCameraJson J json devices)) ip =
     DeviceStore_getHistory devices ip"
proof -
  let ?rows = "DeviceStore_camera_rows J devices (j_elems J (j_parse J json))"
  have "d_history d = DeviceStore_getHistory devices ip" if "DeviceStore_abs ?rows ip = Some d" for d
    using that DeviceStore_camera_rows_base [of d J devices] by (auto dest: DeviceStore_abs_Some)
  then have "DeviceStore_getHistory (DeviceStore_keep_offline devices ?rows) ip =
      DeviceStore_getHistory devices ip"
    by (auto simp: DeviceStore_getHistory_abs [of "DeviceStore_keep_offline _ _"]
        DeviceStore_keep_offline_abs DeviceMap_camera_def DeviceStore_getHistory_abs [of devices]
        split: option.split)
  then show ?thesis
    using DeviceStore_camera_outcome [of J json devices] by (auto split: sum.splits option.splits)
qed

text \<open>
  A complete AVAILABLE element for an ip makes the history of that ip the last 60 of
  the old entries followed by the new reading with the packet's time stamp, and changes the
  history of no other ip.
\<close>

theorem DeviceStore_available_appends_history:
  assumes "j_is_object J item" "j_string J item ''ip'' '''' = Inr ip" "ip \<noteq> ''''"
    and "j_double J item ''cpu'' 0 = Inr cpu" "j_double J item ''memory'' 0 = Inr memory"
    and "j_double J item ''temp'' 0 = Inr temp" "j_int J item ''uptime'' 0 = Inr uptime"
    and "length (DeviceStore_getHistory devices ip) \<le> 60"
  shows "DeviceStore_getHistory (fst (DeviceStore_available_item J ts item devices)) ip' =
     (if ip' = ip
      then last_n 60 (DeviceStore_getHistory devices ip @
             [\<lparr>s_timestamp = ts, s_cpu = cpu, s_memory = memory, s_temp = temp, s_uptime = uptime\<rparr>])
      else DeviceStore_getHistory devices ip')"
proof -
  have "d_history (DeviceMap_get (DeviceStore_abs devices) ip) = DeviceStore_getHistory devices ip"
    by (auto simp: DeviceMap_get_def DeviceStore_getHistory_abs split: option.splits)
  moreover have "DeviceStore_abs (fst (DeviceStore_available_item J ts item devices)) =
      fst (DeviceMap_available_item J ts item (DeviceStore_abs devices))"
    by (simp add: DeviceStore_available_item_abs)
  ultimately show ?thesis
    using assms device_history.push_last_n [of "DeviceStore_getHistory devices ip"]
    by (simp add: DeviceStore_getHistory_abs [of "fst _"] DeviceMap_available_item_def
        DeviceStore_readings_def DeviceStore_addSnapshot_def MAX_HISTORY_def
        DeviceStore_getHistory_abs [of devices ip', symmetric])
qed

theorem DeviceStore_available_appends_history_witness:
  "DeviceStore_getHistory (fst (DeviceStore_available_item (jv_ops []) 7
       (JObj [(''ip'', JStr ''10.0.0.1''), (''uptime'', JInt 3)]) [])) ''10.0.0.1'' =
     [\<lparr>s_timestamp = 7, s_cpu = 0, s_memory = 0, s_temp = 0, s_uptime = 3\<rparr>]"
  using DeviceStore_available_appends_history
    [of "jv_ops []" "JObj [(''ip'', JStr ''10.0.0.1''), (''uptime'', JInt 3)]" "''10.0.0.1''" 0 0 0 3
      "[]" 7 "''10.0.0.1''"]
  by (simp add: jv_value_def DeviceStore_getHistory_def DeviceStore_findIndexByIp_def)

text \<open>
  The ip is a key of the store as far as the packets allow: an AVAILABLE update never
  makes a second record for an ip, and after a CAMERA update that went through there is one
  record per ip exactly if the packet had one row per ip. (A camera with two streams has two
  rows with one ip in the packet, and then two records.)
\<close>

theorem DeviceStore_ip_key:
  "(distinct (map d_ip devices) \<longrightarrow>
      distinct (map d_ip (fst (DeviceStore_available_items J ts items devices)))) \<and>
   (case snd (DeviceStore_updateFromCameraJson J json devices) of
      Inr (Some l) \<Rightarrow> distinct (map d_ip l) \<longleftrightarrow>
        distinct (map d_ip (DeviceStore_camera_rows J devices (j_elems J (j_parse J json))))
    | _ \<Rightarrow> fst (DeviceStore_updateFromCameraJson J json devices) = devices)"
  using DeviceStore_available_items_distinct [of devices J ts items]
    DeviceStore_camera_outcome [of J json devices]
  by (auto simp: DeviceStore_keep_offline_distinct split: sum.splits option.splits)

theorem DeviceStore_ip_key_witness:
  "\<not> distinct (map d_ip (fst (DeviceStore_updateFromCameraJson
     (jv_ops [(''t'', JArr [JObj [(''ip'', JStr ''a'')], JObj [(''ip'', JStr ''a'')]])]) ''t'' []))) \<and>
   distinct (map d_ip (fst (DeviceStore_available_items (jv_ops []) 0 [JObj [(''ip'', JStr ''a'')]] [])))"
proof -
  let ?J = "jv_ops [(''t'', JArr [JObj [(''ip'', JStr ''a'')], JObj [(''ip'', JStr ''a'')]])]"
  have "map d_ip (fst (DeviceStore_updateFromCameraJson ?J ''t'' [])) = [''a'', ''a'']"
    by (simp add: DeviceStore_updateFromCameraJson_def DeviceStore_camera_item_def jv_value_def
        DeviceStore_base_def Let_def)
  moreover have "distinct (map d_ip (fst (DeviceStore_available_items (jv_ops []) 0
      [JObj [(''ip'', JStr ''a'')]] [])))"
    using DeviceStore_ip_key [of "[]" "jv_ops []" 0 "[JObj [(''ip'', JStr ''a'')]]"] by simp
  ultimately show ?thesis by simp
qed



end
