(* ===== verification/ServerStatus.thy ===== *)
theory ServerStatus
  imports DeviceStore
begin

text \<open>
  The server and device load figures of the dashboard. Src/Domain/ServerStatus.hpp and
  ServerStatus.cpp hold the store that parses AVAILABLE packets; Qt/Back/Services/ServerStatus.hpp
  and ServerStatus.cpp hold the model QML reads, which the store's callback updates. The clock
  reading of a store update is an argument.
\<close>

section \<open>The store\<close>

record DeviceStatusData =
  ds_ip :: string
  ds_cpu :: double
  ds_memory :: double
  ds_temp :: double
  ds_uptime :: int
  ds_pendingEvents :: int

record ServerStatusData =
  ss_cpu :: double
  ss_memory :: double
  ss_temp :: double
  ss_uptime :: int
  ss_available :: bool
  ss_timestamp :: int
  ss_devices :: "DeviceStatusData list"

definition ServerStatusData_default :: ServerStatusData where
  "ServerStatusData_default =
     \<lparr>ss_cpu = 0, ss_memory = 0, ss_temp = 0, ss_uptime = 0, ss_available = False,
      ss_timestamp = 0, ss_devices = []\<rparr>"

record ServerStatusStore =
  sst_status :: ServerStatusData
  sst_history :: "ServerStatusData list"

definition ServerStatusStore_init :: ServerStatusStore where
  "ServerStatusStore_init = \<lparr>sst_status = ServerStatusData_default, sst_history = []\<rparr>"

text \<open>The loop over the devices array reads every element, an object or not.\<close>

definition ServerStatusStore_device :: "'j json_ops \<Rightarrow> 'j \<Rightarrow> exn + DeviceStatusData" where
  "ServerStatusStore_device J item =
     bindE (j_string J item ''ip'' '''') (\<lambda>ip.
     bindE (j_double J item ''cpu'' 0) (\<lambda>cpu.
     bindE (j_double J item ''memory'' 0) (\<lambda>memory.
     bindE (j_double J item ''temp'' 0) (\<lambda>temp.
     bindE (j_int J item ''uptime'' 0) (\<lambda>uptime.
     bindE (j_int J item ''pending_events'' 0) (\<lambda>pendingEvents.
       Inr \<lparr>ds_ip = ip, ds_cpu = cpu, ds_memory = memory, ds_temp = temp, ds_uptime = uptime,
            ds_pendingEvents = pendingEvents\<rparr>))))))"

fun ServerStatusStore_devices ::
  "'j json_ops \<Rightarrow> 'j list \<Rightarrow> DeviceStatusData list \<Rightarrow> exn + DeviceStatusData list" where
  "ServerStatusStore_devices J [] acc = Inr acc"
| "ServerStatusStore_devices J (item # rest) acc =
     bindE (ServerStatusStore_device J item) (\<lambda>d. ServerStatusStore_devices J rest (acc @ [d]))"

text \<open>The part before the lock: the status a packet describes.\<close>

definition ServerStatusStore_parse :: "'j json_ops \<Rightarrow> int \<Rightarrow> 'j \<Rightarrow> exn + ServerStatusData" where
  "ServerStatusStore_parse J now parsed =
     bindE (if j_contains J parsed ''devices'' \<and> j_is_array J (j_at J parsed ''devices'')
            then ServerStatusStore_devices J (j_elems J (j_at J parsed ''devices'')) []
            else Inr []) (\<lambda>devices.
       if j_contains J parsed ''server'' \<and> j_is_object J (j_at J parsed ''server'')
       then (let srv = j_at J parsed ''server'' in
         bindE (j_double J srv ''cpu'' 0) (\<lambda>cpu.
         bindE (j_double J srv ''memory'' 0) (\<lambda>memory.
         bindE (j_double J srv ''temp'' 0) (\<lambda>temp.
         bindE (j_int J srv ''uptime'' 0) (\<lambda>uptime.
           Inr \<lparr>ss_cpu = cpu, ss_memory = memory, ss_temp = temp, ss_uptime = uptime,
                ss_available = True, ss_timestamp = now, ss_devices = devices\<rparr>)))))
       else Inr (ServerStatusData_default\<lparr>ss_devices := devices\<rparr>))"

definition ServerStatusStore_push :: "ServerStatusData list \<Rightarrow> ServerStatusData \<Rightarrow> ServerStatusData list" where
  "ServerStatusStore_push history s =
     (let history = history @ [s] in if 10 < length history then tl history else history)"

text \<open>The locked part.\<close>

definition ServerStatusStore_commit :: "ServerStatusData \<Rightarrow> ServerStatusStore \<Rightarrow> ServerStatusStore" where
  "ServerStatusStore_commit s st =
     (let st = st\<lparr>sst_status := s\<rparr>
      in if ss_available s then st\<lparr>sst_history := ServerStatusStore_push (sst_history st) s\<rparr> else st)"

definition ServerStatusStore_updateFromJson ::
  "'j json_ops \<Rightarrow> int \<Rightarrow> string \<Rightarrow> ServerStatusStore \<Rightarrow> ServerStatusStore \<times> (exn + ServerStatusData option)"
where
  "ServerStatusStore_updateFromJson J now json st =
     (let parsed = j_parse J json in
      if \<not> j_is_object J parsed then (st, Inr None)
      else case ServerStatusStore_parse J now parsed of
        Inl e \<Rightarrow> (st, Inl e)
      | Inr s \<Rightarrow> (ServerStatusStore_commit s st, Inr (Some s)))"

definition ServerStatusStore_snapshot :: "ServerStatusStore \<Rightarrow> ServerStatusData" where
  "ServerStatusStore_snapshot st = sst_status st"

definition ServerStatusStore_getHistory :: "ServerStatusStore \<Rightarrow> ServerStatusData list" where
  "ServerStatusStore_getHistory st = sst_history st"

definition ServerStatusStore_clear :: "ServerStatusStore \<Rightarrow> ServerStatusStore" where
  "ServerStatusStore_clear st = st\<lparr>sst_status := ServerStatusData_default, sst_history := []\<rparr>"

section \<open>The model\<close>

record DeviceStatus =
  dm_ip :: string
  dm_cpu :: double
  dm_memory :: double
  dm_temp :: double
  dm_uptime :: int
  dm_pendingEvents :: int

record ServerStatusRecord =
  sr_cpu :: double
  sr_memory :: double
  sr_temp :: double
  sr_uptime :: int
  sr_available :: bool
  sr_timestamp :: int

text \<open>The QVariantMap of a history entry.\<close>

record ServerHistoryItem =
  hi_timestamp :: int
  hi_cpu :: double
  hi_memory :: double
  hi_temp :: double
  hi_uptime :: int

record ServerStatusModel =
  sm_server :: ServerStatusRecord
  sm_devices :: "DeviceStatus list"
  sm_serverHistory :: "ServerHistoryItem list"

definition ServerStatusModel_init :: ServerStatusModel where
  "ServerStatusModel_init =
     \<lparr>sm_server = \<lparr>sr_cpu = 0, sr_memory = 0, sr_temp = 0, sr_uptime = 0, sr_available = False,
                  sr_timestamp = 0\<rparr>, sm_devices = [], sm_serverHistory = []\<rparr>"

definition ServerStatusModel_device :: "DeviceStatusData \<Rightarrow> DeviceStatus" where
  "ServerStatusModel_device d =
     \<lparr>dm_ip = ds_ip d, dm_cpu = ds_cpu d, dm_memory = ds_memory d, dm_temp = ds_temp d,
      dm_uptime = ds_uptime d, dm_pendingEvents = ds_pendingEvents d\<rparr>"

definition ServerStatusModel_push :: "ServerHistoryItem list \<Rightarrow> ServerHistoryItem \<Rightarrow> ServerHistoryItem list" where
  "ServerStatusModel_push h item =
     (let h = h @ [item] in if 60 < length h then tl h else h)"

definition ServerStatusModel_onStoreUpdated :: "ServerStatusData \<Rightarrow> ServerStatusModel \<Rightarrow> ServerStatusModel" where
  "ServerStatusModel_onStoreUpdated data m =
     (let m = m\<lparr>sm_devices := map ServerStatusModel_device (ss_devices data),
                sm_server := \<lparr>sr_cpu = ss_cpu data, sr_memory = ss_memory data,
                  sr_temp = ss_temp data, sr_uptime = ss_uptime data,
                  sr_available = ss_available data, sr_timestamp = ss_timestamp data\<rparr>\<rparr>;
          s = sm_server m
      in if sr_available s
         then m\<lparr>sm_serverHistory := ServerStatusModel_push (sm_serverHistory m)
                  \<lparr>hi_timestamp = sr_timestamp s, hi_cpu = sr_cpu s, hi_memory = sr_memory s,
                   hi_temp = sr_temp s, hi_uptime = sr_uptime s\<rparr>\<rparr>
         else m)"

definition ServerStatusModel_serverCpu :: "ServerStatusModel \<Rightarrow> double" where
  "ServerStatusModel_serverCpu m = sr_cpu (sm_server m)"

definition ServerStatusModel_serverMemory :: "ServerStatusModel \<Rightarrow> double" where
  "ServerStatusModel_serverMemory m = sr_memory (sm_server m)"

definition ServerStatusModel_serverTemp :: "ServerStatusModel \<Rightarrow> double" where
  "ServerStatusModel_serverTemp m = sr_temp (sm_server m)"

definition ServerStatusModel_hasServer :: "ServerStatusModel \<Rightarrow> bool" where
  "ServerStatusModel_hasServer m = sr_available (sm_server m)"

text \<open>The four loops over \<open>devices_\<close>: the field of the first device with the ip, or 0.\<close>

fun ServerStatusModel_field :: "(DeviceStatus \<Rightarrow> 'a::zero) \<Rightarrow> DeviceStatus list \<Rightarrow> string \<Rightarrow> 'a" where
  "ServerStatusModel_field f [] ip = 0"
| "ServerStatusModel_field f (d # ds) ip =
     (if dm_ip d = ip then f d else ServerStatusModel_field f ds ip)"

definition ServerStatusModel_deviceCpu :: "ServerStatusModel \<Rightarrow> string \<Rightarrow> double" where
  "ServerStatusModel_deviceCpu m ip = ServerStatusModel_field dm_cpu (sm_devices m) ip"

definition ServerStatusModel_deviceMemory :: "ServerStatusModel \<Rightarrow> string \<Rightarrow> double" where
  "ServerStatusModel_deviceMemory m ip = ServerStatusModel_field dm_memory (sm_devices m) ip"

definition ServerStatusModel_deviceTemp :: "ServerStatusModel \<Rightarrow> string \<Rightarrow> double" where
  "ServerStatusModel_deviceTemp m ip = ServerStatusModel_field dm_temp (sm_devices m) ip"

definition ServerStatusModel_deviceUptime :: "ServerStatusModel \<Rightarrow> string \<Rightarrow> int" where
  "ServerStatusModel_deviceUptime m ip = ServerStatusModel_field dm_uptime (sm_devices m) ip"

definition ServerStatusModel_getServerHistory :: "ServerStatusModel \<Rightarrow> ServerHistoryItem list" where
  "ServerStatusModel_getServerHistory m = sm_serverHistory m"

section \<open>The histories meet their contract\<close>

interpretation status_history: bounded_history ServerStatusStore_push 10
  by unfold_locales (auto simp: ServerStatusStore_push_def Let_def intro!: tl_append2)

interpretation server_graph: bounded_history ServerStatusModel_push 60
  by unfold_locales (auto simp: ServerStatusModel_push_def Let_def intro!: tl_append2)

section \<open>The invariant and every sequence of operations\<close>

text \<open>
  The history holds statuses of admin packets only, and when the current status is one, it is
  the newest entry.
\<close>

definition ServerStatusStore_inv :: "ServerStatusStore \<Rightarrow> bool" where
  "ServerStatusStore_inv st \<longleftrightarrow>
     length (sst_history st) \<le> 10 \<and> (\<forall>s \<in> set (sst_history st). ss_available s) \<and>
     (ss_available (sst_status st) \<longrightarrow>
        sst_history st \<noteq> [] \<and> last (sst_history st) = sst_status st)"

datatype ServerStatusStore_op = SS_updateFromJson int string | SS_clear

fun ServerStatusStore_step :: "'j json_ops \<Rightarrow> ServerStatusStore \<Rightarrow> ServerStatusStore_op \<Rightarrow> ServerStatusStore"
where
  "ServerStatusStore_step J st (SS_updateFromJson now json) =
     fst (ServerStatusStore_updateFromJson J now json st)"
| "ServerStatusStore_step J st SS_clear = ServerStatusStore_clear st"

lemma ServerStatusStore_commit_inv [inv_intros]:
  assumes "ServerStatusStore_inv st"
  shows "ServerStatusStore_inv (ServerStatusStore_commit s st)"
proof -
  have "set (ServerStatusStore_push h s) \<subseteq> insert s (set h)" for h
    by (cases h) (auto simp: ServerStatusStore_push_def Let_def)
  with assms status_history.push_bounded [of "sst_history st" s]
    status_history.push_newest [of "sst_history st" s]
  show ?thesis
    by (auto simp: ServerStatusStore_inv_def ServerStatusStore_commit_def Let_def)
qed

lemma ServerStatusStore_step_inv:
  "ServerStatusStore_inv st \<Longrightarrow> ServerStatusStore_inv (ServerStatusStore_step J st x)"
proof (induction st x rule: ServerStatusStore_step.induct)
  case (1 J st now json)
  then show ?case
    by (simp add: ServerStatusStore_updateFromJson_def Let_def ServerStatusStore_commit_inv
        split: sum.split)
next
  case (2 J st)
  show ?case
    by (simp add: ServerStatusStore_clear_def ServerStatusStore_inv_def ServerStatusData_default_def)
qed

interpretation server_status_store: op_system ServerStatusStore_init "ServerStatusStore_step J"
  ServerStatusStore_inv for J
proof
  show "ServerStatusStore_inv ServerStatusStore_init"
    by (simp add: ServerStatusStore_inv_def ServerStatusStore_init_def ServerStatusData_default_def)
qed (rule ServerStatusStore_step_inv)

section \<open>Laws of the parts\<close>

text \<open>The status a packet delivers does not depend on the store.\<close>

definition ServerStatus_delivered :: "'j json_ops \<Rightarrow> int \<times> string \<Rightarrow> ServerStatusData list" where
  "ServerStatus_delivered J p =
     (if j_is_object J (j_parse J (snd p))
      then (case ServerStatusStore_parse J (fst p) (j_parse J (snd p)) of Inl e \<Rightarrow> [] | Inr s \<Rightarrow> [s])
      else [])"

lemma ServerStatusStore_commit_history:
  "sst_history (ServerStatusStore_commit s st) =
     (if ss_available s then ServerStatusStore_push (sst_history st) s else sst_history st)"
  unfolding ServerStatusStore_commit_def Let_def by simp

lemma ServerStatusStore_update_history:
  "sst_history (fst (ServerStatusStore_updateFromJson J now json st)) =
     foldl ServerStatusStore_push (sst_history st)
       (filter ss_available (ServerStatus_delivered J (now, json)))"
  unfolding ServerStatusStore_updateFromJson_def ServerStatus_delivered_def Let_def fst_conv snd_conv
  by (cases "j_is_object J (j_parse J json)"; cases "ServerStatusStore_parse J now (j_parse J json)")
    (simp_all add: ServerStatusStore_commit_history)

lemma ServerStatusStore_devices_throws:
  "item \<in> set items \<Longrightarrow> \<not> returned (ServerStatusStore_device J item) \<Longrightarrow>
     \<not> returned (ServerStatusStore_devices J items acc)"
  by (induction items arbitrary: acc) (auto simp: bindE_def split: sum.splits)

lemma ServerStatusModel_field_find:
  "ServerStatusModel_field f ds ip = (case find (\<lambda>d. dm_ip d = ip) ds of None \<Rightarrow> 0 | Some d \<Rightarrow> f d)"
  by (induction ds) auto

lemma find_map_device:
  "find (\<lambda>d. dm_ip d = ip) (map ServerStatusModel_device ds) =
     map_option ServerStatusModel_device (find (\<lambda>d. ds_ip d = ip) ds)"
  by (induction ds) (auto simp: ServerStatusModel_device_def)

definition ServerStatusModel_item :: "ServerStatusData \<Rightarrow> ServerHistoryItem" where
  "ServerStatusModel_item s =
     \<lparr>hi_timestamp = ss_timestamp s, hi_cpu = ss_cpu s, hi_memory = ss_memory s,
      hi_temp = ss_temp s, hi_uptime = ss_uptime s\<rparr>"

lemma ServerStatusModel_update_history:
  "sm_serverHistory (ServerStatusModel_onStoreUpdated data m) =
     foldl ServerStatusModel_push (sm_serverHistory m)
       (map ServerStatusModel_item (filter ss_available [data]))"
  by (simp add: ServerStatusModel_onStoreUpdated_def ServerStatusModel_item_def Let_def)

section \<open>Properties\<close>

text \<open>
  After any sequence of AVAILABLE packets and clears the store's history has at most
  10 entries, all from packets with a server section, and if the current status came from such
  a packet it is the newest entry.
\<close>

theorem ServerStatusStore_history_invariant:
  "ServerStatusStore_inv (foldl (ServerStatusStore_step J) ServerStatusStore_init ops)"
  by (rule server_status_store.run_inv)

text \<open>
  The history is exactly the last 10 of the admin statuses the packets delivered, in
  order: nothing else enters it, and none of the last 10 is lost.
\<close>

theorem ServerStatusStore_history_is_last_10:
  "ServerStatusStore_getHistory
      (foldl (\<lambda>st (now, json). fst (ServerStatusStore_updateFromJson J now json st))
         ServerStatusStore_init packets) =
   last_n 10 (filter ss_available (concat (map (ServerStatus_delivered J) packets)))"
proof -
  have "sst_history (foldl (\<lambda>st (now, json). fst (ServerStatusStore_updateFromJson J now json st))
          ServerStatusStore_init packets) =
      foldl ServerStatusStore_push [] (filter ss_available (concat (map (ServerStatus_delivered J) packets)))"
    by (induction packets rule: rev_induct)
      (auto simp: ServerStatusStore_init_def ServerStatusStore_update_history)
  then show ?thesis
    by (simp add: ServerStatusStore_getHistory_def status_history.push_all)
qed

text \<open>
  After a store update the model shows that update and nothing older: the server
  figures and the admin flag are the packet's, and each per-device getter gives the field of
  the packet's first device with the ip, or 0 for an ip the packet does not have.
\<close>

theorem ServerStatusModel_mirrors_packet:
  "ServerStatusModel_serverCpu (ServerStatusModel_onStoreUpdated data m) = ss_cpu data \<and>
   ServerStatusModel_serverMemory (ServerStatusModel_onStoreUpdated data m) = ss_memory data \<and>
   ServerStatusModel_serverTemp (ServerStatusModel_onStoreUpdated data m) = ss_temp data \<and>
   ServerStatusModel_hasServer (ServerStatusModel_onStoreUpdated data m) = ss_available data \<and>
   (let look = (\<lambda>f. case find (\<lambda>d. ds_ip d = ip) (ss_devices data) of None \<Rightarrow> 0 | Some d \<Rightarrow> f d)
    in ServerStatusModel_deviceCpu (ServerStatusModel_onStoreUpdated data m) ip = look ds_cpu \<and>
       ServerStatusModel_deviceMemory (ServerStatusModel_onStoreUpdated data m) ip = look ds_memory \<and>
       ServerStatusModel_deviceTemp (ServerStatusModel_onStoreUpdated data m) ip = look ds_temp) \<and>
   ServerStatusModel_deviceUptime (ServerStatusModel_onStoreUpdated data m) ip =
     (case find (\<lambda>d. ds_ip d = ip) (ss_devices data) of None \<Rightarrow> 0 | Some d \<Rightarrow> ds_uptime d)"
  by (simp add: ServerStatusModel_onStoreUpdated_def ServerStatusModel_serverCpu_def
      ServerStatusModel_serverMemory_def ServerStatusModel_serverTemp_def
      ServerStatusModel_hasServer_def ServerStatusModel_deviceCpu_def
      ServerStatusModel_deviceMemory_def ServerStatusModel_deviceTemp_def
      ServerStatusModel_deviceUptime_def ServerStatusModel_field_find find_map_device
      ServerStatusModel_device_def Let_def split: option.split)

text \<open>
  The dashboard graph: after any sequence of updates, \<open>getServerHistory\<close> is the last
  60 of the admin statuses among them.
\<close>

theorem ServerStatusModel_graph_is_last_60:
  "ServerStatusModel_getServerHistory
      (foldl (\<lambda>m data. ServerStatusModel_onStoreUpdated data m) ServerStatusModel_init updates) =
   last_n 60 (map ServerStatusModel_item (filter ss_available updates))"
proof -
  have "sm_serverHistory
      (foldl (\<lambda>m data. ServerStatusModel_onStoreUpdated data m) ServerStatusModel_init updates) =
    foldl ServerStatusModel_push [] (map ServerStatusModel_item (filter ss_available updates))"
    by (induction updates rule: rev_induct)
      (simp_all add: ServerStatusModel_init_def ServerStatusModel_update_history)
  then show ?thesis
    by (simp add: ServerStatusModel_getServerHistory_def server_graph.push_all)
qed

text \<open>
  One AVAILABLE packet goes to two stores that do not agree on what they accept. If the
  library throws on reading a member of a value that is not an object (type_error 306, its
  documented behaviour), an element of the devices array that is not an object makes the
  ServerStatusStore throw and keep its state, while the DeviceStore skips that element.
\<close>

theorem ServerStatusStore_throws_on_non_object_device:
  fixes J :: "'j json_ops"
  assumes law: "\<And>v k. \<not> j_is_object J v \<Longrightarrow> \<not> returned (j_string J v k '''')"
    and "j_is_object J (j_parse J json)" "j_contains J (j_parse J json) ''devices''"
    and "j_is_array J (j_at J (j_parse J json) ''devices'')"
    and "item \<in> set (j_elems J (j_at J (j_parse J json) ''devices''))" "\<not> j_is_object J item"
  shows "\<not> returned (snd (ServerStatusStore_updateFromJson J now json st)) \<and>
     fst (ServerStatusStore_updateFromJson J now json st) = st \<and>
     DeviceStore_available_item J now item devices = (devices, Inr ())"
proof -
  have "\<not> returned (ServerStatusStore_device J item)"
    using law [OF assms(6), of "''ip''"]
    by (auto simp: ServerStatusStore_device_def returned_def split: sum.splits)
  then have "\<not> returned (ServerStatusStore_devices J (j_elems J (j_at J (j_parse J json) ''devices'')) [])"
    using assms(5) by (rule ServerStatusStore_devices_throws [rotated])
  then obtain e where "ServerStatusStore_parse J now (j_parse J json) = Inl e"
    using assms(3,4) by (auto simp: ServerStatusStore_parse_def returned_def split: sum.splits)
  with assms(2,6) show ?thesis
    by (simp add: ServerStatusStore_updateFromJson_def DeviceStore_available_item_def)
qed

theorem ServerStatusStore_throws_on_non_object_device_witness:
  "\<not> returned (snd (ServerStatusStore_updateFromJson
      (jv_ops [(''t'', JObj [(''devices'', JArr [JInt 1])])]) 0 ''t'' ServerStatusStore_init)) \<and>
   DeviceStore_available_item (jv_ops [(''t'', JObj [(''devices'', JArr [JInt 1])])]) 0 (JInt 1) [] = ([], Inr ())"
proof -
  let ?J = "jv_ops [(''t'', JObj [(''devices'', JArr [JInt 1])])]"
  have law: "\<not> returned (j_string ?J v k '''')" if "\<not> j_is_object ?J v" for v k
    using that by (auto simp: jv_value_def split: option.splits)
  have "j_is_object ?J (j_parse ?J ''t'')" "j_contains ?J (j_parse ?J ''t'') ''devices''"
    "j_is_array ?J (j_at ?J (j_parse ?J ''t'') ''devices'')"
    "JInt 1 \<in> set (j_elems ?J (j_at ?J (j_parse ?J ''t'') ''devices''))" "\<not> j_is_object ?J (JInt 1)"
    by (simp_all add: jv_ops_def)
  from ServerStatusStore_throws_on_non_object_device [OF law this, of 0 ServerStatusStore_init "[]"]
  show ?thesis by blast
qed

end
