(* ===== verification/Binary64.thy ===== *)
theory Binary64
  imports Prelude
begin

text \<open>
  The arithmetic of \<open>qreal\<close> (IEEE 754 binary64, round to nearest, ties to even) on rational
  numbers: the result of an operation is the exact rational result, rounded by \<open>fl\<close>. Gradual
  underflow is included; overflow to infinity is not (the program computes with numbers
  between 0 and 4).
\<close>

text \<open>The number of binary digits of \<open>p\<close>.\<close>

function bit_count :: "int \<Rightarrow> int" where
  "bit_count p = (if p \<le> 0 then 0 else bit_count (p div 2) + 1)"
  by pat_completeness auto
termination
  by (relation "measure nat") auto

declare bit_count.simps [simp del]

text \<open>The greatest \<open>k\<close> with \<open>2 ^ k \<le> p / q\<close>, for positive \<open>p\<close> and \<open>q\<close>.\<close>

definition ratio_log2 :: "int \<Rightarrow> int \<Rightarrow> int" where
  "ratio_log2 p q =
     (let k = bit_count p - bit_count q
      in if (if 0 \<le> k then q * 2 ^ nat k \<le> p else q \<le> p * 2 ^ nat (- k)) then k else k - 1)"

text \<open>\<open>p / q\<close> rounded to an integer, ties to even.\<close>

definition round_even :: "int \<Rightarrow> int \<Rightarrow> int" where
  "round_even p q =
     (let f = p div q; r = p mod q in
      if 2 * r < q then f
      else if q < 2 * r then f + 1
      else if even f then f else f + 1)"

definition fl :: "double \<Rightarrow> double" where
  "fl x =
     (let (p, q) = quotient_of x in
      if p = 0 then 0
      else
        let e = max (ratio_log2 \<bar>p\<bar> q - 52) (- 1074);
            n = (if 0 \<le> e then round_even \<bar>p\<bar> (q * 2 ^ nat e)
                 else round_even (\<bar>p\<bar> * 2 ^ nat (- e)) q);
            v = (if 0 \<le> e then of_int (n * 2 ^ nat e) else of_int n / of_int (2 ^ nat (- e)))
        in if p < 0 then - v else v)"

text \<open>Every step of a computation is rounded.\<close>

definition fl_add :: "double \<Rightarrow> double \<Rightarrow> double" where "fl_add x y = fl (x + y)"
definition fl_sub :: "double \<Rightarrow> double \<Rightarrow> double" where "fl_sub x y = fl (x - y)"
definition fl_mult :: "double \<Rightarrow> double \<Rightarrow> double" where "fl_mult x y = fl (x * y)"
definition fl_div :: "double \<Rightarrow> double \<Rightarrow> double" where "fl_div x y = fl (x / y)"

lemmas fl_defs = fl_add_def fl_sub_def fl_mult_def fl_div_def

lemma fl_zero [simp]: "fl 0 = 0"
  by (simp add: fl_def)

text \<open>Sanity checks on known values: 1, a third and a tenth.\<close>

lemma fl_one: "fl 1 = 1"
  by code_simp

lemma fl_third: "fl (1 / 3) = 6004799503160661 / 18014398509481984"
  by code_simp

lemma fl_tenth: "fl (1 / 10) = 3602879701896397 / 36028797018963968"
  by code_simp

end
