(* ===== verification/CameraModel.thy ===== *)
theory CameraModel
  imports CameraStore Binary64 "HOL-Library.Multiset"
begin

text \<open>
  Qt/Back/Models/CameraModel.hpp and Qt/Back/Models/CameraModel.cpp, with the auto-split table
  of Src/Config.hpp: the list model behind the camera grid. A row is a card with a permanent
  slot id; a card can be split into tiles of one camera, which form a group, and merged again.

  The calls that notify the views (signals and the begin/end calls of QAbstractItemModel) are
  recorded in the state in the order they are made. The order in which a QHash is iterated
  and the auto-split table of the deployment are arguments.
\<close>

section \<open>Data\<close>

datatype SplitDirection = SplitNone | SplitCol | SplitRow | SplitGrid

fun SplitDirection_int :: "SplitDirection \<Rightarrow> int" where
  "SplitDirection_int SplitNone = 0"
| "SplitDirection_int SplitCol = 1"
| "SplitDirection_int SplitRow = 2"
| "SplitDirection_int SplitGrid = 3"

record QRectF =
  rect_x :: double
  rect_y :: double
  rect_w :: double
  rect_h :: double

abbreviation QRectF_full :: QRectF where
  "QRectF_full \<equiv> \<lparr>rect_x = 0, rect_y = 0, rect_w = 1, rect_h = 1\<rparr>"

record CameraEntry =
  ce_slotId :: int
  ce_title :: string
  ce_cameraId :: string
  ce_isOnline :: bool
  ce_cameraType :: string
  ce_splitCount :: int
  ce_splitDirection :: SplitDirection
  ce_cropRect :: QRectF
  ce_splitGroupId :: int
  ce_splitIndex :: int
  ce_description :: string
  ce_width :: int
  ce_height :: int
  ce_deviceInfo :: DeviceInfo

definition CameraEntry_default :: CameraEntry where
  "CameraEntry_default =
     \<lparr>ce_slotId = -1, ce_title = '''', ce_cameraId = '''', ce_isOnline = False,
      ce_cameraType = '''', ce_splitCount = 1, ce_splitDirection = SplitNone,
      ce_cropRect = QRectF_full, ce_splitGroupId = -1, ce_splitIndex = 0,
      ce_description = '''', ce_width = 320, ce_height = 240, ce_deviceInfo = DeviceInfo_default\<rparr>"

datatype CameraRole =
    SlotIdRole | TitleRole | IsOnlineRole | DescriptionRole | CardWidthRole | CardHeightRole
  | CameraTypeRole | SplitCountRole | CropRectRole | SplitDirectionRole | CameraIdRole

record SlotInfo =
  si_slotId :: int
  si_cameraId :: string

datatype CameraModel_event =
    CM_beginRemoveRows int int
  | CM_endRemoveRows
  | CM_beginInsertRows int int
  | CM_endInsertRows
  | CM_beginResetModel
  | CM_endResetModel int  \<comment> \<open>with the row count a view reads then\<close>
  | CM_dataChanged int "CameraRole list"  \<comment> \<open>row and roles, no role for all of them\<close>
  | CM_slotsUpdated "SlotInfo list"
  | CM_cameraIdsUpdated "string list"
  | CM_cameraOnline string
  | CM_sensorDataUpdated string

record CameraModel =
  cm_cameras :: "CameraEntry list"
  cm_autoSplit :: "int set"  \<comment> \<open>\<open>autoSplitAppliedSlotIds_\<close>\<close>
  cm_nextSlotId :: int
  cm_nextSplitGroupId :: int
  cm_events :: "CameraModel_event list"

definition CameraModel_init :: CameraModel where
  "CameraModel_init =
     \<lparr>cm_cameras = [], cm_autoSplit = {}, cm_nextSlotId = 0, cm_nextSplitGroupId = 1, cm_events = []\<rparr>"

definition CameraModel_emit :: "CameraModel_event \<Rightarrow> CameraModel \<Rightarrow> CameraModel" where
  "CameraModel_emit ev m = m\<lparr>cm_events := cm_events m @ [ev]\<rparr>"

section \<open>The auto-split table\<close>

fun Config_autoSplitTileCountForCameraId :: "(string \<times> int) list \<Rightarrow> string \<Rightarrow> int" where
  "Config_autoSplitTileCountForCameraId [] cameraId = 1"
| "Config_autoSplitTileCountForCameraId ((cid, tileCount) # rest) cameraId =
     (if cid = cameraId then tileCount else Config_autoSplitTileCountForCameraId rest cameraId)"

definition AUTO_SPLIT_CAMERA_ID_TILE_MAP :: "(string \<times> int) list" where
  "AUTO_SPLIT_CAMERA_ID_TILE_MAP = []"

section \<open>The access of the views\<close>

datatype CameraValue = CV_int int | CV_string string | CV_bool bool | CV_rect QRectF | CV_invalid

definition CameraModel_rowCount :: "CameraModel \<Rightarrow> bool \<Rightarrow> int" where
  "CameraModel_rowCount m parent_valid = (if parent_valid then 0 else int (length (cm_cameras m)))"

definition CameraEntry_data :: "CameraEntry \<Rightarrow> CameraRole \<Rightarrow> CameraValue" where
  "CameraEntry_data cam role =
     (case role of
        SlotIdRole \<Rightarrow> CV_int (ce_slotId cam)
      | TitleRole \<Rightarrow> CV_string (ce_title cam)
      | IsOnlineRole \<Rightarrow> CV_bool (ce_isOnline cam)
      | DescriptionRole \<Rightarrow> CV_string (ce_description cam)
      | CardWidthRole \<Rightarrow> CV_int (ce_width cam)
      | CardHeightRole \<Rightarrow> CV_int (ce_height cam)
      | CameraTypeRole \<Rightarrow> CV_string (ce_cameraType cam)
      | SplitCountRole \<Rightarrow> CV_int (ce_splitCount cam)
      | CropRectRole \<Rightarrow> CV_rect (ce_cropRect cam)
      | SplitDirectionRole \<Rightarrow> CV_int (SplitDirection_int (ce_splitDirection cam))
      | CameraIdRole \<Rightarrow> CV_string (ce_cameraId cam))"

text \<open>
  A QModelIndex is \<open>None\<close> when it is not valid, and else its row, which is not negative. A role
  that is none of the model's is \<open>None\<close>.
\<close>

definition CameraModel_data :: "CameraModel \<Rightarrow> nat option \<Rightarrow> CameraRole option \<Rightarrow> CameraValue" where
  "CameraModel_data m index role =
     (case index of
        None \<Rightarrow> CV_invalid
      | Some row \<Rightarrow>
          if length (cm_cameras m) \<le> row then CV_invalid
          else (case role of
                  None \<Rightarrow> CV_invalid
                | Some r \<Rightarrow> CameraEntry_data (cm_cameras m ! row) r))"

definition CameraModel_roleNames :: "(CameraRole \<times> string) list" where
  "CameraModel_roleNames =
     [(SlotIdRole, ''slotId''), (TitleRole, ''title''), (IsOnlineRole, ''isOnline''),
      (DescriptionRole, ''description''), (CardWidthRole, ''cardWidth''),
      (CardHeightRole, ''cardHeight''), (CameraTypeRole, ''cameraType''),
      (SplitCountRole, ''splitCount''), (CropRectRole, ''cropRect''),
      (SplitDirectionRole, ''splitDirection''), (CameraIdRole, ''cameraId'')]"

text \<open>The value comes as a QVariant; its conversions are arguments.\<close>

definition CameraModel_setData ::
  "('v \<Rightarrow> string) \<Rightarrow> ('v \<Rightarrow> bool) \<Rightarrow> nat option \<Rightarrow> 'v \<Rightarrow> CameraRole option \<Rightarrow>
     CameraModel \<Rightarrow> CameraModel \<times> bool"
where
  "CameraModel_setData toString toBool index v role m =
     (case index of
        None \<Rightarrow> (m, False)
      | Some row \<Rightarrow>
          if length (cm_cameras m) \<le> row then (m, False)
          else
            let cam = cm_cameras m ! row;
                store = (\<lambda>cam' r. (CameraModel_emit (CM_dataChanged (int row) [r])
                                     (m\<lparr>cm_cameras := (cm_cameras m)[row := cam']\<rparr>), True))
            in (case role of
                  Some TitleRole \<Rightarrow> store (cam\<lparr>ce_title := toString v\<rparr>) TitleRole
                | Some IsOnlineRole \<Rightarrow> store (cam\<lparr>ce_isOnline := toBool v\<rparr>) IsOnlineRole
                | Some CameraTypeRole \<Rightarrow> store (cam\<lparr>ce_cameraType := toString v\<rparr>) CameraTypeRole
                | _ \<Rightarrow> (m, False)))"

section \<open>Signals of the grid\<close>

text \<open>
  \<open>_emitSlotsUpdated\<close>: the slots in row order, and the camera ids without empty ones and
  without repetitions, in the order of their first row.
\<close>

fun CameraModel_cids :: "CameraEntry list \<Rightarrow> string set \<Rightarrow> string list" where
  "CameraModel_cids [] seenCids = []"
| "CameraModel_cids (cam # cams) seenCids =
     (if ce_cameraId cam \<noteq> '''' \<and> ce_cameraId cam \<notin> seenCids
      then ce_cameraId cam # CameraModel_cids cams (insert (ce_cameraId cam) seenCids)
      else CameraModel_cids cams seenCids)"

definition CameraModel_slotInfo :: "CameraEntry \<Rightarrow> SlotInfo" where
  "CameraModel_slotInfo cam = \<lparr>si_slotId = ce_slotId cam, si_cameraId = ce_cameraId cam\<rparr>"

definition CameraModel_emitSlotsUpdated :: "CameraModel \<Rightarrow> CameraModel" where
  "CameraModel_emitSlotsUpdated m =
     CameraModel_emit (CM_cameraIdsUpdated (CameraModel_cids (cm_cameras m) {}))
       (CameraModel_emit (CM_slotsUpdated (map CameraModel_slotInfo (cm_cameras m))) m)"

section \<open>Swapping and switching cards\<close>

text \<open>Everything of \<open>b\<close> except the slot id and the sensor data, on the card \<open>a\<close>.\<close>

definition CameraEntry_take_content :: "CameraEntry \<Rightarrow> CameraEntry \<Rightarrow> CameraEntry" where
  "CameraEntry_take_content a b =
     a\<lparr>ce_title := ce_title b, ce_cameraId := ce_cameraId b, ce_isOnline := ce_isOnline b,
       ce_cameraType := ce_cameraType b, ce_description := ce_description b,
       ce_splitCount := ce_splitCount b, ce_splitDirection := ce_splitDirection b,
       ce_cropRect := ce_cropRect b, ce_splitGroupId := ce_splitGroupId b,
       ce_splitIndex := ce_splitIndex b, ce_width := ce_width b, ce_height := ce_height b\<rparr>"

definition CameraModel_swap_roles :: "CameraRole list" where
  "CameraModel_swap_roles =
     [TitleRole, IsOnlineRole, DescriptionRole, CameraTypeRole, CropRectRole, SplitCountRole,
      SplitDirectionRole, CameraIdRole]"

definition CameraModel_swapSlots :: "int \<Rightarrow> int \<Rightarrow> CameraModel \<Rightarrow> CameraModel" where
  "CameraModel_swapSlots indexA indexB m =
     (let n = int (length (cm_cameras m)) in
      if indexA < 0 \<or> indexB < 0 \<or> n \<le> indexA \<or> n \<le> indexB \<or> indexA = indexB then m
      else
        let a = cm_cameras m ! nat indexA;
            b = cm_cameras m ! nat indexB;
            m1 = m\<lparr>cm_cameras := (cm_cameras m)[nat indexA := CameraEntry_take_content a b,
                                                nat indexB := CameraEntry_take_content b a]\<rparr>
        in CameraModel_emit (CM_dataChanged indexB CameraModel_swap_roles)
             (CameraModel_emit (CM_dataChanged indexA CameraModel_swap_roles)
                (CameraModel_emitSlotsUpdated m1)))"

definition CameraModel_setOnline :: "int \<Rightarrow> bool \<Rightarrow> CameraModel \<Rightarrow> CameraModel" where
  "CameraModel_setOnline index online m =
     (if index < 0 \<or> int (length (cm_cameras m)) \<le> index then m
      else CameraModel_emit (CM_dataChanged index [IsOnlineRole])
             (m\<lparr>cm_cameras := (cm_cameras m)
                  [nat index := (cm_cameras m ! nat index)\<lparr>ce_isOnline := online\<rparr>]\<rparr>))"

section \<open>The part of the frame a tile shows\<close>

definition computeCropRect :: "int \<Rightarrow> int \<Rightarrow> SplitDirection \<Rightarrow> QRectF" where
  "computeCropRect tileIndex tileCount direction =
     (if direction = SplitCol then
        if tileCount < 2 \<or> 4 < tileCount then QRectF_full
        else
          let w = fl_div 1 (of_int tileCount);
              x = fl_mult (of_int tileIndex) w;
              end_x = (if tileIndex = tileCount - 1 then 1 else fl_add x w)
          in \<lparr>rect_x = x, rect_y = 0, rect_w = fl_sub end_x x, rect_h = 1\<rparr>
      else if direction = SplitRow then
        if tileCount < 2 \<or> 3 < tileCount then QRectF_full
        else
          let h = fl_div 1 (of_int tileCount);
              y = fl_mult (of_int tileIndex) h;
              end_y = (if tileIndex = tileCount - 1 then 1 else fl_add y h)
          in \<lparr>rect_x = 0, rect_y = y, rect_w = 1, rect_h = fl_sub end_y y\<rparr>
      else if direction = SplitGrid \<and> tileCount = 4 then
        let col = fl_mult (of_int (tileIndex mod 2)) (1 / 2);
            row = fl_mult (of_int (tileIndex div 2)) (1 / 2)
        in \<lparr>rect_x = col, rect_y = row, rect_w = 1 / 2, rect_h = 1 / 2\<rparr>
      else QRectF_full)"

section \<open>Splitting a card\<close>

definition CameraModel_indexBySlotId :: "CameraModel \<Rightarrow> int \<Rightarrow> int" where
  "CameraModel_indexBySlotId m slotId = index_where (\<lambda>e. ce_slotId e = slotId) (cm_cameras m)"

definition CameraModel_validCount :: "int \<Rightarrow> SplitDirection \<Rightarrow> bool" where
  "CameraModel_validCount tileCount direction =
     (case direction of
        SplitCol \<Rightarrow> 2 \<le> tileCount \<and> tileCount \<le> 4
      | SplitRow \<Rightarrow> tileCount = 2 \<or> tileCount = 3
      | SplitGrid \<Rightarrow> tileCount = 4
      | SplitNone \<Rightarrow> False)"

text \<open>The tile \<open>i\<close> of a split of the card \<open>original\<close>.\<close>

definition CameraModel_tile ::
  "CameraEntry \<Rightarrow> int \<Rightarrow> SplitDirection \<Rightarrow> int \<Rightarrow> int \<Rightarrow> nat \<Rightarrow> CameraEntry"
where
  "CameraModel_tile original tileCount direction splitGroupId slotId i =
     CameraEntry_default\<lparr>
       ce_slotId := slotId,
       ce_cameraId := ce_cameraId original,
       ce_title := ce_title original @ '' ['' @ show_nat (i + 1) @ ''/'' @ show_nat (nat tileCount) @ '']'',
       ce_isOnline := ce_isOnline original,
       ce_cameraType := ce_cameraType original,
       ce_splitCount := tileCount,
       ce_splitDirection := direction,
       ce_splitGroupId := splitGroupId,
       ce_splitIndex := int i,
       ce_cropRect := computeCropRect (int i) tileCount direction,
       ce_description := ce_description original\<rparr>"

text \<open>The loop that inserts the tiles, from tile \<open>i\<close> on.\<close>

function CameraModel_insert_tiles ::
  "CameraEntry \<Rightarrow> int \<Rightarrow> SplitDirection \<Rightarrow> int \<Rightarrow> bool \<Rightarrow> nat \<Rightarrow> nat \<Rightarrow> CameraModel \<Rightarrow> CameraModel"
where
  "CameraModel_insert_tiles original tileCount direction splitGroupId autoSplit rowIndex i m =
     (if int i < tileCount then
        let e = CameraModel_tile original tileCount direction splitGroupId (cm_nextSlotId m) i
        in CameraModel_insert_tiles original tileCount direction splitGroupId autoSplit rowIndex (i + 1)
             (m\<lparr>cm_nextSlotId := cm_nextSlotId m + 1,
                cm_cameras := list_insert_at (rowIndex + i) e (cm_cameras m),
                cm_autoSplit := (if autoSplit then insert (ce_slotId e) (cm_autoSplit m)
                                 else cm_autoSplit m)\<rparr>)
      else m)"
  by pat_completeness auto
termination
  by (relation "measure (\<lambda>(original, n, d, g, a, r, i, m). nat (n - int i))") auto

declare CameraModel_insert_tiles.simps [simp del]

definition CameraModel_splitSlotAtIndex ::
  "int \<Rightarrow> int \<Rightarrow> SplitDirection \<Rightarrow> bool \<Rightarrow> CameraModel \<Rightarrow> CameraModel \<times> bool"
where
  "CameraModel_splitSlotAtIndex rowIndex tileCount direction autoSplit m =
     (if rowIndex < 0 \<or> int (length (cm_cameras m)) \<le> rowIndex then (m, False)
      else if \<not> CameraModel_validCount tileCount direction then (m, False)
      else if ce_splitCount (cm_cameras m ! nat rowIndex) \<noteq> 1 then (m, False)
      else if \<not> ce_isOnline (cm_cameras m ! nat rowIndex) then (m, False)
      else
        let original = cm_cameras m ! nat rowIndex;
            splitGroupId = cm_nextSplitGroupId m;
            m1 = m\<lparr>cm_nextSplitGroupId := splitGroupId + 1\<rparr>;
            m2 = CameraModel_emit (CM_beginRemoveRows rowIndex rowIndex) m1;
            m3 = m2\<lparr>cm_cameras := list_remove_at (nat rowIndex) (cm_cameras m2)\<rparr>;
            m4 = CameraModel_emit CM_endRemoveRows m3;
            m5 = CameraModel_emit (CM_beginInsertRows rowIndex (rowIndex + tileCount - 1)) m4;
            m6 = CameraModel_insert_tiles original tileCount direction splitGroupId autoSplit
                   (nat rowIndex) 0 m5;
            m7 = CameraModel_emit CM_endInsertRows m6;
            m8 = m7\<lparr>cm_autoSplit := cm_autoSplit m7 - {ce_slotId original}\<rparr>
        in (CameraModel_emitSlotsUpdated m8, True))"

definition CameraModel_splitSlot :: "int \<Rightarrow> int \<Rightarrow> int \<Rightarrow> CameraModel \<Rightarrow> CameraModel" where
  "CameraModel_splitSlot rowIndex tileCount direction m =
     (let dir = (if direction = 2 then SplitGrid else if direction = 1 then SplitRow else SplitCol)
      in fst (CameraModel_splitSlotAtIndex rowIndex tileCount dir False m))"

section \<open>Merging a group\<close>

text \<open>The rows of a group, in ascending order.\<close>

fun CameraModel_groupIndices :: "int \<Rightarrow> nat \<Rightarrow> CameraEntry list \<Rightarrow> nat list" where
  "CameraModel_groupIndices g i [] = []"
| "CameraModel_groupIndices g i (cam # cams) =
     (if ce_splitGroupId cam = g then i # CameraModel_groupIndices g (i + 1) cams
      else CameraModel_groupIndices g (i + 1) cams)"

text \<open>The rows are removed from the last one down; the argument lists them in that order.\<close>

fun CameraModel_remove_rows :: "nat list \<Rightarrow> CameraModel \<Rightarrow> CameraModel" where
  "CameraModel_remove_rows [] m = m"
| "CameraModel_remove_rows (pos # rest) m =
     (let m1 = CameraModel_emit (CM_beginRemoveRows (int pos) (int pos)) m;
          m2 = m1\<lparr>cm_autoSplit := cm_autoSplit m1 - {ce_slotId (cm_cameras m1 ! pos)}\<rparr>;
          m3 = m2\<lparr>cm_cameras := list_remove_at pos (cm_cameras m2)\<rparr>
      in CameraModel_remove_rows rest (CameraModel_emit CM_endRemoveRows m3))"

definition CameraModel_mergedTitle :: "string \<Rightarrow> string" where
  "CameraModel_mergedTitle title =
     (let marker = str_last_index title '' [''
      in if 0 < marker \<and> ends_with title '']'' then take (nat marker) title else title)"

definition CameraModel_merged :: "CameraEntry \<Rightarrow> CameraEntry" where
  "CameraModel_merged e =
     e\<lparr>ce_title := CameraModel_mergedTitle (ce_title e), ce_splitCount := 1,
       ce_cropRect := QRectF_full, ce_splitGroupId := -1, ce_splitIndex := 0,
       ce_splitDirection := SplitCol\<rparr>"

definition CameraModel_mergeGroupByIndex :: "int \<Rightarrow> CameraModel \<Rightarrow> CameraModel \<times> bool" where
  "CameraModel_mergeGroupByIndex anyTileRowIndex m =
     (if anyTileRowIndex < 0 \<or> int (length (cm_cameras m)) \<le> anyTileRowIndex then (m, False)
      else
        let target = cm_cameras m ! nat anyTileRowIndex in
        if ce_splitCount target \<le> 1 \<or> ce_splitGroupId target < 0 then (m, False)
        else
          let groupIndices = CameraModel_groupIndices (ce_splitGroupId target) 0 (cm_cameras m) in
          if length groupIndices < 2 then (m, False)
          else
            let firstPos = hd groupIndices;
                m1 = CameraModel_remove_rows (rev (tl groupIndices)) m;
                m2 = m1\<lparr>cm_cameras :=
                      (cm_cameras m1)[firstPos := CameraModel_merged (cm_cameras m1 ! firstPos)]\<rparr>;
                m3 = CameraModel_emit (CM_dataChanged (int firstPos) []) m2
            in (CameraModel_emitSlotsUpdated m3, True))"

text \<open>The second argument of \<open>mergeSlots\<close> is not used.\<close>

definition CameraModel_mergeSlots :: "int \<Rightarrow> int \<Rightarrow> CameraModel \<Rightarrow> CameraModel" where
  "CameraModel_mergeSlots anyTileRowIndex tileCount m =
     fst (CameraModel_mergeGroupByIndex anyTileRowIndex m)"

section \<open>Automatic splits\<close>

definition CameraModel_autoSplitForIndex ::
  "(string \<times> int) list \<Rightarrow> int \<Rightarrow> CameraModel \<Rightarrow> CameraModel \<times> bool"
where
  "CameraModel_autoSplitForIndex tbl rowIndex m =
     (if rowIndex < 0 \<or> int (length (cm_cameras m)) \<le> rowIndex then (m, False)
      else
        let entry = cm_cameras m ! nat rowIndex in
        if \<not> ce_isOnline entry \<or> ce_splitCount entry \<noteq> 1 then (m, False)
        else if ce_slotId entry \<in> cm_autoSplit m then (m, False)
        else CameraModel_splitSlotAtIndex rowIndex
               (Config_autoSplitTileCountForCameraId tbl (ce_cameraId entry)) SplitCol True m)"

definition CameraModel_applyAutoSplitForSlot ::
  "(string \<times> int) list \<Rightarrow> int \<Rightarrow> CameraModel \<Rightarrow> CameraModel \<times> bool"
where
  "CameraModel_applyAutoSplitForSlot tbl slotId m =
     CameraModel_autoSplitForIndex tbl (CameraModel_indexBySlotId m slotId) m"

section \<open>Queries by slot\<close>

definition CameraModel_isSlotSplit :: "CameraModel \<Rightarrow> int \<Rightarrow> bool" where
  "CameraModel_isSlotSplit m slotId =
     (let idx = CameraModel_indexBySlotId m slotId
      in 0 \<le> idx \<and> 1 < ce_splitCount (cm_cameras m ! nat idx))"

definition CameraModel_rowForSlot :: "CameraModel \<Rightarrow> int \<Rightarrow> int" where
  "CameraModel_rowForSlot m slotId = CameraModel_indexBySlotId m slotId"

definition CameraModel_hasSlot :: "CameraModel \<Rightarrow> int \<Rightarrow> bool" where
  "CameraModel_hasSlot m slotId \<longleftrightarrow> 0 \<le> CameraModel_indexBySlotId m slotId"

definition CameraModel_titleForSlot :: "CameraModel \<Rightarrow> int \<Rightarrow> string" where
  "CameraModel_titleForSlot m slotId =
     (let idx = CameraModel_indexBySlotId m slotId
      in if idx < 0 then '''' else ce_title (cm_cameras m ! nat idx))"

definition CameraModel_isOnlineForSlot :: "CameraModel \<Rightarrow> int \<Rightarrow> bool" where
  "CameraModel_isOnlineForSlot m slotId =
     (let idx = CameraModel_indexBySlotId m slotId
      in if idx < 0 then False else ce_isOnline (cm_cameras m ! nat idx))"

definition CameraModel_cropRectForSlot :: "CameraModel \<Rightarrow> int \<Rightarrow> QRectF" where
  "CameraModel_cropRectForSlot m slotId =
     (let idx = CameraModel_indexBySlotId m slotId
      in if idx < 0 then QRectF_full else ce_cropRect (cm_cameras m ! nat idx))"

definition CameraModel_cameraIdForSlot :: "CameraModel \<Rightarrow> int \<Rightarrow> string" where
  "CameraModel_cameraIdForSlot m slotId =
     (let idx = CameraModel_indexBySlotId m slotId
      in if idx < 0 then '''' else ce_cameraId (cm_cameras m ! nat idx))"

definition CameraModel_clearAll :: "CameraModel \<Rightarrow> CameraModel" where
  "CameraModel_clearAll m =
     (let m1 = CameraModel_emit CM_beginResetModel m;
          m2 = m1\<lparr>cm_cameras := [], cm_autoSplit := {}, cm_nextSlotId := 0, cm_nextSplitGroupId := 1\<rparr>
      in CameraModel_emitSlotsUpdated (CameraModel_emit (CM_endResetModel (CameraModel_rowCount m2 False)) m2))"

section \<open>A new snapshot of the camera store\<close>

text \<open>
  \<open>snapshotByCid\<close>: the hash from camera ids to the last camera with that id, and its keys, each
  once.
\<close>

definition CameraModel_byCid :: "CameraData list \<Rightarrow> string \<rightharpoonup> CameraData" where
  "CameraModel_byCid snapshot =
     foldl (\<lambda>h cam. if cd_cameraId cam = '''' then h else h(cd_cameraId cam \<mapsto> cam)) Map.empty snapshot"

definition CameraModel_keys :: "CameraData list \<Rightarrow> string list" where
  "CameraModel_keys snapshot = remdups (filter (\<lambda>cid. cid \<noteq> '''') (map cd_cameraId snapshot))"

text \<open>One existing row: the new row, whether it came back online, and the roles that changed.\<close>

definition CameraModel_refresh ::
  "(string \<rightharpoonup> CameraData) \<Rightarrow> CameraEntry \<Rightarrow> CameraEntry \<times> bool \<times> CameraRole list"
where
  "CameraModel_refresh byCid entry =
     (case byCid (ce_cameraId entry) of
        None \<Rightarrow>
          if ce_isOnline entry then (entry\<lparr>ce_isOnline := False\<rparr>, False, [IsOnlineRole])
          else (entry, False, [])
      | Some snap \<Rightarrow>
          let (e1, back, r1) =
                (if ce_isOnline entry \<noteq> cd_isOnline snap
                 then (entry\<lparr>ce_isOnline := cd_isOnline snap\<rparr>,
                       \<not> ce_isOnline entry \<and> cd_isOnline snap, [IsOnlineRole])
                 else (entry, False, []));
              (e2, r2) =
                (if ce_cameraType e1 \<noteq> cd_cameraType snap
                 then (e1\<lparr>ce_cameraType := cd_cameraType snap\<rparr>, r1 @ [CameraTypeRole]) else (e1, r1));
              (e3, r3) =
                (if ce_splitCount e2 = 1 \<and> ce_title e2 \<noteq> cd_title snap
                 then (e2\<lparr>ce_title := cd_title snap\<rparr>, r2 @ [TitleRole]) else (e2, r2))
          in (e3, back, r3))"

text \<open>The loop over the rows from row \<open>i\<close> on.\<close>

function CameraModel_refresh_rows :: "(string \<rightharpoonup> CameraData) \<Rightarrow> nat \<Rightarrow> CameraModel \<Rightarrow> CameraModel" where
  "CameraModel_refresh_rows byCid i m =
     (if i < length (cm_cameras m) then
        let (entry, back, changedRoles) = CameraModel_refresh byCid (cm_cameras m ! i);
            m1 = m\<lparr>cm_cameras := (cm_cameras m)[i := entry]\<rparr>;
            m2 = (if back then CameraModel_emit (CM_cameraOnline (ce_cameraId entry)) m1 else m1);
            m3 = (if changedRoles \<noteq> [] then CameraModel_emit (CM_dataChanged (int i) changedRoles) m2
                  else m2)
        in CameraModel_refresh_rows byCid (i + 1) m3
      else m)"
  by pat_completeness auto
termination
  by (relation "measure (\<lambda>(h, i, m). length (cm_cameras m) - i)")
    (auto simp: CameraModel_emit_def split: if_splits)

declare CameraModel_refresh_rows.simps [simp del]

definition CameraModel_newEntry :: "int \<Rightarrow> string \<Rightarrow> CameraData \<Rightarrow> CameraEntry" where
  "CameraModel_newEntry slotId cid snap =
     CameraEntry_default\<lparr>ce_slotId := slotId, ce_title := cd_title snap, ce_cameraId := cid,
       ce_isOnline := cd_isOnline snap, ce_cameraType := cd_cameraType snap, ce_splitCount := 1,
       ce_cropRect := QRectF_full, ce_splitGroupId := -1, ce_splitIndex := 0\<rparr>"

text \<open>The loop over the hash: the next slot id and the rows to insert.\<close>

fun CameraModel_newEntries ::
  "(string \<rightharpoonup> CameraData) \<Rightarrow> string set \<Rightarrow> string list \<Rightarrow> int \<Rightarrow> CameraEntry list"
where
  "CameraModel_newEntries byCid represented [] nextSlotId = []"
| "CameraModel_newEntries byCid represented (cid # cids) nextSlotId =
     (if cid \<in> represented then CameraModel_newEntries byCid represented cids nextSlotId
      else CameraModel_newEntry nextSlotId cid (the (byCid cid)) #
             CameraModel_newEntries byCid represented cids (nextSlotId + 1))"

definition CameraModel_insertNew :: "CameraEntry list \<Rightarrow> CameraModel \<Rightarrow> CameraModel" where
  "CameraModel_insertNew newEntries m =
     (let m1 = m\<lparr>cm_nextSlotId := cm_nextSlotId m + int (length newEntries)\<rparr> in
      if newEntries = [] then m1
      else
        let n = int (length (cm_cameras m1));
            m2 = CameraModel_emit (CM_beginInsertRows n (n + int (length newEntries) - 1)) m1
        in CameraModel_emit CM_endInsertRows (m2\<lparr>cm_cameras := cm_cameras m2 @ newEntries\<rparr>))"

definition CameraModel_onStoreUpdated ::
  "(string list \<Rightarrow> string list) \<Rightarrow> (string \<times> int) list \<Rightarrow> CameraData list \<Rightarrow> CameraModel \<Rightarrow> CameraModel"
where
  "CameraModel_onStoreUpdated order tbl snapshot m =
     (let byCid = CameraModel_byCid snapshot;
          represented = {cid \<in> set (map ce_cameraId (cm_cameras m)). byCid cid \<noteq> None};
          m1 = CameraModel_refresh_rows byCid 0 m;
          newEntries = CameraModel_newEntries byCid represented (order (CameraModel_keys snapshot))
                         (cm_nextSlotId m1);
          m2 = CameraModel_emitSlotsUpdated (CameraModel_insertNew newEntries m1);
          candidateSlots = map ce_slotId
            (filter (\<lambda>e. ce_splitCount e = 1 \<and> ce_isOnline e) (cm_cameras m2))
      in foldl (\<lambda>m slotId. fst (CameraModel_applyAutoSplitForSlot tbl slotId m)) m2 candidateSlots)"

section \<open>Sensor readings\<close>

definition CameraModel_updateSensorInfo ::
  "string \<Rightarrow> double \<Rightarrow> double \<Rightarrow> double \<Rightarrow> double \<Rightarrow> CameraModel \<Rightarrow> CameraModel"
where
  "CameraModel_updateSensorInfo cameraId h l ti tm m =
     (let m1 = m\<lparr>cm_cameras := map (\<lambda>e. if ce_cameraId e = cameraId
                  then e\<lparr>ce_deviceInfo := (ce_deviceInfo e)\<lparr>hum := h, light := l, tilt := ti, tmp := tm\<rparr>\<rparr>
                  else e) (cm_cameras m)\<rparr>
      in if \<exists>e \<in> set (cm_cameras m). ce_cameraId e = cameraId
         then CameraModel_emit (CM_sensorDataUpdated cameraId) m1 else m1)"

text \<open>The JSON object of the readings, empty for an unknown camera.\<close>

definition CameraModel_sensorInfoForCameraId :: "CameraModel \<Rightarrow> string \<Rightarrow> (string \<times> double) list" where
  "CameraModel_sensorInfoForCameraId m cameraId =
     (case find (\<lambda>e. ce_cameraId e = cameraId) (cm_cameras m) of
        None \<Rightarrow> []
      | Some e \<Rightarrow> [(''hum'', hum (ce_deviceInfo e)), (''light'', light (ce_deviceInfo e)),
                   (''tilt'', tilt (ce_deviceInfo e)), (''tmp'', tmp (ce_deviceInfo e))])"

section \<open>What the operations leave alone\<close>

lemma CameraModel_emit_simps [simp]:
  "cm_cameras (CameraModel_emit ev m) = cm_cameras m"
  "cm_autoSplit (CameraModel_emit ev m) = cm_autoSplit m"
  "cm_nextSlotId (CameraModel_emit ev m) = cm_nextSlotId m"
  "cm_nextSplitGroupId (CameraModel_emit ev m) = cm_nextSplitGroupId m"
  "cm_events (CameraModel_emit ev m) = cm_events m @ [ev]"
  by (simp_all add: CameraModel_emit_def)

lemma CameraModel_emitSlotsUpdated_simps [simp]:
  "cm_cameras (CameraModel_emitSlotsUpdated m) = cm_cameras m"
  "cm_autoSplit (CameraModel_emitSlotsUpdated m) = cm_autoSplit m"
  "cm_nextSlotId (CameraModel_emitSlotsUpdated m) = cm_nextSlotId m"
  "cm_nextSplitGroupId (CameraModel_emitSlotsUpdated m) = cm_nextSplitGroupId m"
  "cm_events (CameraModel_emitSlotsUpdated m) =
     cm_events m @ [CM_slotsUpdated (map CameraModel_slotInfo (cm_cameras m)),
                    CM_cameraIdsUpdated (CameraModel_cids (cm_cameras m) {})]"
  by (simp_all add: CameraModel_emitSlotsUpdated_def)

section \<open>The loops in closed form\<close>

definition CameraModel_tiles ::
  "CameraEntry \<Rightarrow> int \<Rightarrow> SplitDirection \<Rightarrow> int \<Rightarrow> int \<Rightarrow> nat \<Rightarrow> CameraEntry list"
where
  "CameraModel_tiles original tileCount direction g base i =
     map (\<lambda>k. CameraModel_tile original tileCount direction g (base + int k - int i) k) [i..<nat tileCount]"

lemma CameraModel_tiles_step:
  "int i < tileCount \<Longrightarrow>
     CameraModel_tiles original tileCount direction g base i =
       CameraModel_tile original tileCount direction g base i #
         CameraModel_tiles original tileCount direction g (base + 1) (i + 1)"
  by (simp add: CameraModel_tiles_def upt_conv_Cons algebra_simps)

lemma CameraModel_insert_tiles_closed:
  assumes "int i \<le> tileCount" "cm_cameras m = us @ vs" "length us = rowIndex + i"
  shows "CameraModel_insert_tiles original tileCount direction g autoSplit rowIndex i m =
     m\<lparr>cm_nextSlotId := cm_nextSlotId m + tileCount - int i,
       cm_cameras := us @ CameraModel_tiles original tileCount direction g (cm_nextSlotId m) i @ vs,
       cm_autoSplit := (if autoSplit
          then cm_autoSplit m \<union> {cm_nextSlotId m..<cm_nextSlotId m + tileCount - int i}
          else cm_autoSplit m)\<rparr>"
  using assms
proof (induction original tileCount direction g autoSplit rowIndex i m arbitrary: us
    rule: CameraModel_insert_tiles.induct)
  case (1 original tileCount direction g autoSplit rowIndex i m)
  show ?case
  proof (cases "int i < tileCount")
    case False
    with 1 have "int i = tileCount" by simp
    with 1 show ?thesis
      by (subst CameraModel_insert_tiles.simps) (simp add: CameraModel_tiles_def)
  next
    case True
    let ?e = "CameraModel_tile original tileCount direction g (cm_nextSlotId m) i"
    let ?m = "m\<lparr>cm_nextSlotId := cm_nextSlotId m + 1,
                cm_cameras := list_insert_at (rowIndex + i) ?e (cm_cameras m),
                cm_autoSplit := (if autoSplit then insert (ce_slotId ?e) (cm_autoSplit m)
                                 else cm_autoSplit m)\<rparr>"
    have cams: "cm_cameras ?m = (us @ [?e]) @ vs"
      using 1 list_insert_at_append [of us ?e vs] by simp
    have slot: "ce_slotId ?e = cm_nextSlotId m"
      by (simp add: CameraModel_tile_def)
    have ids: "insert n A \<union> {n + 1..<n + 1 + tileCount - int (i + 1)} = A \<union> {n..<n + tileCount - int i}"
      for n :: int and A
      using True by auto
    have IH: "CameraModel_insert_tiles original tileCount direction g autoSplit rowIndex (i + 1) ?m =
      ?m\<lparr>cm_nextSlotId := cm_nextSlotId ?m + tileCount - int (i + 1),
       cm_cameras := (us @ [?e]) @ CameraModel_tiles original tileCount direction g (cm_nextSlotId ?m) (i + 1) @ vs,
       cm_autoSplit := (if autoSplit
          then cm_autoSplit ?m \<union> {cm_nextSlotId ?m..<cm_nextSlotId ?m + tileCount - int (i + 1)}
          else cm_autoSplit ?m)\<rparr>"
      using 1(1) [OF True refl, of "us @ [?e]"] True 1(4) cams by simp
    have "CameraModel_insert_tiles original tileCount direction g autoSplit rowIndex i m =
       CameraModel_insert_tiles original tileCount direction g autoSplit rowIndex (i + 1) ?m"
      using True by (subst CameraModel_insert_tiles.simps) (simp only: Let_def if_True)
    also note IH
    finally show ?thesis
      using slot ids [of "cm_nextSlotId m" "cm_autoSplit m"]
      by (cases autoSplit) (simp_all add: CameraModel_tiles_step [OF True])
  qed
qed

text \<open>A card that can be split, at its place among the rows.\<close>

lemma CameraModel_splitSlotAtIndex_closed:
  assumes "cm_cameras m = us @ orig # vs" "rowIndex = int (length us)"
    and "CameraModel_validCount n d" "ce_splitCount orig = 1" "ce_isOnline orig"
  shows "CameraModel_splitSlotAtIndex rowIndex n d autoSplit m =
    (let cams = us @ CameraModel_tiles orig n d (cm_nextSplitGroupId m) (cm_nextSlotId m) 0 @ vs in
     (\<lparr>cm_cameras = cams,
       cm_autoSplit = (if autoSplit then cm_autoSplit m \<union> {cm_nextSlotId m..<cm_nextSlotId m + n}
                       else cm_autoSplit m) - {ce_slotId orig},
       cm_nextSlotId = cm_nextSlotId m + n,
       cm_nextSplitGroupId = cm_nextSplitGroupId m + 1,
       cm_events = cm_events m @
         [CM_beginRemoveRows rowIndex rowIndex, CM_endRemoveRows,
          CM_beginInsertRows rowIndex (rowIndex + n - 1), CM_endInsertRows,
          CM_slotsUpdated (map CameraModel_slotInfo cams), CM_cameraIdsUpdated (CameraModel_cids cams {})]\<rparr>,
      True))"
proof -
  have nth: "cm_cameras m ! nat rowIndex = orig" and rng: "0 \<le> rowIndex" "rowIndex < int (length (cm_cameras m))"
    and row: "nat rowIndex = length us" and n: "0 \<le> n"
    using assms by (auto simp: CameraModel_validCount_def split: SplitDirection.splits)
  have closed: "CameraModel_insert_tiles orig n d g autoSplit (length us) 0 m' =
      m'\<lparr>cm_nextSlotId := cm_nextSlotId m' + n,
       cm_cameras := us @ CameraModel_tiles orig n d g (cm_nextSlotId m') 0 @ vs,
       cm_autoSplit := (if autoSplit then cm_autoSplit m' \<union> {cm_nextSlotId m'..<cm_nextSlotId m' + n}
          else cm_autoSplit m')\<rparr>"
    if "cm_cameras m' = us @ vs" for m' g
    using CameraModel_insert_tiles_closed [of 0 n m' us vs "length us" orig d g autoSplit] n that by simp
  show ?thesis
    unfolding CameraModel_splitSlotAtIndex_def nth row
    using rng assms
    by (simp add: Let_def closed list_remove_at_append)
qed

text \<open>Every other call of the split leaves the model as it is and returns false.\<close>

lemma CameraModel_splitSlotAtIndex_refused:
  assumes "\<not> (\<exists>us orig vs. cm_cameras m = us @ orig # vs \<and> rowIndex = int (length us) \<and>
     CameraModel_validCount n d \<and> ce_splitCount orig = 1 \<and> ce_isOnline orig)"
  shows "CameraModel_splitSlotAtIndex rowIndex n d autoSplit m = (m, False)"
proof -
  have "cm_cameras m = take (nat rowIndex) (cm_cameras m) @ cm_cameras m ! nat rowIndex #
      drop (Suc (nat rowIndex)) (cm_cameras m)" and "rowIndex = int (length (take (nat rowIndex) (cm_cameras m)))"
    if "0 \<le> rowIndex" "rowIndex < int (length (cm_cameras m))"
    using that by (auto simp: id_take_nth_drop)
  with assms show ?thesis
    unfolding CameraModel_splitSlotAtIndex_def by (smt (verit) not_less)
qed

lemma CameraModel_splitSlotAtIndex_cases [consumes 0, case_names refused split]:
  obtains "CameraModel_splitSlotAtIndex rowIndex n d autoSplit m = (m, False)"
  | us orig vs where "cm_cameras m = us @ orig # vs" "rowIndex = int (length us)"
      "CameraModel_validCount n d" "ce_splitCount orig = 1" "ce_isOnline orig"
  using CameraModel_splitSlotAtIndex_refused by metis

text \<open>The removal of the rows of a group among \<open>vs\<close>, which start at row \<open>k\<close>.\<close>

definition CameraModel_removal_events :: "nat list \<Rightarrow> CameraModel_event list" where
  "CameraModel_removal_events ks =
     concat (map (\<lambda>k. [CM_beginRemoveRows (int k) (int k), CM_endRemoveRows]) ks)"

lemma CameraModel_remove_rows_append:
  "CameraModel_remove_rows (ks @ ls) m = CameraModel_remove_rows ls (CameraModel_remove_rows ks m)"
  by (induction ks arbitrary: m) (simp_all add: Let_def)

lemma CameraModel_remove_rows_closed:
  assumes "cm_cameras m = us @ vs" "length us = k"
  shows "CameraModel_remove_rows (rev (CameraModel_groupIndices g k vs)) m =
     m\<lparr>cm_cameras := us @ filter (\<lambda>e. ce_splitGroupId e \<noteq> g) vs,
       cm_autoSplit := cm_autoSplit m - ce_slotId ` {e \<in> set vs. ce_splitGroupId e = g},
       cm_events := cm_events m @
         CameraModel_removal_events (rev (CameraModel_groupIndices g k vs))\<rparr>"
  using assms
proof (induction vs arbitrary: us k)
  case Nil
  then show ?case by (simp add: CameraModel_removal_events_def)
next
  case (Cons c vs)
  have IH: "CameraModel_remove_rows (rev (CameraModel_groupIndices g (k + 1) vs)) m =
     m\<lparr>cm_cameras := (us @ [c]) @ filter (\<lambda>e. ce_splitGroupId e \<noteq> g) vs,
       cm_autoSplit := cm_autoSplit m - ce_slotId ` {e \<in> set vs. ce_splitGroupId e = g},
       cm_events := cm_events m @
         CameraModel_removal_events (rev (CameraModel_groupIndices g (k + 1) vs))\<rparr>"
    using Cons.IH [of "us @ [c]" "k + 1"] Cons.prems by simp
  show ?case
  proof (cases "ce_splitGroupId c = g")
    case False
    then have "{e \<in> set (c # vs). ce_splitGroupId e = g} = {e \<in> set vs. ce_splitGroupId e = g}"
      by auto
    with False IH show ?thesis by simp
  next
    case True
    then have "{e \<in> set (c # vs). ce_splitGroupId e = g} = insert c {e \<in> set vs. ce_splitGroupId e = g}"
      by auto
    then have slots: "cm_autoSplit m - ce_slotId ` {e \<in> set (c # vs). ce_splitGroupId e = g} =
        cm_autoSplit m - ce_slotId ` {e \<in> set vs. ce_splitGroupId e = g} - {ce_slotId c}"
      by (simp only: image_insert) (rule Diff_insert)
    have "CameraModel_remove_rows (rev (CameraModel_groupIndices g k (c # vs))) m =
        CameraModel_remove_rows [k]
          (CameraModel_remove_rows (rev (CameraModel_groupIndices g (k + 1) vs)) m)"
      using True by (simp add: CameraModel_remove_rows_append)
    also note IH
    finally show ?thesis
      using True Cons.prems
      by (simp only: slots)
        (auto simp: Let_def CameraModel_emit_def CameraModel_removal_events_def
          list_remove_at_append nth_append)
  qed
qed

lemma CameraModel_groupIndices_append:
  "CameraModel_groupIndices g k (us @ vs) =
     CameraModel_groupIndices g k us @ CameraModel_groupIndices g (k + length us) vs"
  by (induction us arbitrary: k) auto

lemma CameraModel_groupIndices_none:
  "\<forall>e \<in> set us. ce_splitGroupId e \<noteq> g \<Longrightarrow> CameraModel_groupIndices g k us = []"
  by (induction us arbitrary: k) auto

lemma CameraModel_groupIndices_length:
  "length (CameraModel_groupIndices g k us) = length (filter (\<lambda>e. ce_splitGroupId e = g) us)"
  by (induction us arbitrary: k) auto

lemma CameraModel_groupIndices_range:
  "i \<in> set (CameraModel_groupIndices g k us) \<Longrightarrow> k \<le> i \<and> i < k + length us"
  by (induction us arbitrary: k) (force split: if_splits)+

lemma CameraModel_mergeGroupByIndex_closed:
  assumes "cm_cameras m = us @ first # vs" "\<forall>e \<in> set us. ce_splitGroupId e \<noteq> g"
    and "ce_splitGroupId first = g" "0 \<le> g" "\<exists>e \<in> set vs. ce_splitGroupId e = g"
    and "0 \<le> row" "row < int (length (cm_cameras m))"
    and "ce_splitGroupId (cm_cameras m ! nat row) = g" "1 < ce_splitCount (cm_cameras m ! nat row)"
  shows "CameraModel_mergeGroupByIndex row m =
    (let cams = us @ CameraModel_merged first # filter (\<lambda>e. ce_splitGroupId e \<noteq> g) vs in
     (m\<lparr>cm_cameras := cams,
        cm_autoSplit := cm_autoSplit m - ce_slotId ` {e \<in> set vs. ce_splitGroupId e = g},
        cm_events := cm_events m @
          CameraModel_removal_events (rev (CameraModel_groupIndices g (length us + 1) vs)) @
          [CM_dataChanged (int (length us)) [], CM_slotsUpdated (map CameraModel_slotInfo cams),
           CM_cameraIdsUpdated (CameraModel_cids cams {})]\<rparr>, True))"
proof -
  have idx: "CameraModel_groupIndices g 0 (cm_cameras m) =
      length us # CameraModel_groupIndices g (length us + 1) vs"
    using assms(1-3) by (simp add: CameraModel_groupIndices_append CameraModel_groupIndices_none)
  have "CameraModel_groupIndices g (length us + 1) vs \<noteq> []"
    using assms(5) CameraModel_groupIndices_length [of g "length us + 1" vs]
    by (metis (mono_tags, lifting) filter_empty_conv length_0_conv)
  then have two: "\<not> length (CameraModel_groupIndices g 0 (cm_cameras m)) < 2"
    by (simp add: idx Suc_le_eq numeral_2_eq_2)
  have removed: "CameraModel_remove_rows (rev (CameraModel_groupIndices g (length us + 1) vs)) m =
     m\<lparr>cm_cameras := (us @ [first]) @ filter (\<lambda>e. ce_splitGroupId e \<noteq> g) vs,
       cm_autoSplit := cm_autoSplit m - ce_slotId ` {e \<in> set vs. ce_splitGroupId e = g},
       cm_events := cm_events m @
         CameraModel_removal_events (rev (CameraModel_groupIndices g (length us + 1) vs))\<rparr>"
    using CameraModel_remove_rows_closed [of m "us @ [first]" vs "length us + 1" g] assms(1) by simp
  show ?thesis
    unfolding CameraModel_mergeGroupByIndex_def
    using assms(4,6-9) two removed
    by (simp add: Let_def idx CameraModel_emitSlotsUpdated_def CameraModel_emit_def
        del: append_assoc) simp
qed

lemma CameraModel_mergeGroupByIndex_cases [consumes 0, case_names refused merged]:
  obtains "CameraModel_mergeGroupByIndex row m = (m, False)"
  | us first vs g where "cm_cameras m = us @ first # vs" "\<forall>e \<in> set us. ce_splitGroupId e \<noteq> g"
      "ce_splitGroupId first = g" "0 \<le> g" "\<exists>e \<in> set vs. ce_splitGroupId e = g"
      "0 \<le> row" "row < int (length (cm_cameras m))"
      "ce_splitGroupId (cm_cameras m ! nat row) = g" "1 < ce_splitCount (cm_cameras m ! nat row)"
proof (cases "CameraModel_mergeGroupByIndex row m = (m, False)")
  case False
  let ?g = "ce_splitGroupId (cm_cameras m ! nat row)"
  let ?P = "\<lambda>e. ce_splitGroupId e = ?g"
  have row: "0 \<le> row" "row < int (length (cm_cameras m))"
    and split: "1 < ce_splitCount (cm_cameras m ! nat row)" "0 \<le> ?g"
    and two: "\<not> length (filter ?P (cm_cameras m)) < 2"
    using False
    by (auto simp: CameraModel_mergeGroupByIndex_def Let_def CameraModel_groupIndices_length
        split: if_splits)
  from row have "\<exists>e \<in> set (cm_cameras m). ?P e"
    by (intro bexI [of _ "cm_cameras m ! nat row"]) auto
  from split_list_first_prop [OF this] obtain us first vs where
    cams: "cm_cameras m = us @ first # vs" "?P first" "\<forall>e \<in> set us. \<not> ?P e" by blast
  with two have "filter ?P vs \<noteq> []" by auto
  then have "\<exists>e \<in> set vs. ?P e" by (simp add: filter_empty_conv)
  with that(2) [OF cams(1) _ cams(2)] cams row split show ?thesis by blast
qed (use that in blast)

text \<open>The update of the rows from a snapshot keeps their number and order.\<close>

definition CameraModel_refreshed :: "(string \<rightharpoonup> CameraData) \<Rightarrow> CameraEntry \<Rightarrow> CameraEntry" where
  "CameraModel_refreshed byCid e =
     e\<lparr>ce_isOnline := (case byCid (ce_cameraId e) of None \<Rightarrow> False | Some d \<Rightarrow> cd_isOnline d),
       ce_cameraType := (case byCid (ce_cameraId e) of None \<Rightarrow> ce_cameraType e | Some d \<Rightarrow> cd_cameraType d),
       ce_title := (case byCid (ce_cameraId e) of None \<Rightarrow> ce_title e
                    | Some d \<Rightarrow> if ce_splitCount e = 1 then cd_title d else ce_title e)\<rparr>"

lemma CameraModel_refresh_fst [simp]:
  "fst (CameraModel_refresh byCid e) = CameraModel_refreshed byCid e"
  by (auto simp: CameraModel_refresh_def CameraModel_refreshed_def Let_def split: option.splits)

text \<open>The events of the loop name rows that exist and cameras of the model.\<close>

definition CameraModel_row_event :: "nat \<Rightarrow> CameraModel_event \<Rightarrow> bool" where
  "CameraModel_row_event n ev =
     (case ev of
        CM_dataChanged r roles \<Rightarrow> 0 \<le> r \<and> r < int n
      | CM_cameraOnline cid \<Rightarrow> True
      | CM_slotsUpdated ss \<Rightarrow> True
      | CM_cameraIdsUpdated cids \<Rightarrow> True
      | CM_sensorDataUpdated cid \<Rightarrow> True
      | _ \<Rightarrow> False)"

lemma CameraModel_refresh_rows_closed:
  assumes "cm_cameras m = us @ vs" "length us = i"
  shows "\<exists>evs. CameraModel_refresh_rows byCid i m =
           m\<lparr>cm_cameras := us @ map (CameraModel_refreshed byCid) vs, cm_events := cm_events m @ evs\<rparr> \<and>
         (\<forall>ev \<in> set evs. CameraModel_row_event (length (cm_cameras m)) ev)"
  using assms
proof (induction vs arbitrary: us i m)
  case Nil
  then show ?case
    by (subst CameraModel_refresh_rows.simps) (auto intro: exI [of _ "[]"])
next
  case (Cons c vs)
  obtain e on roles where r: "CameraModel_refresh byCid c = (e, on, roles)"
    by (metis prod.exhaust)
  then have e: "e = CameraModel_refreshed byCid c"
    using CameraModel_refresh_fst [of byCid c] by simp
  let ?evs = "(if on then [CM_cameraOnline (ce_cameraId e)] else []) @
      (if roles \<noteq> [] then [CM_dataChanged (int i) roles] else [])"
  let ?m = "m\<lparr>cm_cameras := us @ e # vs, cm_events := cm_events m @ ?evs\<rparr>"
  have "cm_cameras ?m = (us @ [e]) @ vs" by simp
  from Cons.IH [OF this, of "i + 1"] Cons.prems(2) obtain evs where
    IH: "CameraModel_refresh_rows byCid (i + 1) ?m =
      ?m\<lparr>cm_cameras := (us @ [e]) @ map (CameraModel_refreshed byCid) vs,
         cm_events := cm_events ?m @ evs\<rparr>"
      "\<forall>ev \<in> set evs. CameraModel_row_event (length (cm_cameras ?m)) ev"
    by (metis length_append_singleton Suc_eq_plus1)
  have "CameraModel_refresh_rows byCid i m = CameraModel_refresh_rows byCid (i + 1) ?m"
    using Cons.prems r
    by (subst CameraModel_refresh_rows.simps) (auto simp: Let_def CameraModel_emit_def nth_append)
  with IH Cons.prems e show ?case
    by (intro exI [of _ "?evs @ evs"]) (auto simp: CameraModel_row_event_def)
qed

text \<open>The rows for new cameras are plain cards with the next slot ids.\<close>

lemma CameraModel_newEntries_slots:
  "map ce_slotId (CameraModel_newEntries byCid rep cids n) =
     map (\<lambda>k. n + int k) [0..<length (CameraModel_newEntries byCid rep cids n)]"
proof (induction cids arbitrary: n)
  case (Cons cid cids)
  have "map (\<lambda>k. (n + 1) + int k) [0..<l] = map (\<lambda>k. n + int k) (map Suc [0..<l])" for l
    by simp
  with Cons show ?case
    by (simp add: CameraModel_newEntry_def upt_conv_Cons map_Suc_upt del: upt_Suc)
qed simp

lemma CameraModel_newEntries_in:
  "e \<in> set (CameraModel_newEntries byCid rep cids n) \<Longrightarrow>
     \<exists>cid k. cid \<in> set cids \<and> cid \<notin> rep \<and> e = CameraModel_newEntry k cid (the (byCid cid))"
proof (induction cids arbitrary: n)
  case (Cons c cids)
  then show ?case by (cases "c \<in> rep") fastforce+
qed simp

lemma CameraModel_newEntries_cids:
  "map ce_cameraId (CameraModel_newEntries byCid rep cids n) = filter (\<lambda>cid. cid \<notin> rep) cids"
  by (induction cids arbitrary: n) (auto simp: CameraModel_newEntry_def)

lemma CameraModel_insertNew_simps [simp]:
  "cm_cameras (CameraModel_insertNew es m) = cm_cameras m @ es"
  "cm_autoSplit (CameraModel_insertNew es m) = cm_autoSplit m"
  "cm_nextSlotId (CameraModel_insertNew es m) = cm_nextSlotId m + int (length es)"
  "cm_nextSplitGroupId (CameraModel_insertNew es m) = cm_nextSplitGroupId m"
  "cm_events (CameraModel_insertNew es m) =
     cm_events m @ (if es = [] then []
       else [CM_beginInsertRows (int (length (cm_cameras m)))
               (int (length (cm_cameras m)) + int (length es) - 1), CM_endInsertRows])"
  by (simp_all add: CameraModel_insertNew_def Let_def)

section \<open>The view\<close>

text \<open>
  A view that follows the notifications: the number of rows it shows, \<open>None\<close> once a
  notification breaks the contract of QAbstractItemModel (rows removed or changed that do not
  exist, rows inserted behind the end).
\<close>

fun CameraModel_view :: "int option \<Rightarrow> CameraModel_event \<Rightarrow> int option" where
  "CameraModel_view None ev = None"
| "CameraModel_view (Some n) (CM_beginRemoveRows a b) =
     (if 0 \<le> a \<and> a \<le> b \<and> b < n then Some (n - (b - a + 1)) else None)"
| "CameraModel_view (Some n) (CM_beginInsertRows a b) =
     (if 0 \<le> a \<and> a \<le> b \<and> a \<le> n then Some (n + (b - a + 1)) else None)"
| "CameraModel_view (Some n) (CM_dataChanged r roles) = (if 0 \<le> r \<and> r < n then Some n else None)"
| "CameraModel_view (Some n) (CM_endResetModel k) = Some k"
| "CameraModel_view (Some n) _ = Some n"

definition CameraModel_view_rows :: "CameraModel \<Rightarrow> int option" where
  "CameraModel_view_rows m = foldl CameraModel_view (Some 0) (cm_events m)"

lemma CameraModel_view_row_events:
  "\<forall>ev \<in> set evs. CameraModel_row_event n ev \<Longrightarrow> foldl CameraModel_view (Some (int n)) evs = Some (int n)"
  by (induction evs) (auto simp: CameraModel_row_event_def split: CameraModel_event.splits)

lemma CameraModel_view_removals:
  "int (k + length vs) \<le> n \<Longrightarrow>
     foldl CameraModel_view (Some n)
       (CameraModel_removal_events (rev (CameraModel_groupIndices g k vs))) =
     Some (n - int (length (filter (\<lambda>e. ce_splitGroupId e = g) vs)))"
proof (induction vs arbitrary: k)
  case (Cons c vs)
  have "int k < n - int (length (filter (\<lambda>e. ce_splitGroupId e = g) vs))"
  proof -
    have "int (length (filter (\<lambda>e. ce_splitGroupId e = g) vs)) \<le> int (length vs)"
      by simp
    moreover have "1 + int k + int (length vs) \<le> n"
      using Cons.prems by simp
    ultimately show ?thesis by linarith
  qed
  with Cons.IH [of "k + 1"] Cons.prems show ?case
    by (auto simp: CameraModel_removal_events_def)
qed (simp add: CameraModel_removal_events_def)

section \<open>The invariant\<close>

text \<open>
  What a row says about its place in a split: the swap of two cards moves it as a whole. The
  rows of a group are the tiles 0 to count - 1 of one split of one camera, in any order.
\<close>

record TileDesc =
  td_group :: int
  td_index :: int
  td_count :: int
  td_dir :: SplitDirection
  td_rect :: QRectF
  td_cid :: string

definition CameraModel_desc :: "CameraEntry \<Rightarrow> TileDesc" where
  "CameraModel_desc e =
     \<lparr>td_group = ce_splitGroupId e, td_index = ce_splitIndex e, td_count = ce_splitCount e,
      td_dir = ce_splitDirection e, td_rect = ce_cropRect e, td_cid = ce_cameraId e\<rparr>"

definition TileDesc_plain :: "TileDesc \<Rightarrow> bool" where
  "TileDesc_plain t \<longleftrightarrow>
     td_group t = -1 \<and> td_index t = 0 \<and> td_count t = 1 \<and> td_rect t = QRectF_full"

definition TileDesc_tile :: "int \<Rightarrow> TileDesc \<Rightarrow> bool" where
  "TileDesc_tile n t \<longleftrightarrow>
     1 \<le> td_group t \<and> td_group t < n \<and> CameraModel_validCount (td_count t) (td_dir t) \<and>
     0 \<le> td_index t \<and> td_index t < td_count t \<and>
     td_rect t = computeCropRect (td_index t) (td_count t) (td_dir t)"

definition TileDesc_group :: "TileDesc multiset \<Rightarrow> TileDesc \<Rightarrow> TileDesc multiset" where
  "TileDesc_group M t = {# u \<in># M. td_group u = td_group t #}"

definition TileDesc_complete :: "TileDesc multiset \<Rightarrow> TileDesc \<Rightarrow> bool" where
  "TileDesc_complete M t \<longleftrightarrow>
     image_mset td_index (TileDesc_group M t) = mset (map int [0..<nat (td_count t)]) \<and>
     (\<forall>u \<in># TileDesc_group M t.
        td_count u = td_count t \<and> td_dir u = td_dir t \<and> td_cid u = td_cid t)"

definition tiles_ok :: "int \<Rightarrow> TileDesc multiset \<Rightarrow> bool" where
  "tiles_ok n M \<longleftrightarrow>
     (\<forall>t \<in># M. TileDesc_plain t \<or> TileDesc_tile n t \<and> TileDesc_complete M t)"

lemma filter_mset_none: "\<forall>u \<in># M. \<not> P u \<Longrightarrow> filter_mset P M = {#}"
  by (induction M) auto

lemma filter_mset_all: "\<forall>u \<in># M. P u \<Longrightarrow> filter_mset P M = M"
  by (induction M) auto

lemma validCount_range: "CameraModel_validCount n d \<Longrightarrow> 2 \<le> n \<and> n \<le> 4"
  by (auto simp: CameraModel_validCount_def split: SplitDirection.splits)

lemma tiles_ok_empty [simp]: "tiles_ok n {#}"
  by (simp add: tiles_ok_def)

lemma TileDesc_complete_add_plain:
  "TileDesc_plain p \<Longrightarrow> TileDesc_tile n t \<Longrightarrow> TileDesc_complete (add_mset p M) t = TileDesc_complete M t"
  by (auto simp: TileDesc_complete_def TileDesc_group_def TileDesc_plain_def TileDesc_tile_def)

lemma tiles_ok_add_plain:
  "TileDesc_plain p \<Longrightarrow> tiles_ok n (add_mset p M) \<longleftrightarrow> tiles_ok n M"
  by (auto simp: tiles_ok_def TileDesc_complete_add_plain)

lemma tiles_ok_add_plains:
  "\<forall>p \<in># P. TileDesc_plain p \<Longrightarrow> tiles_ok n (M + P) \<longleftrightarrow> tiles_ok n M"
  by (induction P) (auto simp: tiles_ok_add_plain)

lemma tiles_ok_add_group:
  assumes "tiles_ok n M" and "1 \<le> n"
    and "\<forall>t \<in># T. TileDesc_tile (n + 1) t \<and> td_group t = n \<and> td_count t = cnt \<and> td_dir t = d \<and>
      td_cid t = cid"
    and "image_mset td_index T = mset (map int [0..<nat cnt])"
  shows "tiles_ok (n + 1) (M + T)"
proof -
  have old: "\<forall>t \<in># M. td_group t < n"
    using assms(1,2) by (auto simp: tiles_ok_def TileDesc_plain_def TileDesc_tile_def)
  have group_T: "TileDesc_group (M + T) t = T" if "t \<in># T" for t
    using that assms(3) old by (auto simp: TileDesc_group_def filter_mset_none filter_mset_all)
  have group_M: "TileDesc_group (M + T) t = TileDesc_group M t" if "t \<in># M" for t
  proof -
    have "{# u \<in># T. td_group u = td_group t #} = {#}"
      using that assms(3) old by (auto intro!: filter_mset_none)
    then show ?thesis by (simp add: TileDesc_group_def)
  qed
  show ?thesis
    unfolding tiles_ok_def
  proof
    fix t assume "t \<in># M + T"
    then consider "t \<in># M" | "t \<in># T" by auto
    then show "TileDesc_plain t \<or> TileDesc_tile (n + 1) t \<and> TileDesc_complete (M + T) t"
    proof cases
      case 1
      with assms(1) group_M [OF 1] show ?thesis
        by (auto simp: tiles_ok_def TileDesc_complete_def TileDesc_tile_def)
    next
      case 2
      with assms(3,4) group_T [OF 2] show ?thesis
        by (auto simp: TileDesc_complete_def)
    qed
  qed
qed

lemma tiles_ok_drop_group:
  assumes "tiles_ok n M"
  shows "tiles_ok n {# t \<in># M. td_group t \<noteq> g #}"
proof -
  have "TileDesc_group {# u \<in># M. td_group u \<noteq> g #} t = TileDesc_group M t" if "td_group t \<noteq> g" for t
    unfolding TileDesc_group_def filter_filter_mset
    by (rule filter_mset_cong) (use that in auto)
  with assms show ?thesis
    by (auto simp: tiles_ok_def TileDesc_complete_def)
qed

definition CameraModel_inv :: "CameraModel \<Rightarrow> bool" where
  "CameraModel_inv m \<longleftrightarrow>
     1 \<le> cm_nextSplitGroupId m \<and> 0 \<le> cm_nextSlotId m \<and>
     distinct (map ce_slotId (cm_cameras m)) \<and>
     (\<forall>e \<in> set (cm_cameras m). 0 \<le> ce_slotId e \<and> ce_slotId e < cm_nextSlotId m) \<and>
     cm_autoSplit m \<subseteq> ce_slotId ` set (cm_cameras m) \<and>
     tiles_ok (cm_nextSplitGroupId m) (mset (map CameraModel_desc (cm_cameras m))) \<and>
     CameraModel_view_rows m = Some (int (length (cm_cameras m)))"

section \<open>Preservation\<close>

lemma CameraModel_inv_init [inv_intros]: "CameraModel_inv CameraModel_init"
  by (simp add: CameraModel_inv_def CameraModel_init_def CameraModel_view_rows_def)

lemma CameraModel_view_rows_append:
  "cm_events m' = cm_events m @ evs \<Longrightarrow>
     CameraModel_view_rows m' = foldl CameraModel_view (CameraModel_view_rows m) evs"
  by (simp add: CameraModel_view_rows_def)

text \<open>Operations that change neither the slots nor the splits.\<close>

lemma CameraModel_inv_same_rows:
  assumes "CameraModel_inv m"
    and "map ce_slotId (cm_cameras m') = map ce_slotId (cm_cameras m)"
    and "mset (map CameraModel_desc (cm_cameras m')) = mset (map CameraModel_desc (cm_cameras m))"
    and "cm_autoSplit m' = cm_autoSplit m" "cm_nextSlotId m' = cm_nextSlotId m"
      "cm_nextSplitGroupId m' = cm_nextSplitGroupId m"
    and "cm_events m' = cm_events m @ evs"
      "\<forall>ev \<in> set evs. CameraModel_row_event (length (cm_cameras m)) ev"
  shows "CameraModel_inv m'"
proof -
  have len: "length (cm_cameras m') = length (cm_cameras m)"
    using assms(2) map_eq_imp_length_eq by blast
  have slots: "ce_slotId ` set (cm_cameras m') = ce_slotId ` set (cm_cameras m)"
    using assms(2) by (metis set_map)
  have "\<forall>e \<in> set (cm_cameras m'). 0 \<le> ce_slotId e \<and> ce_slotId e < cm_nextSlotId m"
  proof
    fix e assume "e \<in> set (cm_cameras m')"
    with slots obtain f where "f \<in> set (cm_cameras m)" "ce_slotId e = ce_slotId f"
      by (metis imageE imageI)
    with assms(1) show "0 \<le> ce_slotId e \<and> ce_slotId e < cm_nextSlotId m"
      by (simp add: CameraModel_inv_def)
  qed
  with assms slots len CameraModel_view_row_events [OF assms(8)] show ?thesis
    by (simp add: CameraModel_inv_def CameraModel_view_rows_append [OF assms(7)])
qed

lemma CameraModel_inv_emit_row:
  "CameraModel_inv m \<Longrightarrow> CameraModel_row_event (length (cm_cameras m)) ev \<Longrightarrow>
     CameraModel_inv (CameraModel_emit ev m)"
  by (rule CameraModel_inv_same_rows [where m = m]) auto

lemma CameraModel_inv_emitSlotsUpdated [inv_intros]:
  "CameraModel_inv m \<Longrightarrow> CameraModel_inv (CameraModel_emitSlotsUpdated m)"
  unfolding CameraModel_emitSlotsUpdated_def
  by (intro CameraModel_inv_emit_row) (auto simp: CameraModel_row_event_def)

text \<open>One row is replaced by a row with the same slot and the same place in a split.\<close>

lemma CameraModel_inv_row_update:
  assumes "CameraModel_inv m" "i < length (cm_cameras m)"
    and "ce_slotId e = ce_slotId (cm_cameras m ! i)"
    and "CameraModel_desc e = CameraModel_desc (cm_cameras m ! i)"
  shows "CameraModel_inv (CameraModel_emit (CM_dataChanged (int i) roles)
     (m\<lparr>cm_cameras := (cm_cameras m)[i := e]\<rparr>))"
  by (rule CameraModel_inv_same_rows [OF assms(1), where evs = "[CM_dataChanged (int i) roles]"])
    (use assms(2-4) in \<open>auto simp: map_list_update_same CameraModel_row_event_def\<close>)

lemma CameraModel_setOnline_inv [inv_intros]:
  "CameraModel_inv m \<Longrightarrow> CameraModel_inv (CameraModel_setOnline i b m)"
  using CameraModel_inv_row_update [of m "nat i" "(cm_cameras m ! nat i)\<lparr>ce_isOnline := b\<rparr>" "[IsOnlineRole]"]
  by (auto simp: CameraModel_setOnline_def CameraModel_desc_def)

lemma CameraModel_setData_inv [inv_intros]:
  assumes "CameraModel_inv m"
  shows "CameraModel_inv (fst (CameraModel_setData toString toBool index v role m))"
proof (cases index)
  case None
  with assms show ?thesis by (simp add: CameraModel_setData_def)
next
  case (Some row)
  let ?cam = "cm_cameras m ! row"
  show ?thesis
  proof (cases "row < length (cm_cameras m)")
    case False
    with assms Some show ?thesis by (simp add: CameraModel_setData_def)
  next
    case True
    note upd = CameraModel_inv_row_update [OF assms True]
    show ?thesis
      using assms Some True upd [of "?cam\<lparr>ce_title := toString v\<rparr>" "[TitleRole]"]
        upd [of "?cam\<lparr>ce_isOnline := toBool v\<rparr>" "[IsOnlineRole]"]
        upd [of "?cam\<lparr>ce_cameraType := toString v\<rparr>" "[CameraTypeRole]"]
      by (auto simp: CameraModel_setData_def CameraModel_desc_def Let_def
          split: option.splits CameraRole.splits)
  qed
qed

lemma CameraModel_updateSensorInfo_inv [inv_intros]:
  assumes "CameraModel_inv m"
  shows "CameraModel_inv (CameraModel_updateSensorInfo cid h l ti tm m)"
  by (rule CameraModel_inv_same_rows [OF assms, where
        evs = "if \<exists>e \<in> set (cm_cameras m). ce_cameraId e = cid then [CM_sensorDataUpdated cid] else []"])
    (auto simp: CameraModel_updateSensorInfo_def Let_def CameraModel_row_event_def
      CameraModel_desc_def image_mset.compositionality comp_def intro!: image_mset_cong)

text \<open>The swap exchanges the places in the splits, and the slots stay.\<close>

lemma CameraEntry_take_content_simps [simp]:
  "ce_slotId (CameraEntry_take_content a b) = ce_slotId a"
  "CameraModel_desc (CameraEntry_take_content a b) = CameraModel_desc b"
  by (simp_all add: CameraEntry_take_content_def CameraModel_desc_def)

lemma CameraModel_swapSlots_inv [inv_intros]:
  assumes "CameraModel_inv m"
  shows "CameraModel_inv (CameraModel_swapSlots i j m)"
proof (cases "i < 0 \<or> j < 0 \<or> int (length (cm_cameras m)) \<le> i \<or> int (length (cm_cameras m)) \<le> j \<or> i = j")
  case True
  with assms show ?thesis by (auto simp: CameraModel_swapSlots_def Let_def)
next
  case False
  let ?i = "nat i" and ?j = "nat j" and ?cams = "cm_cameras m"
  let ?a = "?cams ! ?i" and ?b = "?cams ! ?j"
  let ?m = "m\<lparr>cm_cameras := ?cams[?i := CameraEntry_take_content ?a ?b, ?j := CameraEntry_take_content ?b ?a]\<rparr>"
  have rng: "?i < length ?cams" "?j < length ?cams" "?i \<noteq> ?j"
    using False by auto
  have "map CameraModel_desc (cm_cameras ?m) =
      (map CameraModel_desc ?cams)[?i := map CameraModel_desc ?cams ! ?j, ?j := map CameraModel_desc ?cams ! ?i]"
    using rng by (simp add: map_update)
  then have "mset (map CameraModel_desc (cm_cameras ?m)) = mset (map CameraModel_desc ?cams)"
    using rng by (simp only: mset_swap length_map)
  moreover have "map ce_slotId (cm_cameras ?m) = map ce_slotId ?cams"
    using rng by (simp add: map_list_update_same)
  ultimately have "CameraModel_inv ?m"
    by (intro CameraModel_inv_same_rows [OF assms, where evs = "[]"]) auto
  then show ?thesis
    using False rng
    by (auto simp: CameraModel_swapSlots_def Let_def CameraModel_row_event_def
        intro!: CameraModel_inv_emit_row CameraModel_inv_emitSlotsUpdated)
qed

lemma CameraModel_clearAll_inv [inv_intros]: "CameraModel_inv m \<Longrightarrow> CameraModel_inv (CameraModel_clearAll m)"
  by (simp add: CameraModel_inv_def CameraModel_clearAll_def CameraModel_view_rows_def Let_def
      CameraModel_rowCount_def)

text \<open>A split takes a plain card away and adds a complete group with new slots.\<close>

lemma CameraModel_tiles_slots:
  "map ce_slotId (CameraModel_tiles orig n d g base 0) = map (\<lambda>k. base + int k) [0..<nat n]"
  by (simp add: CameraModel_tiles_def CameraModel_tile_def)

lemma CameraModel_tiles_in:
  "e \<in> set (CameraModel_tiles orig n d g base 0) \<Longrightarrow>
     \<exists>k. k < nat n \<and> e = CameraModel_tile orig n d g (base + int k) k"
  by (auto simp: CameraModel_tiles_def)

lemma CameraModel_tile_desc:
  "CameraModel_desc (CameraModel_tile orig n d g s k) =
     \<lparr>td_group = g, td_index = int k, td_count = n, td_dir = d,
      td_rect = computeCropRect (int k) n d, td_cid = ce_cameraId orig\<rparr>"
  by (simp add: CameraModel_desc_def CameraModel_tile_def)

lemma CameraModel_tiles_group_ok:
  assumes "tiles_ok g M" "1 \<le> g" "CameraModel_validCount n d"
  shows "tiles_ok (g + 1) (M + mset (map CameraModel_desc (CameraModel_tiles orig n d g base 0)))"
proof (rule tiles_ok_add_group [OF assms(1,2), where cnt = n and d = d and cid = "ce_cameraId orig"])
  show "\<forall>t \<in># mset (map CameraModel_desc (CameraModel_tiles orig n d g base 0)).
      TileDesc_tile (g + 1) t \<and> td_group t = g \<and> td_count t = n \<and> td_dir t = d \<and>
      td_cid t = ce_cameraId orig"
    using assms by (auto simp: CameraModel_tiles_def CameraModel_tile_desc TileDesc_tile_def)
  have "image_mset td_index (mset (map CameraModel_desc (CameraModel_tiles orig n d g base 0))) =
      mset (map (td_index \<circ> CameraModel_desc) (CameraModel_tiles orig n d g base 0))"
    by (simp add: image_mset.compositionality)
  also have "map (td_index \<circ> CameraModel_desc) (CameraModel_tiles orig n d g base 0) = map int [0..<nat n]"
    by (simp add: CameraModel_tiles_def CameraModel_tile_desc)
  finally show "image_mset td_index (mset (map CameraModel_desc (CameraModel_tiles orig n d g base 0))) =
      mset (map int [0..<nat n])" .
qed

lemma CameraModel_inv_plain:
  assumes "CameraModel_inv m" "e \<in> set (cm_cameras m)" "ce_splitCount e = 1"
  shows "TileDesc_plain (CameraModel_desc e)"
proof -
  from assms(1,2) have "TileDesc_plain (CameraModel_desc e) \<or>
      TileDesc_tile (cm_nextSplitGroupId m) (CameraModel_desc e)"
    by (auto simp: CameraModel_inv_def tiles_ok_def)
  with assms(3) show ?thesis
    using validCount_range by (fastforce simp: TileDesc_tile_def CameraModel_desc_def)
qed

lemma CameraModel_splitSlotAtIndex_inv [inv_intros]:
  assumes inv: "CameraModel_inv m"
  shows "CameraModel_inv (fst (CameraModel_splitSlotAtIndex row n d auto m))"
proof (cases rule: CameraModel_splitSlotAtIndex_cases [of row n d auto m])
  case refused
  with inv show ?thesis by simp
next
  case (split us orig vs)
  let ?tiles = "CameraModel_tiles orig n d (cm_nextSplitGroupId m) (cm_nextSlotId m) 0"
  define m' where "m' = fst (CameraModel_splitSlotAtIndex row n d auto m)"
  have n: "2 \<le> n" using validCount_range split(3) by blast
  have cams: "cm_cameras m' = us @ ?tiles @ vs"
    and next_ids: "cm_nextSlotId m' = cm_nextSlotId m + n"
      "cm_nextSplitGroupId m' = cm_nextSplitGroupId m + 1"
    and autos: "cm_autoSplit m' \<subseteq>
      cm_autoSplit m \<union> {cm_nextSlotId m..<cm_nextSlotId m + n} - {ce_slotId orig}"
    by (auto simp: m'_def CameraModel_splitSlotAtIndex_closed [OF split] Let_def)
  obtain ss cs where events: "cm_events m' = cm_events m @
      [CM_beginRemoveRows row row, CM_endRemoveRows, CM_beginInsertRows row (row + n - 1),
       CM_endInsertRows, CM_slotsUpdated ss, CM_cameraIdsUpdated cs]"
    by (auto simp: m'_def CameraModel_splitSlotAtIndex_closed [OF split] Let_def)
  have slots: "ce_slotId ` set ?tiles = {cm_nextSlotId m..<cm_nextSlotId m + n}"
  proof -
    have "ce_slotId ` set ?tiles = (\<lambda>k. cm_nextSlotId m + int k) ` {0..<nat n}"
      using CameraModel_tiles_slots [of orig n d "cm_nextSplitGroupId m" "cm_nextSlotId m"]
      by (metis set_map set_upt)
    also have "\<dots> = {cm_nextSlotId m..<cm_nextSlotId m + n}"
      by (auto simp: image_iff intro!: bexI [of _ "nat (x - cm_nextSlotId m)" for x])
    finally show ?thesis .
  qed
  have dist: "distinct (map ce_slotId ?tiles)"
    by (simp add: CameraModel_tiles_slots distinct_map inj_on_def)
  have below: "\<forall>e \<in> set us \<union> {orig} \<union> set vs. 0 \<le> ce_slotId e \<and> ce_slotId e < cm_nextSlotId m"
    and old_dist: "distinct (map ce_slotId (us @ orig # vs))"
    and old_auto: "cm_autoSplit m \<subseteq> ce_slotId ` set (us @ orig # vs)"
    and old_tiles: "tiles_ok (cm_nextSplitGroupId m) (mset (map CameraModel_desc (us @ orig # vs)))"
    and pos: "1 \<le> cm_nextSplitGroupId m" "0 \<le> cm_nextSlotId m"
    and view: "CameraModel_view_rows m = Some (int (length us) + int (length vs) + 1)"
    using inv split(1) by (auto simp: CameraModel_inv_def)
  have fresh: "ce_slotId ` set ?tiles \<inter> ce_slotId ` (set us \<union> set vs) = {}"
    using below unfolding slots by force
  have "distinct (map ce_slotId (us @ ?tiles @ vs))"
    using old_dist dist fresh by (simp add: image_Un) blast
  moreover have "\<forall>e \<in> set (us @ ?tiles @ vs). 0 \<le> ce_slotId e \<and> ce_slotId e < cm_nextSlotId m + n"
  proof -
    have "\<forall>e \<in> set ?tiles. ce_slotId e \<in> {cm_nextSlotId m..<cm_nextSlotId m + n}"
      using slots by blast
    with below n pos show ?thesis by force
  qed
  moreover have "cm_autoSplit m' \<subseteq> ce_slotId ` set (us @ ?tiles @ vs)"
    using autos old_auto unfolding set_append image_Un slots by auto
  moreover have "tiles_ok (cm_nextSplitGroupId m + 1) (mset (map CameraModel_desc (us @ ?tiles @ vs)))"
  proof -
    have "TileDesc_plain (CameraModel_desc orig)"
      using CameraModel_inv_plain [OF inv _ split(4)] split(1) by simp
    with old_tiles have "tiles_ok (cm_nextSplitGroupId m) (mset (map CameraModel_desc (us @ vs)))"
      by (simp add: tiles_ok_add_plain)
    from CameraModel_tiles_group_ok [OF this pos(1) split(3)] show ?thesis
      by (simp add: ac_simps)
  qed
  moreover have "CameraModel_view_rows m' = Some (int (length (us @ ?tiles @ vs)))"
  proof -
    have "length ?tiles = nat n" by (simp add: CameraModel_tiles_def)
    with view n split(2) show ?thesis
      by (simp add: CameraModel_view_rows_append [OF events])
  qed
  ultimately have "CameraModel_inv m'"
    using pos n cams next_ids by (simp add: CameraModel_inv_def)
  then show ?thesis by (simp add: m'_def)
qed

text \<open>A merge drops the group and adds a plain card.\<close>

lemma CameraModel_merged_simps [simp]:
  "ce_slotId (CameraModel_merged e) = ce_slotId e"
  "TileDesc_plain (CameraModel_desc (CameraModel_merged e))"
  by (simp_all add: CameraModel_merged_def CameraModel_desc_def TileDesc_plain_def)

lemma CameraModel_desc_group: "td_group (CameraModel_desc e) = ce_splitGroupId e"
  by (simp add: CameraModel_desc_def)

lemma mset_desc_filter:
  "mset (map CameraModel_desc (filter (\<lambda>e. ce_splitGroupId e \<noteq> g) es)) =
     {# t \<in># mset (map CameraModel_desc es). td_group t \<noteq> g #}"
  by (induction es) (auto simp: CameraModel_desc_group)

lemma CameraModel_mergeGroupByIndex_inv [inv_intros]:
  assumes inv: "CameraModel_inv m"
  shows "CameraModel_inv (fst (CameraModel_mergeGroupByIndex row m))"
proof (cases rule: CameraModel_mergeGroupByIndex_cases [of row m])
  case refused
  with inv show ?thesis by simp
next
  case (merged us first vs g)
  let ?keep = "filter (\<lambda>e. ce_splitGroupId e \<noteq> g) vs"
  define m' where "m' = fst (CameraModel_mergeGroupByIndex row m)"
  have cams: "cm_cameras m' = us @ CameraModel_merged first # ?keep"
    and ids: "cm_nextSlotId m' = cm_nextSlotId m" "cm_nextSplitGroupId m' = cm_nextSplitGroupId m"
    and autos: "cm_autoSplit m' = cm_autoSplit m - ce_slotId ` {e \<in> set vs. ce_splitGroupId e = g}"
    by (auto simp: m'_def CameraModel_mergeGroupByIndex_closed [OF merged] Let_def)
  obtain ss cs where events: "cm_events m' = cm_events m @
      CameraModel_removal_events (rev (CameraModel_groupIndices g (length us + 1) vs)) @
      [CM_dataChanged (int (length us)) [], CM_slotsUpdated ss, CM_cameraIdsUpdated cs]"
    by (auto simp: m'_def CameraModel_mergeGroupByIndex_closed [OF merged] Let_def)
  have below: "\<forall>e \<in> set (us @ first # vs). 0 \<le> ce_slotId e \<and> ce_slotId e < cm_nextSlotId m"
    and old_dist: "distinct (map ce_slotId (us @ first # vs))"
    and old_auto: "cm_autoSplit m \<subseteq> ce_slotId ` set (us @ first # vs)"
    and old_tiles: "tiles_ok (cm_nextSplitGroupId m) (mset (map CameraModel_desc (us @ first # vs)))"
    and pos: "1 \<le> cm_nextSplitGroupId m" "0 \<le> cm_nextSlotId m"
    and view: "CameraModel_view_rows m = Some (int (length us + 1 + length vs))"
    using inv merged(1) by (auto simp: CameraModel_inv_def)
  have "distinct (map ce_slotId (us @ CameraModel_merged first # ?keep))"
    using old_dist by (auto simp: distinct_map_filter)
  moreover have "cm_autoSplit m' \<subseteq> ce_slotId ` set (us @ CameraModel_merged first # ?keep)"
  proof
    fix x assume "x \<in> cm_autoSplit m'"
    then have x: "x \<in> cm_autoSplit m" and gone: "x \<notin> ce_slotId ` {e \<in> set vs. ce_splitGroupId e = g}"
      unfolding autos by blast+
    from x old_auto obtain e where "e \<in> set (us @ first # vs)" "x = ce_slotId e"
      by blast
    with gone have "e = first \<or> e \<in> set us \<or> e \<in> set ?keep" "x = ce_slotId e"
      by auto
    then show "x \<in> ce_slotId ` set (us @ CameraModel_merged first # ?keep)"
      by auto
  qed
  moreover have "tiles_ok (cm_nextSplitGroupId m)
      (mset (map CameraModel_desc (us @ CameraModel_merged first # ?keep)))"
  proof -
    have us: "filter (\<lambda>e. ce_splitGroupId e \<noteq> g) us = us"
      using merged(2) by (simp add: filter_id_conv)
    have "tiles_ok (cm_nextSplitGroupId m)
        (mset (map CameraModel_desc (filter (\<lambda>e. ce_splitGroupId e \<noteq> g) (us @ first # vs))))"
      unfolding mset_desc_filter by (rule tiles_ok_drop_group [OF old_tiles])
    then have "tiles_ok (cm_nextSplitGroupId m) (mset (map CameraModel_desc (us @ ?keep)))"
      using us merged(3) by simp
    then show ?thesis by (simp add: tiles_ok_add_plain)
  qed
  moreover have "CameraModel_view_rows m' = Some (int (length (us @ CameraModel_merged first # ?keep)))"
  proof -
    let ?n = "int (length us + 1 + length vs)"
    let ?gone = "length (filter (\<lambda>e. ce_splitGroupId e = g) vs)"
    have "length vs = ?gone + length ?keep"
      using sum_length_filter_compl [of "\<lambda>e. ce_splitGroupId e = g" vs] by simp
    then have n: "?n - int ?gone = int (length us + 1 + length ?keep)" by simp
    have "foldl CameraModel_view (Some ?n)
        (CameraModel_removal_events (rev (CameraModel_groupIndices g (length us + 1) vs))) =
        Some (?n - int ?gone)"
      by (rule CameraModel_view_removals) simp
    with view show ?thesis
      unfolding n by (simp add: CameraModel_view_rows_append [OF events])
  qed
  ultimately have "CameraModel_inv m'"
    using pos below cams ids by (auto simp: CameraModel_inv_def)
  then show ?thesis by (simp add: m'_def)
qed

lemma CameraModel_autoSplitForIndex_inv [inv_intros]:
  "CameraModel_inv m \<Longrightarrow> CameraModel_inv (fst (CameraModel_autoSplitForIndex tbl row m))"
  by (simp add: CameraModel_autoSplitForIndex_def Let_def CameraModel_splitSlotAtIndex_inv)

lemma CameraModel_applyAutoSplitForSlot_inv [inv_intros]:
  "CameraModel_inv m \<Longrightarrow> CameraModel_inv (fst (CameraModel_applyAutoSplitForSlot tbl slotId m))"
  by (simp add: CameraModel_applyAutoSplitForSlot_def CameraModel_autoSplitForIndex_inv)

lemma CameraModel_refreshed_simps [simp]:
  "ce_slotId (CameraModel_refreshed byCid e) = ce_slotId e"
  "ce_cameraId (CameraModel_refreshed byCid e) = ce_cameraId e"
  "ce_splitCount (CameraModel_refreshed byCid e) = ce_splitCount e"
  "CameraModel_desc (CameraModel_refreshed byCid e) = CameraModel_desc e"
  by (simp_all add: CameraModel_refreshed_def CameraModel_desc_def)

lemma CameraModel_refresh_all:
  obtains evs where
    "CameraModel_refresh_rows byCid 0 m =
       m\<lparr>cm_cameras := map (CameraModel_refreshed byCid) (cm_cameras m), cm_events := cm_events m @ evs\<rparr>"
    "\<forall>ev \<in> set evs. CameraModel_row_event (length (cm_cameras m)) ev"
  using CameraModel_refresh_rows_closed [of m "[]" "cm_cameras m" 0 byCid] by auto

lemma CameraModel_refresh_rows_inv:
  assumes "CameraModel_inv m"
  shows "CameraModel_inv (CameraModel_refresh_rows byCid 0 m)"
proof -
  obtain evs where refresh: "CameraModel_refresh_rows byCid 0 m =
       m\<lparr>cm_cameras := map (CameraModel_refreshed byCid) (cm_cameras m), cm_events := cm_events m @ evs\<rparr>"
    and evs: "\<forall>ev \<in> set evs. CameraModel_row_event (length (cm_cameras m)) ev"
    by (rule CameraModel_refresh_all)
  show ?thesis
    unfolding refresh
    by (rule CameraModel_inv_same_rows [OF assms, where evs = evs])
      (use evs in \<open>simp_all add: comp_def image_mset.compositionality\<close>)
qed

text \<open>The next slot ids, from \<open>n\<close> on.\<close>

definition CameraModel_fresh :: "int \<Rightarrow> CameraEntry list \<Rightarrow> bool" where
  "CameraModel_fresh n es \<longleftrightarrow>
     map ce_slotId es = map (\<lambda>k. n + int k) [0..<length es] \<and>
     (\<forall>e \<in> set es. TileDesc_plain (CameraModel_desc e))"

lemma CameraModel_newEntries_fresh: "CameraModel_fresh n (CameraModel_newEntries byCid rep cids n)"
proof -
  have "TileDesc_plain (CameraModel_desc (CameraModel_newEntry k cid snap))" for k cid snap
    by (simp add: TileDesc_plain_def CameraModel_desc_def CameraModel_newEntry_def)
  then show ?thesis
    unfolding CameraModel_fresh_def
    using CameraModel_newEntries_slots CameraModel_newEntries_in by metis
qed

lemma CameraModel_insertNew_inv:
  assumes inv: "CameraModel_inv m" and fresh: "CameraModel_fresh (cm_nextSlotId m) es"
  shows "CameraModel_inv (CameraModel_insertNew es m)"
proof -
  have slots: "ce_slotId ` set es = {cm_nextSlotId m..<cm_nextSlotId m + int (length es)}"
  proof -
    have "ce_slotId ` set es = (\<lambda>k. cm_nextSlotId m + int k) ` {0..<length es}"
      using fresh unfolding CameraModel_fresh_def by (metis set_map set_upt)
    also have "\<dots> = {cm_nextSlotId m..<cm_nextSlotId m + int (length es)}"
      by (auto simp: image_iff intro!: bexI [of _ "nat (x - cm_nextSlotId m)" for x])
    finally show ?thesis .
  qed
  have "distinct (map ce_slotId es)"
    using fresh by (simp add: CameraModel_fresh_def distinct_map inj_on_def)
  moreover have "ce_slotId ` set (cm_cameras m) \<inter> ce_slotId ` set es = {}"
    using inv unfolding slots by (force simp: CameraModel_inv_def)
  ultimately have "distinct (map ce_slotId (cm_cameras m @ es))"
    using inv by (simp add: CameraModel_inv_def)
  moreover have "\<forall>e \<in> set (cm_cameras m @ es).
      0 \<le> ce_slotId e \<and> ce_slotId e < cm_nextSlotId m + int (length es)"
  proof -
    have "\<forall>e \<in> set es. ce_slotId e \<in> {cm_nextSlotId m..<cm_nextSlotId m + int (length es)}"
      using slots by blast
    with inv show ?thesis by (force simp: CameraModel_inv_def)
  qed
  moreover have "tiles_ok (cm_nextSplitGroupId m) (mset (map CameraModel_desc (cm_cameras m @ es)))"
  proof -
    have "\<forall>p \<in># mset (map CameraModel_desc es). TileDesc_plain p"
      using fresh by (auto simp: CameraModel_fresh_def)
    with inv show ?thesis by (simp add: CameraModel_inv_def tiles_ok_add_plains)
  qed
  moreover have "CameraModel_view_rows (CameraModel_insertNew es m) =
      Some (int (length (cm_cameras m @ es)))"
    using inv by (auto simp: CameraModel_inv_def CameraModel_view_rows_def Suc_le_eq)
  ultimately show ?thesis
    using inv by (auto simp: CameraModel_inv_def)
qed

lemma CameraModel_onStoreUpdated_inv [inv_intros]:
  assumes "CameraModel_inv m"
  shows "CameraModel_inv (CameraModel_onStoreUpdated order tbl snapshot m)"
proof -
  have autos: "CameraModel_inv (foldl (\<lambda>m slotId. fst (CameraModel_applyAutoSplitForSlot tbl slotId m)) m' ids)"
    if "CameraModel_inv m'" for m' ids
    using that by (induction ids arbitrary: m') (auto intro: inv_intros)
  show ?thesis
    unfolding CameraModel_onStoreUpdated_def Let_def
    by (intro autos CameraModel_inv_emitSlotsUpdated CameraModel_insertNew_inv
        CameraModel_newEntries_fresh CameraModel_refresh_rows_inv assms)
qed

section \<open>Any sequence of calls\<close>

text \<open>
  The calls of the program: the snapshots and telemetry that Core posts, and the calls of the
  user interface. The hash may be iterated in another order on every update.
\<close>

datatype CameraModel_op =
    CMO_onStoreUpdated "string list \<Rightarrow> string list" "CameraData list"
  | CMO_updateSensorInfo string double double double double
  | CMO_setData "nat option" string bool "CameraRole option"
  | CMO_swapSlots int int
  | CMO_setOnline int bool
  | CMO_splitSlot int int int
  | CMO_mergeSlots int int
  | CMO_applyAutoSplitForSlot int
  | CMO_clearAll

fun CameraModel_step :: "(string \<times> int) list \<Rightarrow> CameraModel \<Rightarrow> CameraModel_op \<Rightarrow> CameraModel" where
  "CameraModel_step tbl m (CMO_onStoreUpdated order snapshot) = CameraModel_onStoreUpdated order tbl snapshot m"
| "CameraModel_step tbl m (CMO_updateSensorInfo cid h l ti tm) = CameraModel_updateSensorInfo cid h l ti tm m"
| "CameraModel_step tbl m (CMO_setData index s b role) = fst (CameraModel_setData fst snd index (s, b) role m)"
| "CameraModel_step tbl m (CMO_swapSlots i j) = CameraModel_swapSlots i j m"
| "CameraModel_step tbl m (CMO_setOnline i b) = CameraModel_setOnline i b m"
| "CameraModel_step tbl m (CMO_splitSlot i n d) = CameraModel_splitSlot i n d m"
| "CameraModel_step tbl m (CMO_mergeSlots i n) = CameraModel_mergeSlots i n m"
| "CameraModel_step tbl m (CMO_applyAutoSplitForSlot s) = fst (CameraModel_applyAutoSplitForSlot tbl s m)"
| "CameraModel_step tbl m CMO_clearAll = CameraModel_clearAll m"

lemma CameraModel_step_inv: "CameraModel_inv m \<Longrightarrow> CameraModel_inv (CameraModel_step tbl m x)"
  by (cases x)
    (auto simp: CameraModel_splitSlot_def CameraModel_mergeSlots_def Let_def intro: inv_intros)

interpretation camera_model: op_system CameraModel_init "CameraModel_step tbl" CameraModel_inv for tbl
  by unfold_locales (auto intro: inv_intros CameraModel_step_inv)

interpretation camera_slots: row_lookup cm_cameras ce_slotId CameraModel_indexBySlotId "\<lambda>_. True"
  unfolding CameraModel_indexBySlotId_def by (rule index_where_lookup)

end
