(* ===== verification/CameraGrid.thy ===== *)
theory CameraGrid
  imports CameraModel
begin

text \<open>
  The properties of the camera grid: what the rows of CameraModel.thy show after any sequence of
  snapshots, telemetry and calls of the user interface.
\<close>

section \<open>Tiles of a frame\<close>

text \<open>The points of a rectangle; its right and lower edges belong to the neighbours.\<close>

definition QRectF_has :: "QRectF \<Rightarrow> double \<Rightarrow> double \<Rightarrow> bool" where
  "QRectF_has r u v \<longleftrightarrow>
     rect_x r \<le> u \<and> u < rect_x r + rect_w r \<and> rect_y r \<le> v \<and> v < rect_y r + rect_h r"

lemma crops_col_2: "map (\<lambda>i. computeCropRect i 2 SplitCol) [0, 1] =
   [\<lparr>rect_x = 0, rect_y = 0, rect_w = 1 / 2, rect_h = 1\<rparr>,
    \<lparr>rect_x = 1 / 2, rect_y = 0, rect_w = 1 / 2, rect_h = 1\<rparr>]"
  by code_simp

lemma crops_col_3: "map (\<lambda>i. computeCropRect i 3 SplitCol) [0, 1, 2] =
   [\<lparr>rect_x = 0, rect_y = 0, rect_w = 6004799503160661 / 18014398509481984, rect_h = 1\<rparr>,
    \<lparr>rect_x = 6004799503160661 / 18014398509481984, rect_y = 0,
     rect_w = 6004799503160661 / 18014398509481984, rect_h = 1\<rparr>,
    \<lparr>rect_x = 6004799503160661 / 9007199254740992, rect_y = 0,
     rect_w = 3002399751580331 / 9007199254740992, rect_h = 1\<rparr>]"
  by code_simp

lemma crops_col_4: "map (\<lambda>i. computeCropRect i 4 SplitCol) [0, 1, 2, 3] =
   [\<lparr>rect_x = 0, rect_y = 0, rect_w = 1 / 4, rect_h = 1\<rparr>,
    \<lparr>rect_x = 1 / 4, rect_y = 0, rect_w = 1 / 4, rect_h = 1\<rparr>,
    \<lparr>rect_x = 1 / 2, rect_y = 0, rect_w = 1 / 4, rect_h = 1\<rparr>,
    \<lparr>rect_x = 3 / 4, rect_y = 0, rect_w = 1 / 4, rect_h = 1\<rparr>]"
  by code_simp

lemma crops_row_2: "map (\<lambda>i. computeCropRect i 2 SplitRow) [0, 1] =
   [\<lparr>rect_x = 0, rect_y = 0, rect_w = 1, rect_h = 1 / 2\<rparr>,
    \<lparr>rect_x = 0, rect_y = 1 / 2, rect_w = 1, rect_h = 1 / 2\<rparr>]"
  by code_simp

lemma crops_row_3: "map (\<lambda>i. computeCropRect i 3 SplitRow) [0, 1, 2] =
   [\<lparr>rect_x = 0, rect_y = 0, rect_w = 1, rect_h = 6004799503160661 / 18014398509481984\<rparr>,
    \<lparr>rect_x = 0, rect_y = 6004799503160661 / 18014398509481984,
     rect_w = 1, rect_h = 6004799503160661 / 18014398509481984\<rparr>,
    \<lparr>rect_x = 0, rect_y = 6004799503160661 / 9007199254740992,
     rect_w = 1, rect_h = 3002399751580331 / 9007199254740992\<rparr>]"
  by code_simp

lemma crops_grid: "map (\<lambda>i. computeCropRect i 4 SplitGrid) [0, 1, 2, 3] =
   [\<lparr>rect_x = 0, rect_y = 0, rect_w = 1 / 2, rect_h = 1 / 2\<rparr>,
    \<lparr>rect_x = 1 / 2, rect_y = 0, rect_w = 1 / 2, rect_h = 1 / 2\<rparr>,
    \<lparr>rect_x = 0, rect_y = 1 / 2, rect_w = 1 / 2, rect_h = 1 / 2\<rparr>,
    \<lparr>rect_x = 1 / 2, rect_y = 1 / 2, rect_w = 1 / 2, rect_h = 1 / 2\<rparr>]"
  by code_simp

text \<open>The number of rectangles of a list that contain a point.\<close>

definition QRectF_cover :: "QRectF list \<Rightarrow> double \<Rightarrow> double \<Rightarrow> nat" where
  "QRectF_cover rs u v = length (filter (\<lambda>r. QRectF_has r u v) rs)"

lemma computeCropRect_cover:
  assumes "CameraModel_validCount n d" "0 \<le> u" "u < 1" "0 \<le> v" "v < 1"
  shows "QRectF_cover (map (\<lambda>i. computeCropRect i n d) (map int [0..<nat n])) u v = 1"
proof -
  have rng: "map int [0..<2] = [0, 1]" "map int [0..<3] = [0, 1, 2]" "map int [0..<4] = [0, 1, 2, 3]"
    by (simp_all add: upt_rec)
  from assms(1) consider "d = SplitCol" "n = 2" | "d = SplitCol" "n = 3" | "d = SplitCol" "n = 4"
    | "d = SplitRow" "n = 2" | "d = SplitRow" "n = 3" | "d = SplitGrid" "n = 4"
    by (cases d) (auto simp: CameraModel_validCount_def, force+)
  then show ?thesis
  proof cases
    case 1
    show ?thesis using assms(2-5) unfolding 1
      by (simp add: rng crops_col_2 QRectF_cover_def QRectF_has_def del: list.map)
  next
    case 2
    show ?thesis using assms(2-5) unfolding 2
      by (simp add: rng crops_col_3 QRectF_cover_def QRectF_has_def del: list.map)
  next
    case 3
    show ?thesis using assms(2-5) unfolding 3
      by (simp add: rng crops_col_4 QRectF_cover_def QRectF_has_def del: list.map)
  next
    case 4
    show ?thesis using assms(2-5) unfolding 4
      by (simp add: rng crops_row_2 QRectF_cover_def QRectF_has_def del: list.map)
  next
    case 5
    show ?thesis using assms(2-5) unfolding 5
      by (simp add: rng crops_row_3 QRectF_cover_def QRectF_has_def del: list.map)
  next
    case 6
    show ?thesis using assms(2-5) unfolding 6
      by (cases "u < 1 / 2"; cases "v < 1 / 2")
        (simp_all add: rng crops_grid QRectF_cover_def QRectF_has_def del: list.map)
  qed
qed

text \<open>The rows that show a part of the same split as a row.\<close>

definition CameraModel_group :: "CameraModel \<Rightarrow> CameraEntry \<Rightarrow> CameraEntry list" where
  "CameraModel_group m e = filter (\<lambda>f. ce_splitGroupId f = ce_splitGroupId e) (cm_cameras m)"

lemma CameraModel_group_desc:
  "mset (map CameraModel_desc (CameraModel_group m e)) =
     TileDesc_group (mset (map CameraModel_desc (cm_cameras m))) (CameraModel_desc e)"
proof -
  have "mset (map CameraModel_desc (filter (\<lambda>f. ce_splitGroupId f = g) es)) =
      {# t \<in># mset (map CameraModel_desc es). td_group t = g #}" for g es
    by (induction es) (auto simp: CameraModel_desc_group)
  then show ?thesis
    by (simp only: CameraModel_group_def TileDesc_group_def CameraModel_desc_group)
qed

lemma CameraModel_inv_group:
  assumes "CameraModel_inv m" "e \<in> set (cm_cameras m)" "1 < ce_splitCount e"
  shows "CameraModel_validCount (ce_splitCount e) (ce_splitDirection e)"
    and "mset (map ce_splitIndex (CameraModel_group m e)) = mset (map int [0..<nat (ce_splitCount e)])"
    and "f \<in> set (CameraModel_group m e) \<Longrightarrow>
      ce_splitCount f = ce_splitCount e \<and> ce_splitDirection f = ce_splitDirection e \<and>
      ce_cameraId f = ce_cameraId e \<and>
      ce_cropRect f = computeCropRect (ce_splitIndex f) (ce_splitCount e) (ce_splitDirection e)"
proof -
  let ?M = "mset (map CameraModel_desc (cm_cameras m))"
  let ?n = "cm_nextSplitGroupId m"
  have ok: "TileDesc_plain (CameraModel_desc f) \<or>
      TileDesc_tile ?n (CameraModel_desc f) \<and> TileDesc_complete ?M (CameraModel_desc f)"
    if "f \<in> set (cm_cameras m)" for f
    using assms(1) that by (auto simp: CameraModel_inv_def tiles_ok_def)
  have tile: "TileDesc_tile ?n (CameraModel_desc e)" and complete: "TileDesc_complete ?M (CameraModel_desc e)"
    using ok [OF assms(2)] assms(3) by (auto simp: TileDesc_plain_def CameraModel_desc_def)
  show "CameraModel_validCount (ce_splitCount e) (ce_splitDirection e)"
    using tile by (simp add: TileDesc_tile_def CameraModel_desc_def)
  have "image_mset td_index (mset (map CameraModel_desc (CameraModel_group m e))) =
      mset (map int [0..<nat (ce_splitCount e)])"
    using complete unfolding CameraModel_group_desc
    by (simp add: TileDesc_complete_def) (simp add: CameraModel_desc_def)
  then show "mset (map ce_splitIndex (CameraModel_group m e)) = mset (map int [0..<nat (ce_splitCount e)])"
    by (simp add: image_mset.compositionality comp_def CameraModel_desc_def)
  assume f: "f \<in> set (CameraModel_group m e)"
  then have "CameraModel_desc f \<in># TileDesc_group ?M (CameraModel_desc e)"
    by (metis CameraModel_group_desc image_eqI list.set_map set_mset_mset)
  with complete have "td_count (CameraModel_desc f) = td_count (CameraModel_desc e) \<and>
      td_dir (CameraModel_desc f) = td_dir (CameraModel_desc e) \<and>
      td_cid (CameraModel_desc f) = td_cid (CameraModel_desc e)"
    unfolding TileDesc_complete_def by blast
  then have same: "ce_splitCount f = ce_splitCount e \<and> ce_splitDirection f = ce_splitDirection e \<and>
      ce_cameraId f = ce_cameraId e"
    by (simp add: CameraModel_desc_def)
  moreover from f have "f \<in> set (cm_cameras m)"
    by (simp add: CameraModel_group_def)
  from ok [OF this] same assms(3) have "TileDesc_tile ?n (CameraModel_desc f)"
    by (auto simp: TileDesc_plain_def CameraModel_desc_def)
  ultimately show "ce_splitCount f = ce_splitCount e \<and> ce_splitDirection f = ce_splitDirection e \<and>
      ce_cameraId f = ce_cameraId e \<and>
      ce_cropRect f = computeCropRect (ce_splitIndex f) (ce_splitCount e) (ce_splitDirection e)"
    by (simp add: TileDesc_tile_def CameraModel_desc_def)
qed

lemma QRectF_cover_mset: "mset rs = mset rs' \<Longrightarrow> QRectF_cover rs u v = QRectF_cover rs' u v"
  unfolding QRectF_cover_def by (metis mset_filter size_mset)

lemma CameraModel_inv_group_cover:
  assumes "CameraModel_inv m" "e \<in> set (cm_cameras m)" "1 < ce_splitCount e"
    and "0 \<le> u" "u < 1" "0 \<le> v" "v < 1"
  shows "QRectF_cover (map ce_cropRect (CameraModel_group m e)) u v = 1"
proof -
  note group = CameraModel_inv_group [OF assms(1-3)]
  let ?crop = "\<lambda>i. computeCropRect i (ce_splitCount e) (ce_splitDirection e)"
  have "map ce_cropRect (CameraModel_group m e) = map ?crop (map ce_splitIndex (CameraModel_group m e))"
    using group(3) by (simp add: comp_def)
  then have "mset (map ce_cropRect (CameraModel_group m e)) =
      image_mset ?crop (mset (map ce_splitIndex (CameraModel_group m e)))"
    by (simp only: mset_map)
  also have "\<dots> = image_mset ?crop (mset (map int [0..<nat (ce_splitCount e)]))"
    by (simp only: group(2))
  also have "\<dots> = mset (map ?crop (map int [0..<nat (ce_splitCount e)]))"
    by (simp only: mset_map)
  finally show ?thesis
    using QRectF_cover_mset computeCropRect_cover [OF group(1) assms(4-7)] by metis
qed

section \<open>Snapshots\<close>

lemma CameraModel_byCid_find:
  "CameraModel_byCid snapshot cid =
     (if cid = '''' then None else find (\<lambda>d. cd_cameraId d = cid) (rev snapshot))"
  by (induction snapshot rule: rev_induct) (auto simp: CameraModel_byCid_def)

lemma CameraModel_keys_byCid: "set (CameraModel_keys snapshot) = dom (CameraModel_byCid snapshot)"
proof -
  have "CameraModel_byCid snapshot cid \<noteq> None \<longleftrightarrow>
      cid \<noteq> '''' \<and> (\<exists>d \<in> set snapshot. cd_cameraId d = cid)" for cid
    using find_None_iff [of "\<lambda>d. cd_cameraId d = cid" "rev snapshot"]
    by (simp add: CameraModel_byCid_find del: not_None_eq) blast
  then show ?thesis
    unfolding dom_def by (force simp: CameraModel_keys_def)
qed

text \<open>What a row says of its camera. A split repeats it on every tile.\<close>

definition CameraEntry_status :: "CameraEntry \<Rightarrow> string \<times> bool \<times> string" where
  "CameraEntry_status e = (ce_cameraId e, ce_isOnline e, ce_cameraType e)"

lemma CameraModel_tile_status [simp]:
  "CameraEntry_status (CameraModel_tile orig n d g s k) = CameraEntry_status orig"
  by (simp add: CameraEntry_status_def CameraModel_tile_def)

lemma CameraModel_splitSlotAtIndex_status:
  "CameraEntry_status ` set (cm_cameras (fst (CameraModel_splitSlotAtIndex row n d auto m))) =
     CameraEntry_status ` set (cm_cameras m)"
proof (cases rule: CameraModel_splitSlotAtIndex_cases [of row n d auto m])
  case refused
  then show ?thesis by simp
next
  case (split us orig vs)
  have "CameraEntry_status ` set (CameraModel_tiles orig n d g base 0) = {CameraEntry_status orig}" for g base
    using validCount_range [OF split(3)]
    by (auto simp: CameraModel_tiles_def image_iff intro!: exI [of _ 0])
  then show ?thesis
    by (simp add: CameraModel_splitSlotAtIndex_closed [OF split] Let_def image_Un)
      (simp add: split(1) image_Un)
qed

lemma CameraModel_applyAutoSplitForSlot_status:
  "CameraEntry_status ` set (cm_cameras (fst (CameraModel_applyAutoSplitForSlot tbl slotId m))) =
     CameraEntry_status ` set (cm_cameras m)"
  by (simp add: CameraModel_applyAutoSplitForSlot_def CameraModel_autoSplitForIndex_def Let_def
      CameraModel_splitSlotAtIndex_status)

lemma CameraModel_onStoreUpdated_status:
  "CameraEntry_status ` set (cm_cameras (CameraModel_onStoreUpdated order tbl snapshot m)) =
     (let byCid = CameraModel_byCid snapshot;
          rep = {cid \<in> ce_cameraId ` set (cm_cameras m). byCid cid \<noteq> None} in
      CameraEntry_status ` CameraModel_refreshed byCid ` set (cm_cameras m) \<union>
      (\<lambda>cid. (cid, cd_isOnline (the (byCid cid)), cd_cameraType (the (byCid cid)))) `
        (set (order (CameraModel_keys snapshot)) - rep))"
proof -
  have autos: "CameraEntry_status ` set (cm_cameras
        (foldl (\<lambda>m slotId. fst (CameraModel_applyAutoSplitForSlot tbl slotId m)) m' ids)) =
      CameraEntry_status ` set (cm_cameras m')" for m' ids
    by (induction ids arbitrary: m') (simp_all add: CameraModel_applyAutoSplitForSlot_status)
  have new: "CameraEntry_status ` set (CameraModel_newEntries byCid rep cids n) =
      (\<lambda>cid. (cid, cd_isOnline (the (byCid cid)), cd_cameraType (the (byCid cid)))) ` (set cids - rep)"
    for byCid rep cids n
    by (induction cids arbitrary: n)
      (auto simp: CameraEntry_status_def CameraModel_newEntry_def insert_Diff_if)
  obtain evs where "CameraModel_refresh_rows (CameraModel_byCid snapshot) 0 m =
       m\<lparr>cm_cameras := map (CameraModel_refreshed (CameraModel_byCid snapshot)) (cm_cameras m),
         cm_events := cm_events m @ evs\<rparr>"
    by (rule CameraModel_refresh_all)
  then show ?thesis
    by (simp add: CameraModel_onStoreUpdated_def Let_def autos image_Un new)
qed

lemma CameraModel_onStoreUpdated_rows:
  fixes m :: CameraModel and tbl :: "(string \<times> int) list"
  assumes "set (order (CameraModel_keys snapshot)) = set (CameraModel_keys snapshot)"
  defines "m' \<equiv> CameraModel_onStoreUpdated order tbl snapshot m"
    and "byCid \<equiv> CameraModel_byCid snapshot"
  shows "ce_cameraId ` set (cm_cameras m') = ce_cameraId ` set (cm_cameras m) \<union> dom byCid"
    and "e \<in> set (cm_cameras m') \<Longrightarrow>
      ce_isOnline e = (case byCid (ce_cameraId e) of None \<Rightarrow> False | Some d \<Rightarrow> cd_isOnline d)"
proof -
  note status = CameraModel_onStoreUpdated_status [of order tbl snapshot m,
      unfolded Let_def assms(1) CameraModel_keys_byCid, folded m'_def byCid_def]
  have cid: "ce_cameraId = fst \<circ> CameraEntry_status"
    by (auto simp: CameraEntry_status_def)
  have "ce_cameraId ` set (cm_cameras m') = fst ` CameraEntry_status ` set (cm_cameras m')"
    unfolding cid image_comp ..
  also have "\<dots> = ce_cameraId ` set (cm_cameras m) \<union> dom byCid"
    unfolding status by (force simp: CameraEntry_status_def image_iff image_Un)
  finally show "ce_cameraId ` set (cm_cameras m') = ce_cameraId ` set (cm_cameras m) \<union> dom byCid" .
  assume "e \<in> set (cm_cameras m')"
  then have "CameraEntry_status e \<in> CameraEntry_status ` set (cm_cameras m')"
    by simp
  then show "ce_isOnline e = (case byCid (ce_cameraId e) of None \<Rightarrow> False | Some d \<Rightarrow> cd_isOnline d)"
    unfolding status
    by (auto simp: CameraEntry_status_def CameraModel_refreshed_def split: option.splits)
qed

section \<open>The size of the cards\<close>

text \<open>No operation changes the size that a card starts with.\<close>

definition CameraModel_sized :: "CameraModel \<Rightarrow> bool" where
  "CameraModel_sized m \<longleftrightarrow> list_all (\<lambda>e. ce_width e = 320 \<and> ce_height e = 240) (cm_cameras m)"

named_theorems sized_intros \<open>operations that keep the size of the cards\<close>

lemma CameraModel_sized_same [simp]:
  "CameraModel_sized (CameraModel_emit ev m) = CameraModel_sized m"
  "CameraModel_sized (CameraModel_emitSlotsUpdated m) = CameraModel_sized m"
  by (simp_all add: CameraModel_sized_def)

lemma CameraModel_sized_row:
  assumes "CameraModel_sized m" "ce_width e = 320" "ce_height e = 240"
  shows "CameraModel_sized (m\<lparr>cm_cameras := (cm_cameras m)[i := e]\<rparr>)"
  using assms by (auto simp: CameraModel_sized_def list_all_iff dest!: subsetD [OF set_update_subset_insert])

lemma CameraModel_sized_nth:
  "CameraModel_sized m \<Longrightarrow> i < length (cm_cameras m) \<Longrightarrow>
     ce_width (cm_cameras m ! i) = 320 \<and> ce_height (cm_cameras m ! i) = 240"
  by (simp add: CameraModel_sized_def list_all_length)

lemma CameraModel_swapSlots_sized [sized_intros]:
  assumes "CameraModel_sized m"
  shows "CameraModel_sized (CameraModel_swapSlots i j m)"
proof (cases "i < 0 \<or> j < 0 \<or> int (length (cm_cameras m)) \<le> i \<or> int (length (cm_cameras m)) \<le> j \<or> i = j")
  case True
  with assms show ?thesis by (auto simp: CameraModel_swapSlots_def Let_def)
next
  case False
  then have "nat i < length (cm_cameras m)" "nat j < length (cm_cameras m)" by auto
  note ab = this [THEN CameraModel_sized_nth [OF assms]]
  let ?a = "cm_cameras m ! nat i" and ?b = "cm_cameras m ! nat j"
  have "CameraModel_sized (m\<lparr>cm_cameras := (cm_cameras m)[nat i := CameraEntry_take_content ?a ?b]\<rparr>)"
    using assms ab by (intro CameraModel_sized_row) (simp_all add: CameraEntry_take_content_def)
  from CameraModel_sized_row [OF this, of "CameraEntry_take_content ?b ?a" "nat j"] ab False
  show ?thesis by (simp add: CameraModel_swapSlots_def Let_def CameraEntry_take_content_def)
qed

lemma CameraModel_split_sized [sized_intros]:
  assumes "CameraModel_sized m"
  shows "CameraModel_sized (fst (CameraModel_splitSlotAtIndex row n d auto m))"
proof (cases rule: CameraModel_splitSlotAtIndex_cases [of row n d auto m])
  case (split us orig vs)
  have "list_all (\<lambda>e. ce_width e = 320 \<and> ce_height e = 240) (CameraModel_tiles orig n d g b 0)" for g b
    by (simp add: CameraModel_tiles_def CameraModel_tile_def CameraEntry_default_def list_all_iff)
  with assms show ?thesis
    by (simp add: CameraModel_splitSlotAtIndex_closed [OF split] Let_def CameraModel_sized_def split(1))
qed (use assms in simp)

lemma CameraModel_merge_sized [sized_intros]:
  assumes "CameraModel_sized m"
  shows "CameraModel_sized (fst (CameraModel_mergeGroupByIndex row m))"
proof (cases rule: CameraModel_mergeGroupByIndex_cases [of row m])
  case (merged us first vs g)
  with assms show ?thesis
    by (auto simp: CameraModel_mergeGroupByIndex_closed [OF merged] Let_def CameraModel_sized_def
        CameraModel_merged_def list_all_iff merged(1))
qed (use assms in simp)

lemma CameraModel_auto_sized [sized_intros]:
  "CameraModel_sized m \<Longrightarrow> CameraModel_sized (fst (CameraModel_applyAutoSplitForSlot tbl s m))"
  by (auto simp: CameraModel_applyAutoSplitForSlot_def CameraModel_autoSplitForIndex_def Let_def
      intro: sized_intros)

lemma CameraModel_onStoreUpdated_sized [sized_intros]:
  assumes "CameraModel_sized m"
  shows "CameraModel_sized (CameraModel_onStoreUpdated order tbl snapshot m)"
proof -
  have autos: "CameraModel_sized m' \<Longrightarrow>
      CameraModel_sized (foldl (\<lambda>m s. fst (CameraModel_applyAutoSplitForSlot tbl s m)) m' slots)" for m' slots
    by (induction slots arbitrary: m') (simp_all add: sized_intros)
  obtain evs where refresh: "CameraModel_refresh_rows (CameraModel_byCid snapshot) 0 m =
      m\<lparr>cm_cameras := map (CameraModel_refreshed (CameraModel_byCid snapshot)) (cm_cameras m),
        cm_events := cm_events m @ evs\<rparr>"
    by (rule CameraModel_refresh_all)
  have "list_all (\<lambda>e. ce_width e = 320 \<and> ce_height e = 240) (CameraModel_newEntries h rep cids k)" for h rep cids k
    by (induction cids arbitrary: k) (auto simp: CameraModel_newEntry_def CameraEntry_default_def)
  then show ?thesis
    unfolding CameraModel_onStoreUpdated_def Let_def
    by (intro autos)
      (use assms in \<open>simp add: refresh CameraModel_sized_def CameraModel_refreshed_def list.pred_map comp_def\<close>)
qed

lemma CameraModel_step_sized: "CameraModel_sized m \<Longrightarrow> CameraModel_sized (CameraModel_step tbl m x)"
proof (cases x)
  case (CMO_setOnline i b)
  then show "CameraModel_sized m \<Longrightarrow> ?thesis"
    using CameraModel_sized_nth [of m "nat i"]
    by (auto simp: CameraModel_setOnline_def intro!: CameraModel_sized_row)
next
  case (CMO_setData index s b role)
  then show "CameraModel_sized m \<Longrightarrow> ?thesis"
    using CameraModel_sized_nth [of m]
    by (auto simp: CameraModel_setData_def Let_def intro!: CameraModel_sized_row
        split: option.splits CameraRole.splits)
next
  case (CMO_updateSensorInfo cid h l ti tm)
  then show "CameraModel_sized m \<Longrightarrow> ?thesis"
    by (auto simp: CameraModel_updateSensorInfo_def Let_def CameraModel_sized_def list_all_iff)
next
  case CMO_clearAll
  then show ?thesis by (simp add: CameraModel_clearAll_def Let_def) (simp add: CameraModel_sized_def)
qed (auto simp: CameraModel_splitSlot_def CameraModel_mergeSlots_def Let_def intro: sized_intros)

interpretation camera_sizes: op_system CameraModel_init "CameraModel_step tbl" CameraModel_sized for tbl
  by unfold_locales (rule CameraModel_step_sized | simp add: CameraModel_sized_def CameraModel_init_def)+

section \<open>Split and merge\<close>

lemma CameraModel_mergedTitle_tile:
  assumes "t \<noteq> ''''"
  shows "CameraModel_mergedTitle (t @ '' ['' @ show_nat a @ ''/'' @ show_nat b @ '']'') = t"
proof -
  let ?rest = "show_nat a @ ''/'' @ show_nat b @ '']''"
  have "CHR '' '' \<notin> set ?rest"
    using non_digit_notin_show_nat [of "CHR '' ''"] by (simp add: is_digit_char_def)
  then have "CHR '' '' \<notin> set (CHR ''['' # ?rest)" by simp
  then have "str_last_index (CHR ''['' # ?rest) '' ['' = -1"
    by (intro str_last_index_absent) simp_all
  then have "str_last_index ('' ['' @ ?rest) '' ['' = 0"
    by (simp add: Let_def)
  then have "str_last_index (t @ '' ['' @ ?rest) '' ['' = int (length t)"
    by (rule str_last_index_append)
  with assms show ?thesis
    by (simp add: CameraModel_mergedTitle_def Let_def ends_with_def suffix_def)
qed

lemma CameraModel_inv_groups_below:
  assumes "CameraModel_inv m" "e \<in> set (cm_cameras m)"
  shows "ce_splitGroupId e < cm_nextSplitGroupId m"
proof -
  from assms have "TileDesc_plain (CameraModel_desc e) \<or>
      TileDesc_tile (cm_nextSplitGroupId m) (CameraModel_desc e)" and "1 \<le> cm_nextSplitGroupId m"
    by (auto simp: CameraModel_inv_def tiles_ok_def)
  then show ?thesis
    by (auto simp: TileDesc_plain_def TileDesc_tile_def CameraModel_desc_def)
qed

text \<open>The card that a split and a merge leave in the place of the card \<open>orig\<close>.\<close>

definition CameraModel_remerged :: "CameraEntry \<Rightarrow> int \<Rightarrow> CameraEntry" where
  "CameraModel_remerged orig slotId =
     CameraEntry_default\<lparr>ce_slotId := slotId, ce_title := ce_title orig,
       ce_cameraId := ce_cameraId orig, ce_isOnline := ce_isOnline orig,
       ce_cameraType := ce_cameraType orig, ce_description := ce_description orig,
       ce_splitDirection := SplitCol\<rparr>"

lemma CameraModel_split_then_merge:
  fixes m :: CameraModel and automatic :: bool and k :: int
  assumes inv: "CameraModel_inv m"
    and split: "cm_cameras m = us @ orig # vs" "row = int (length us)" "CameraModel_validCount n d"
      "ce_splitCount orig = 1" "ce_isOnline orig"
    and title: "ce_title orig \<noteq> ''''" and tile: "0 \<le> k" "k < n"
  defines "m1 \<equiv> fst (CameraModel_splitSlotAtIndex row n d automatic m)"
  defines "m2 \<equiv> fst (CameraModel_mergeGroupByIndex (row + k) m1)"
  shows "cm_cameras m2 = us @ CameraModel_remerged orig (cm_nextSlotId m) # vs"
    and "automatic \<Longrightarrow> cm_nextSlotId m \<in> cm_autoSplit m2"
proof -
  let ?g = "cm_nextSplitGroupId m" and ?s = "cm_nextSlotId m"
  let ?tiles = "CameraModel_tiles orig n d ?g ?s 0"
  let ?rest = "CameraModel_tiles orig n d ?g (?s + 1) 1"
  have n: "2 \<le> n" using validCount_range split(3) by blast
  have tiles: "?tiles = CameraModel_tile orig n d ?g ?s 0 # ?rest"
    using CameraModel_tiles_step [of 0 n orig d ?g ?s] n by simp
  have group: "ce_splitGroupId e = ?g" if "e \<in> set ?tiles" for e
    using that by (auto simp: CameraModel_tiles_def CameraModel_tile_def)
  have count: "ce_splitCount e = n" if "e \<in> set ?tiles" for e
    using that by (auto simp: CameraModel_tiles_def CameraModel_tile_def)
  have old: "ce_splitGroupId e \<noteq> ?g" if "e \<in> set us \<union> set vs" for e
    using that CameraModel_inv_groups_below [OF inv, of e] split(1) by auto
  have pos: "0 \<le> ?g" using inv by (simp add: CameraModel_inv_def)
  have len: "length ?tiles = nat n" by (simp add: CameraModel_tiles_def)
  have cams: "cm_cameras m1 = us @ CameraModel_tile orig n d ?g ?s 0 # (?rest @ vs)"
    unfolding m1_def by (simp add: CameraModel_splitSlotAtIndex_closed [OF split] Let_def tiles)
  have rest: "?rest \<noteq> []"
  proof
    assume "?rest = []"
    then have "nat n = 1" using len tiles by simp
    with n show False by simp
  qed
  have nth: "cm_cameras m1 ! nat (row + k) = ?tiles ! nat k"
  proof -
    have "(us @ ?tiles @ vs) ! (length us + nat k) = ?tiles ! nat k"
      using tile len by (simp add: nth_append)
    moreover have "cm_cameras m1 = us @ ?tiles @ vs"
      using cams tiles by simp
    ultimately show ?thesis
      using tile split(2) by (simp add: nat_add_distrib)
  qed
  have kth: "?tiles ! nat k \<in> set ?tiles"
    using tile len by (intro nth_mem) simp
  have merge: "cm_cameras m1 = us @ CameraModel_tile orig n d ?g ?s 0 # (?rest @ vs)"
      "\<forall>e \<in> set us. ce_splitGroupId e \<noteq> ?g"
      "ce_splitGroupId (CameraModel_tile orig n d ?g ?s 0) = ?g" "0 \<le> ?g"
      "\<exists>e \<in> set (?rest @ vs). ce_splitGroupId e = ?g"
      "0 \<le> row + k" "row + k < int (length (cm_cameras m1))"
      "ce_splitGroupId (cm_cameras m1 ! nat (row + k)) = ?g"
      "1 < ce_splitCount (cm_cameras m1 ! nat (row + k))"
  proof -
    show "\<exists>e \<in> set (?rest @ vs). ce_splitGroupId e = ?g"
      using rest group tiles by (cases ?rest) auto
    show "row + k < int (length (cm_cameras m1))"
      using tile split(2) len tiles by (simp add: cams)
  qed (use cams old pos group tiles tile split(2) nth kth count n in auto)
  note closed = CameraModel_mergeGroupByIndex_closed [OF merge]
  have keep: "filter (\<lambda>e. ce_splitGroupId e \<noteq> ?g) (?rest @ vs) = vs"
    using old group tiles by (simp add: filter_empty_conv filter_id_conv)
  have "CameraModel_merged (CameraModel_tile orig n d ?g ?s 0) = CameraModel_remerged orig ?s"
    using CameraModel_mergedTitle_tile [OF title, of 1 "nat n"]
    by (simp add: CameraModel_merged_def CameraModel_tile_def CameraModel_remerged_def
        CameraEntry_default_def)
  then show "cm_cameras m2 = us @ CameraModel_remerged orig (cm_nextSlotId m) # vs"
    unfolding m2_def closed Let_def keep by simp
  assume automatic
  have newer: "ce_slotId e \<noteq> ?s" if "e \<in> set (?rest @ vs)" for e
  proof -
    have "ce_slotId e > ?s" if "e \<in> set ?rest"
      using that by (auto simp: CameraModel_tiles_def CameraModel_tile_def)
    moreover have "ce_slotId e < ?s" if "e \<in> set vs"
      using that inv split(1) by (simp add: CameraModel_inv_def)
    ultimately show ?thesis using that by auto
  qed
  have "?s \<notin> ce_slotId ` {e \<in> set (?rest @ vs). ce_splitGroupId e = ?g}"
  proof
    assume "?s \<in> ce_slotId ` {e \<in> set (?rest @ vs). ce_splitGroupId e = ?g}"
    then obtain e where "?s = ce_slotId e" "e \<in> {e \<in> set (?rest @ vs). ce_splitGroupId e = ?g}"
      by (rule imageE)
    with newer [of e] show False by simp
  qed
  moreover have "?s \<in> cm_autoSplit m1"
  proof -
    have "ce_slotId orig < ?s" using inv split(1) by (simp add: CameraModel_inv_def)
    with \<open>automatic\<close> n show ?thesis
      unfolding m1_def by (simp add: CameraModel_splitSlotAtIndex_closed [OF split] Let_def)
  qed
  ultimately show "?s \<in> cm_autoSplit m2"
    unfolding m2_def closed by (simp add: Let_def)
qed

section \<open>Properties\<close>

text \<open>
  Claim C1. Whatever snapshots, telemetry and calls of the user interface come in whatever
  order, with any auto-split table: the tiles of every split that is on the grid show every
  point of the frame exactly once and are of one camera. The rectangles are the binary64
  values the code computes, so there is neither a gap nor an overlap between thirds.
\<close>

theorem CameraModel_tiles_cover_frame:
  fixes tbl :: "(string \<times> int) list" and ops :: "CameraModel_op list"
  defines "m \<equiv> foldl (CameraModel_step tbl) CameraModel_init ops"
  assumes "e \<in> set (cm_cameras m)" "1 < ce_splitCount e"
    and "0 \<le> u" "u < 1" "0 \<le> v" "v < 1"
  shows "QRectF_cover (map ce_cropRect (CameraModel_group m e)) u v = 1 \<and>
     (\<forall>f \<in> set (CameraModel_group m e). ce_cameraId f = ce_cameraId e)"
proof -
  have inv: "CameraModel_inv m"
    unfolding m_def by (rule camera_model.run_inv)
  show ?thesis
    using CameraModel_inv_group_cover [OF inv assms(2-7)]
      CameraModel_inv_group(3) [OF inv assms(2,3)] by blast
qed

text \<open>One camera, split into three columns.\<close>

definition grid_example_camera :: CameraData where
  "grid_example_camera =
     \<lparr>cd_title = ''cam'', cd_cameraType = ''HANWHA'', cd_isOnline = True, cd_cameraId = ''10.0.0.1/0'',
      cd_deviceInfo = DeviceInfo_default\<rparr>"

definition grid_example :: "CameraModel_op list" where
  "grid_example = [CMO_onStoreUpdated id [grid_example_camera], CMO_splitSlot 0 3 0]"

lemma grid_example_run:
  "map (\<lambda>e. (ce_slotId e, ce_splitCount e, ce_splitIndex e))
     (cm_cameras (foldl (CameraModel_step []) CameraModel_init grid_example)) =
   [(1, 3, 0), (2, 3, 1), (3, 3, 2)]"
  by code_simp

theorem CameraModel_tiles_cover_frame_witness:
  "QRectF_cover (map ce_cropRect (CameraModel_group
     (foldl (CameraModel_step []) CameraModel_init grid_example)
     (hd (cm_cameras (foldl (CameraModel_step []) CameraModel_init grid_example))))) (1 / 3) (1 / 2) = 1"
proof -
  let ?cams = "cm_cameras (foldl (CameraModel_step []) CameraModel_init grid_example)"
  have "?cams \<noteq> [] \<and> ce_splitCount (hd ?cams) = 3"
    using grid_example_run by (cases ?cams) auto
  then have "hd ?cams \<in> set ?cams" "1 < ce_splitCount (hd ?cams)"
    by simp_all
  then show ?thesis
    using CameraModel_tiles_cover_frame [of "hd ?cams" "[]" grid_example "1 / 3" "1 / 2"] by simp
qed

text \<open>
  Claim C15. After any sequence of calls the slot ids on the grid are distinct, and every query
  by slot id answers from the row that has it.
\<close>

theorem CameraModel_slots_identify_rows:
  fixes tbl :: "(string \<times> int) list" and ops :: "CameraModel_op list"
  defines "m \<equiv> foldl (CameraModel_step tbl) CameraModel_init ops"
  shows "distinct (map ce_slotId (cm_cameras m)) \<and>
     list_all (\<lambda>e. cm_cameras m ! nat (CameraModel_rowForSlot m (ce_slotId e)) = e \<and>
        CameraModel_hasSlot m (ce_slotId e) \<and>
        CameraModel_titleForSlot m (ce_slotId e) = ce_title e \<and>
        CameraModel_isOnlineForSlot m (ce_slotId e) = ce_isOnline e \<and>
        CameraModel_cropRectForSlot m (ce_slotId e) = ce_cropRect e \<and>
        CameraModel_cameraIdForSlot m (ce_slotId e) = ce_cameraId e \<and>
        CameraModel_isSlotSplit m (ce_slotId e) = (1 < ce_splitCount e)) (cm_cameras m) \<and>
     (CameraModel_hasSlot m s = (s \<in> ce_slotId ` set (cm_cameras m)))"
proof -
  have "CameraModel_inv m"
    unfolding m_def by (rule camera_model.run_inv)
  then have dist: "distinct (map ce_slotId (cm_cameras m))"
    by (simp add: CameraModel_inv_def)
  have row: "\<not> CameraModel_indexBySlotId m (ce_slotId e) < 0"
      "cm_cameras m ! nat (CameraModel_indexBySlotId m (ce_slotId e)) = e"
    if "e \<in> set (cm_cameras m)" for e
    using camera_slots.idx_row [OF TrueI dist that] by simp_all
  note queries = CameraModel_rowForSlot_def CameraModel_hasSlot_def CameraModel_titleForSlot_def
    CameraModel_isOnlineForSlot_def CameraModel_cropRectForSlot_def CameraModel_cameraIdForSlot_def
    CameraModel_isSlotSplit_def Let_def
  have "CameraModel_hasSlot m s = (s \<in> ce_slotId ` set (cm_cameras m))"
    using camera_slots.idx_found_iff [OF TrueI, of m s] by (simp add: queries)
  then show ?thesis
    using dist by (simp only: list_all_iff) (simp add: queries row not_less [symmetric])
qed

text \<open>
  Claim C17. A snapshot brings the grid up to date, whatever the order of the hash, the
  auto-split table and the state before: the cameras on the grid are those from before and
  those of the snapshot with a non-empty id, and a card is online exactly if the last entry
  of the snapshot with its camera id is.
\<close>

theorem CameraModel_snapshot_on_grid:
  fixes m :: CameraModel and tbl :: "(string \<times> int) list" and snapshot :: "CameraData list"
  assumes "\<And>ks. set (order ks) = set ks"
  defines "m' \<equiv> CameraModel_onStoreUpdated order tbl snapshot m"
  shows "ce_cameraId ` set (cm_cameras m') =
       ce_cameraId ` set (cm_cameras m) \<union> (cd_cameraId ` set snapshot - {''''}) \<and>
     list_all (\<lambda>e. ce_isOnline e \<longleftrightarrow> ce_cameraId e \<noteq> '''' \<and>
        (case find (\<lambda>d. cd_cameraId d = ce_cameraId e) (rev snapshot) of
           None \<Rightarrow> False | Some d \<Rightarrow> cd_isOnline d)) (cm_cameras m')"
proof -
  have keys: "set (order (CameraModel_keys snapshot)) = set (CameraModel_keys snapshot)"
    by (rule assms(1))
  have "dom (CameraModel_byCid snapshot) = cd_cameraId ` set snapshot - {''''}"
    unfolding CameraModel_keys_byCid [symmetric] by (auto simp: CameraModel_keys_def)
  then show ?thesis
    using CameraModel_onStoreUpdated_rows [where order = order and snapshot = snapshot and tbl = tbl and m = m]
      keys
    by (simp add: m'_def list_all_iff CameraModel_byCid_find)
qed

theorem CameraModel_snapshot_on_grid_witness:
  "ce_cameraId ` set (cm_cameras (CameraModel_onStoreUpdated rev [] [grid_example_camera] CameraModel_init)) =
     {''10.0.0.1/0''}"
  using CameraModel_snapshot_on_grid [where order = rev and snapshot = "[grid_example_camera]" and
      tbl = "[]" and m = CameraModel_init]
  by (simp add: CameraModel_init_def grid_example_camera_def)

text \<open>
  Claim C11. Splitting a card with a title and merging the group again at any of its tiles restores
  the grid: the rows around the card are untouched, and the card has its title, camera, state,
  size and place in no group back. What it does not get back are its slot id, which is that of the
  first tile, its sensor data, which are the defaults, and its split direction, of which nothing is
  claimed: the code resets it to the columns, which are not the default of the header. After an
  automatic split the merged card is not split automatically again. Without a title the suffix of
  the first tile would stay.
\<close>

theorem CameraModel_split_merge_roundtrip:
  fixes tbl tbl' :: "(string \<times> int) list" and ops :: "CameraModel_op list" and automatic :: bool
  defines "m \<equiv> foldl (CameraModel_step tbl) CameraModel_init ops"
  assumes "cm_cameras m = us @ orig # vs" "CameraModel_validCount n d" "ce_splitCount orig = 1"
    "ce_isOnline orig" "ce_title orig \<noteq> ''''" "0 \<le> k" "k < n"
  defines "m1 \<equiv> fst (CameraModel_splitSlotAtIndex (int (length us)) n d automatic m)"
  defines "m2 \<equiv> fst (CameraModel_mergeGroupByIndex (int (length us) + k) m1)"
  shows "(\<exists>direction. cm_cameras m2 =
      us @ orig\<lparr>ce_slotId := cm_nextSlotId m, ce_splitDirection := direction, ce_deviceInfo := DeviceInfo_default\<rparr> # vs) \<and>
    (automatic \<longrightarrow> CameraModel_applyAutoSplitForSlot tbl' (cm_nextSlotId m) m2 = (m2, False))"
proof (intro conjI impI)
  have inv: "CameraModel_inv m"
    unfolding m_def by (rule camera_model.run_inv)
  note both = CameraModel_split_then_merge [OF inv assms(2) refl assms(3-8), of automatic,
      folded m1_def, folded m2_def]
  note cams = both(1)
  have orig: "orig \<in> set (cm_cameras m)" using assms(2) by simp
  have "CameraModel_sized m" unfolding m_def by (rule camera_sizes.run_inv)
  with orig have "ce_width orig = 320" "ce_height orig = 240"
    by (simp_all add: CameraModel_sized_def list_all_iff)
  with CameraModel_inv_plain [OF inv orig assms(4)] assms(4)
  have "CameraModel_remerged orig (cm_nextSlotId m) =
      orig\<lparr>ce_slotId := cm_nextSlotId m, ce_splitDirection := SplitCol, ce_deviceInfo := DeviceInfo_default\<rparr>"
    by (simp add: CameraModel_remerged_def CameraEntry_default_def TileDesc_plain_def CameraModel_desc_def
        CameraEntry.equality)
  with cams show "\<exists>direction. cm_cameras m2 =
      us @ orig\<lparr>ce_slotId := cm_nextSlotId m, ce_splitDirection := direction, ce_deviceInfo := DeviceInfo_default\<rparr> # vs"
    by auto
  assume automatic
  have "CameraModel_inv m2"
    unfolding m2_def m1_def by (intro inv_intros inv)
  then have dist: "distinct (map ce_slotId (cm_cameras m2))"
    by (simp add: CameraModel_inv_def)
  have slot: "ce_slotId (CameraModel_remerged orig (cm_nextSlotId m)) = cm_nextSlotId m"
    by (simp add: CameraModel_remerged_def)
  have "cm_cameras m2 ! nat (CameraModel_indexBySlotId m2 (cm_nextSlotId m)) =
      CameraModel_remerged orig (cm_nextSlotId m)"
    using camera_slots.idx_row [OF TrueI dist, of "CameraModel_remerged orig (cm_nextSlotId m)"] cams slot
    by simp
  with both(2) [OF \<open>automatic\<close>] slot
  show "CameraModel_applyAutoSplitForSlot tbl' (cm_nextSlotId m) m2 = (m2, False)"
    by (simp add: CameraModel_applyAutoSplitForSlot_def CameraModel_autoSplitForIndex_def Let_def)
qed

theorem CameraModel_split_merge_roundtrip_witness:
  "map (\<lambda>e. (ce_slotId e, ce_title e)) (cm_cameras (fst (CameraModel_mergeGroupByIndex 2
     (fst (CameraModel_splitSlotAtIndex 0 3 SplitCol True
       (foldl (CameraModel_step []) CameraModel_init [CMO_onStoreUpdated id [grid_example_camera]]))))))
   = [(1, ''cam'')]"
proof -
  let ?m = "foldl (CameraModel_step []) CameraModel_init [CMO_onStoreUpdated id [grid_example_camera]]"
  let ?e = "CameraModel_newEntry 0 ''10.0.0.1/0'' grid_example_camera"
  have rows: "cm_cameras ?m = [] @ ?e # []" and ids: "cm_nextSlotId ?m = 1"
    by code_simp+
  have e: "CameraModel_validCount 3 SplitCol" "ce_splitCount ?e = 1" "ce_isOnline ?e" "ce_title ?e = ''cam''"
    by (simp_all add: CameraModel_validCount_def CameraModel_newEntry_def grid_example_camera_def)
  from CameraModel_split_merge_roundtrip [OF rows e(1,2,3), of 2 True "[]"] e(4) obtain direction where
    "cm_cameras (fst (CameraModel_mergeGroupByIndex 2 (fst (CameraModel_splitSlotAtIndex 0 3 SplitCol True ?m)))) =
     [?e\<lparr>ce_slotId := 1, ce_splitDirection := direction, ce_deviceInfo := DeviceInfo_default\<rparr>]"
    unfolding ids by (auto simp del: foldl.simps)
  then show ?thesis using e(4) by simp
qed

text \<open>
  A swap of two rows exchanges what they show and nothing else: the slot ids stay in
  their rows, the other rows stay as they are and a second swap restores the grid. The sensor
  data stays with the slot too, so the row that shows camera B now has the readings of camera A.
\<close>

theorem CameraModel_swap_exchanges_content:
  fixes m :: CameraModel and i j :: int
  assumes "0 \<le> i" "i < int (length (cm_cameras m))" "0 \<le> j" "j < int (length (cm_cameras m))" "i \<noteq> j"
  defines "m' \<equiv> CameraModel_swapSlots i j m"
  shows "map ce_slotId (cm_cameras m') = map ce_slotId (cm_cameras m) \<and>
     map ce_deviceInfo (cm_cameras m') = map ce_deviceInfo (cm_cameras m) \<and>
     CameraModel_data m' (Some (nat i)) (Some role) =
       CameraModel_data m (Some (if role = SlotIdRole then nat i else nat j)) (Some role) \<and>
     CameraModel_data m' (Some (nat j)) (Some role) =
       CameraModel_data m (Some (if role = SlotIdRole then nat j else nat i)) (Some role) \<and>
     (k = nat i \<or> k = nat j \<or>
       CameraModel_data m' (Some k) (Some role) = CameraModel_data m (Some k) (Some role)) \<and>
     cm_cameras (CameraModel_swapSlots i j m') = cm_cameras m"
proof -
  let ?c = "cm_cameras m" and ?i = "nat i" and ?j = "nat j"
  have rng: "?i < length ?c" "?j < length ?c" "?i \<noteq> ?j"
    using assms by auto
  have cams: "cm_cameras m' = ?c[?i := CameraEntry_take_content (?c ! ?i) (?c ! ?j),
      ?j := CameraEntry_take_content (?c ! ?j) (?c ! ?i)]"
    using assms by (simp add: CameraModel_swapSlots_def Let_def)
  have dev: "ce_deviceInfo (CameraEntry_take_content a b) = ce_deviceInfo a" for a b
    by (simp add: CameraEntry_take_content_def)
  have data: "CameraEntry_data (CameraEntry_take_content a b) r =
      CameraEntry_data (if r = SlotIdRole then a else b) r" for a b r
    by (cases r) (simp_all add: CameraEntry_take_content_def CameraEntry_data_def)
  have twice: "CameraEntry_take_content (CameraEntry_take_content a b) (CameraEntry_take_content b a) = a"
    for a b
    by (simp add: CameraEntry_take_content_def)
  have "cm_cameras (CameraModel_swapSlots i j m') = ?c"
    using assms(1-5) rng cams
    by (simp add: CameraModel_swapSlots_def Let_def twice list_update_swap [of ?i ?j])
  moreover have "map ce_slotId (cm_cameras m') = map ce_slotId ?c"
      "map ce_deviceInfo (cm_cameras m') = map ce_deviceInfo ?c"
    using rng unfolding cams by (simp_all add: map_list_update_same dev)
  moreover have "k = ?i \<or> k = ?j \<or> cm_cameras m' ! k = ?c ! k"
    unfolding cams by (metis nth_list_update_neq)
  moreover have "cm_cameras m' ! ?i = CameraEntry_take_content (?c ! ?i) (?c ! ?j)"
      "cm_cameras m' ! ?j = CameraEntry_take_content (?c ! ?j) (?c ! ?i)"
      "length (cm_cameras m') = length ?c"
    using rng unfolding cams by simp_all
  ultimately show ?thesis
    using rng unfolding CameraModel_data_def by (auto simp: data)
qed

theorem CameraModel_swap_exchanges_content_witness:
  "map ce_slotId (cm_cameras (CameraModel_swapSlots 0 2 (foldl (CameraModel_step []) CameraModel_init grid_example))) =
   [1, 2, 3]"
proof -
  let ?m = "foldl (CameraModel_step []) CameraModel_init grid_example"
  have "map fst (map (\<lambda>e. (ce_slotId e, ce_splitCount e, ce_splitIndex e)) (cm_cameras ?m)) = [1, 2, 3]"
    unfolding grid_example_run by simp
  then have slots: "map ce_slotId (cm_cameras ?m) = [1, 2, 3]"
    by (simp add: comp_def)
  then have "length (cm_cameras ?m) = 3"
    by (metis length_map length_Cons list.size(3) numeral_3_eq_3)
  then show ?thesis
    using CameraModel_swap_exchanges_content [of 0 ?m 2] slots by simp
qed

text \<open>
  With the auto-split table of this commit, which is empty, a snapshot never splits a
  card: the rows from before keep their slots and places, and the new cameras follow.
\<close>

theorem CameraModel_no_auto_split:
  "\<exists>new. map (\<lambda>e. (ce_slotId e, ce_cameraId e, ce_splitCount e))
       (cm_cameras (CameraModel_onStoreUpdated order AUTO_SPLIT_CAMERA_ID_TILE_MAP snapshot m)) =
     map (\<lambda>e. (ce_slotId e, ce_cameraId e, ce_splitCount e)) (cm_cameras m) @ new"
proof -
  have none: "CameraModel_splitSlotAtIndex i 1 SplitCol b m' = (m', False)" for i b m'
    by (simp add: CameraModel_splitSlotAtIndex_def CameraModel_validCount_def)
  have "fst (CameraModel_applyAutoSplitForSlot AUTO_SPLIT_CAMERA_ID_TILE_MAP s m') = m'" for s m'
    by (simp add: CameraModel_applyAutoSplitForSlot_def CameraModel_autoSplitForIndex_def
        AUTO_SPLIT_CAMERA_ID_TILE_MAP_def Let_def none)
  then have autos: "foldl (\<lambda>m slotId. fst (CameraModel_applyAutoSplitForSlot
      AUTO_SPLIT_CAMERA_ID_TILE_MAP slotId m)) m' ids = m'" for m' ids
    by (induction ids) simp_all
  obtain evs where "CameraModel_refresh_rows (CameraModel_byCid snapshot) 0 m =
       m\<lparr>cm_cameras := map (CameraModel_refreshed (CameraModel_byCid snapshot)) (cm_cameras m),
         cm_events := cm_events m @ evs\<rparr>"
    by (rule CameraModel_refresh_all)
  then show ?thesis
    by (simp add: CameraModel_onStoreUpdated_def Let_def autos comp_def)
qed

text \<open>The type of the value of every role, with the range of its numbers.\<close>

definition QRectF_in_frame :: "QRectF \<Rightarrow> bool" where
  "QRectF_in_frame r \<longleftrightarrow>
     0 \<le> rect_x r \<and> 0 < rect_w r \<and> rect_x r + rect_w r \<le> 1 \<and>
     0 \<le> rect_y r \<and> 0 < rect_h r \<and> rect_y r + rect_h r \<le> 1"

fun role_type :: "CameraRole \<Rightarrow> CameraValue \<Rightarrow> bool" where
  "role_type SlotIdRole (CV_int i) = (0 \<le> i)"
| "role_type TitleRole (CV_string s) = True"
| "role_type IsOnlineRole (CV_bool b) = True"
| "role_type DescriptionRole (CV_string s) = True"
| "role_type CardWidthRole (CV_int i) = True"
| "role_type CardHeightRole (CV_int i) = True"
| "role_type CameraTypeRole (CV_string s) = True"
| "role_type SplitCountRole (CV_int n) = (1 \<le> n \<and> n \<le> 4)"
| "role_type CropRectRole (CV_rect r) = QRectF_in_frame r"
| "role_type SplitDirectionRole (CV_int n) = (0 \<le> n \<and> n \<le> 3)"
| "role_type CameraIdRole (CV_string s) = True"
| "role_type role v = False"

lemma computeCropRect_in_frame:
  assumes "CameraModel_validCount n d" "0 \<le> i" "i < n"
  shows "QRectF_in_frame (computeCropRect i n d)"
proof -
  have all: "list_all QRectF_in_frame (map (\<lambda>i. computeCropRect i 2 SplitCol) [0, 1]) \<and>
      list_all QRectF_in_frame (map (\<lambda>i. computeCropRect i 3 SplitCol) [0, 1, 2]) \<and>
      list_all QRectF_in_frame (map (\<lambda>i. computeCropRect i 4 SplitCol) [0, 1, 2, 3]) \<and>
      list_all QRectF_in_frame (map (\<lambda>i. computeCropRect i 2 SplitRow) [0, 1]) \<and>
      list_all QRectF_in_frame (map (\<lambda>i. computeCropRect i 3 SplitRow) [0, 1, 2]) \<and>
      list_all QRectF_in_frame (map (\<lambda>i. computeCropRect i 4 SplitGrid) [0, 1, 2, 3])"
    unfolding crops_col_2 crops_col_3 crops_col_4 crops_row_2 crops_row_3 crops_grid
    by (simp add: QRectF_in_frame_def)
  have "(d, n) \<in> {(SplitCol, 2), (SplitCol, 3), (SplitCol, 4), (SplitRow, 2), (SplitRow, 3), (SplitGrid, 4)}"
    using assms(1) by (cases d) (auto simp: CameraModel_validCount_def)
  moreover have "i = 0 \<or> i = 1 \<or> i = 2 \<or> i = 3"
    using assms validCount_range [OF assms(1)] by auto
  ultimately show ?thesis
    using all assms(3) by (elim insertE disjE emptyE) simp_all
qed

lemma CameraEntry_data_typed:
  assumes "CameraModel_inv m" "e \<in> set (cm_cameras m)"
  shows "role_type role (CameraEntry_data e role)"
proof -
  have "TileDesc_plain (CameraModel_desc e) \<or> TileDesc_tile (cm_nextSplitGroupId m) (CameraModel_desc e)"
    using assms by (auto simp: CameraModel_inv_def tiles_ok_def)
  then have "1 \<le> ce_splitCount e \<and> ce_splitCount e \<le> 4 \<and> QRectF_in_frame (ce_cropRect e)"
  proof
    assume "TileDesc_plain (CameraModel_desc e)"
    then show ?thesis
      by (simp add: TileDesc_plain_def CameraModel_desc_def QRectF_in_frame_def)
  next
    assume "TileDesc_tile (cm_nextSplitGroupId m) (CameraModel_desc e)"
    then have "CameraModel_validCount (ce_splitCount e) (ce_splitDirection e)"
      "0 \<le> ce_splitIndex e" "ce_splitIndex e < ce_splitCount e"
      "ce_cropRect e = computeCropRect (ce_splitIndex e) (ce_splitCount e) (ce_splitDirection e)"
      by (simp_all add: TileDesc_tile_def CameraModel_desc_def)
    with computeCropRect_in_frame [OF this(1-3)] validCount_range [OF this(1)] show ?thesis by simp
  qed
  moreover have "0 \<le> ce_slotId e" using assms by (auto simp: CameraModel_inv_def)
  moreover have "0 \<le> SplitDirection_int d \<and> SplitDirection_int d \<le> 3" for d by (cases d) simp_all
  ultimately show ?thesis
    by (cases role) (simp_all add: CameraEntry_data_def)
qed

text \<open>
  Claim C37. After any calls every row of the grid gives a view a value of the type of each role,
  slot ids that are not negative, one to four tiles, a direction of the enumeration and a crop
  rectangle inside the frame; every role has one name and no name stands for two roles. The view
  gets an invalid value exactly if the index is invalid or behind the last row or the role is
  none of the model's.
\<close>

theorem CameraModel_values_typed:
  fixes tbl :: "(string \<times> int) list" and ops :: "CameraModel_op list"
  defines "m \<equiv> foldl (CameraModel_step tbl) CameraModel_init ops"
  shows "list_all (\<lambda>row. list_all (\<lambda>(role, name). role_type role (CameraModel_data m (Some row) (Some role)))
      CameraModel_roleNames) [0..<nat (CameraModel_rowCount m False)] \<and>
    distinct (map fst CameraModel_roleNames) \<and> distinct (map snd CameraModel_roleNames) \<and>
    role \<in> fst ` set CameraModel_roleNames \<and>
    (CameraModel_data m index orole = CV_invalid) =
      (case index of None \<Rightarrow> True | Some row \<Rightarrow> CameraModel_rowCount m False \<le> int row \<or> orole = None)"
proof (intro conjI)
  have inv: "CameraModel_inv m" unfolding m_def by (rule camera_model.run_inv)
  have typed: "role_type role (CameraModel_data m (Some row) (Some role))"
    if "row < length (cm_cameras m)" for row role
    using CameraEntry_data_typed [OF inv nth_mem [OF that], of role] that
    by (simp add: CameraModel_data_def)
  then show "list_all (\<lambda>row. list_all (\<lambda>(role, name). role_type role (CameraModel_data m (Some row) (Some role)))
      CameraModel_roleNames) [0..<nat (CameraModel_rowCount m False)]"
    by (auto simp: list_all_iff CameraModel_rowCount_def)
  have "\<not> role_type role CV_invalid" for role by (cases role) simp_all
  with typed have "CameraModel_data m (Some row) (Some role) \<noteq> CV_invalid"
    if "row < length (cm_cameras m)" for row role
    using that by metis
  then show "(CameraModel_data m index orole = CV_invalid) =
      (case index of None \<Rightarrow> True | Some row \<Rightarrow> CameraModel_rowCount m False \<le> int row \<or> orole = None)"
    by (cases index; cases orole) (auto simp: CameraModel_data_def CameraModel_rowCount_def not_le)
  show "role \<in> fst ` set CameraModel_roleNames"
    by (cases role) (simp_all add: CameraModel_roleNames_def)
qed (simp_all add: CameraModel_roleNames_def)

end
