(* ===== verification/DeviceModel.thy ===== *)
theory DeviceModel
  imports DeviceStore
begin

text \<open>
  Qt/Back/Models/DeviceModel.hpp and Qt/Back/Models/DeviceModel.cpp: the list model of the device
  page. The rows are found through a hash from ips to row indices, which is rebuilt only at
  the end of an update. Notifications are recorded as in CameraModel.thy.
\<close>

section \<open>Data\<close>

record DeviceEntry =
  de_ip :: string
  de_cameraId :: string
  de_type :: string
  de_isOnline :: bool
  de_cpu :: double
  de_memory :: double
  de_temp :: double
  de_uptime :: int
  de_lastUpdate :: int
  de_hasMotor :: bool
  de_hasIr :: bool
  de_hasHeater :: bool
  de_history :: "DeviceSnapshot list"

datatype DeviceRole =
    Device_IpRole | Device_CameraIdRole | Device_TypeRole | Device_IsOnlineRole | Device_CpuRole
  | Device_MemoryRole | Device_TempRole | Device_UptimeRole | Device_HasMotorRole | Device_HasIrRole
  | Device_HasHeaterRole

datatype DeviceValue = DV_invalid | DV_string string | DV_bool bool | DV_double double | DV_int int

datatype DeviceModel_event =
    DM_dataChanged int
  | DM_beginInsertRows int int
  | DM_endInsertRows
  | DM_beginResetModel
  | DM_endResetModel
  | DM_historyUpdated string

record DeviceModel =
  dmo_devices :: "DeviceEntry list"
  dmo_byIp :: "string \<rightharpoonup> nat"
  dmo_events :: "DeviceModel_event list"

definition DeviceModel_init :: DeviceModel where
  "DeviceModel_init = \<lparr>dmo_devices = [], dmo_byIp = Map.empty, dmo_events = []\<rparr>"

section \<open>Lookup\<close>

definition DeviceModel_findIndexByIp :: "DeviceModel \<Rightarrow> string \<Rightarrow> int" where
  "DeviceModel_findIndexByIp m ip = (case dmo_byIp m ip of Some i \<Rightarrow> int i | None \<Rightarrow> -1)"

definition DeviceModel_hasDevice :: "DeviceModel \<Rightarrow> string \<Rightarrow> bool" where
  "DeviceModel_hasDevice m ip \<longleftrightarrow> 0 \<le> DeviceModel_findIndexByIp m ip"

definition DeviceModel_cameraId :: "DeviceModel \<Rightarrow> string \<Rightarrow> string" where
  "DeviceModel_cameraId m ip =
     (let idx = DeviceModel_findIndexByIp m ip
      in if 0 \<le> idx then de_cameraId (dmo_devices m ! nat idx) else '''')"

definition DeviceModel_cpu :: "DeviceModel \<Rightarrow> string \<Rightarrow> double" where
  "DeviceModel_cpu m ip =
     (let idx = DeviceModel_findIndexByIp m ip
      in if 0 \<le> idx then de_cpu (dmo_devices m ! nat idx) else 0)"

definition DeviceModel_memory :: "DeviceModel \<Rightarrow> string \<Rightarrow> double" where
  "DeviceModel_memory m ip =
     (let idx = DeviceModel_findIndexByIp m ip
      in if 0 \<le> idx then de_memory (dmo_devices m ! nat idx) else 0)"

definition DeviceModel_temp :: "DeviceModel \<Rightarrow> string \<Rightarrow> double" where
  "DeviceModel_temp m ip =
     (let idx = DeviceModel_findIndexByIp m ip
      in if 0 \<le> idx then de_temp (dmo_devices m ! nat idx) else 0)"

text \<open>A history entry of the result is a map of exactly the five fields of a snapshot.\<close>

definition DeviceModel_getHistory :: "DeviceModel \<Rightarrow> string \<Rightarrow> DeviceSnapshot list" where
  "DeviceModel_getHistory m ip =
     (let idx = DeviceModel_findIndexByIp m ip
      in if idx < 0 then [] else de_history (dmo_devices m ! nat idx))"

definition DeviceModel_findIndexByCameraId :: "DeviceModel \<Rightarrow> string \<Rightarrow> int" where
  "DeviceModel_findIndexByCameraId m cameraId = index_where (\<lambda>d. de_cameraId d = cameraId) (dmo_devices m)"

definition DeviceModel_deviceIp :: "DeviceModel \<Rightarrow> string \<Rightarrow> string" where
  "DeviceModel_deviceIp m cameraId =
     (let idx = DeviceModel_findIndexByCameraId m cameraId
      in if 0 \<le> idx then de_ip (dmo_devices m ! nat idx) else '''')"

definition DeviceModel_hasMotor :: "DeviceModel \<Rightarrow> string \<Rightarrow> bool" where
  "DeviceModel_hasMotor m cameraId =
     (let idx = DeviceModel_findIndexByCameraId m cameraId
      in if 0 \<le> idx then de_hasMotor (dmo_devices m ! nat idx) else False)"

definition DeviceModel_hasIr :: "DeviceModel \<Rightarrow> string \<Rightarrow> bool" where
  "DeviceModel_hasIr m cameraId =
     (let idx = DeviceModel_findIndexByCameraId m cameraId
      in if 0 \<le> idx then de_hasIr (dmo_devices m ! nat idx) else False)"

definition DeviceModel_hasHeater :: "DeviceModel \<Rightarrow> string \<Rightarrow> bool" where
  "DeviceModel_hasHeater m cameraId =
     (let idx = DeviceModel_findIndexByCameraId m cameraId
      in if 0 \<le> idx then de_hasHeater (dmo_devices m ! nat idx) else False)"

definition DeviceModel_hasDeviceByCameraId :: "DeviceModel \<Rightarrow> string \<Rightarrow> bool" where
  "DeviceModel_hasDeviceByCameraId m cameraId \<longleftrightarrow> 0 \<le> DeviceModel_findIndexByCameraId m cameraId"

definition DeviceModel_rowCount :: "DeviceModel \<Rightarrow> bool \<Rightarrow> int" where
  "DeviceModel_rowCount m parent_valid = (if parent_valid then 0 else int (length (dmo_devices m)))"

definition DeviceModel_data :: "DeviceModel \<Rightarrow> nat option \<Rightarrow> DeviceRole option \<Rightarrow> DeviceValue" where
  "DeviceModel_data m index role =
     (case index of
        None \<Rightarrow> DV_invalid
      | Some row \<Rightarrow>
          if length (dmo_devices m) \<le> row then DV_invalid
          else
            let d = dmo_devices m ! row in
            (case role of
               Some Device_IpRole \<Rightarrow> DV_string (de_ip d)
             | Some Device_CameraIdRole \<Rightarrow> DV_string (de_cameraId d)
             | Some Device_TypeRole \<Rightarrow> DV_string (de_type d)
             | Some Device_IsOnlineRole \<Rightarrow> DV_bool (de_isOnline d)
             | Some Device_CpuRole \<Rightarrow> DV_double (de_cpu d)
             | Some Device_MemoryRole \<Rightarrow> DV_double (de_memory d)
             | Some Device_TempRole \<Rightarrow> DV_double (de_temp d)
             | Some Device_UptimeRole \<Rightarrow> DV_int (de_uptime d)
             | Some Device_HasMotorRole \<Rightarrow> DV_bool (de_hasMotor d)
             | Some Device_HasIrRole \<Rightarrow> DV_bool (de_hasIr d)
             | Some Device_HasHeaterRole \<Rightarrow> DV_bool (de_hasHeater d)
             | None \<Rightarrow> DV_invalid))"

definition DeviceModel_roleNames :: "(DeviceRole \<times> string) list" where
  "DeviceModel_roleNames =
     [(Device_IpRole, ''ip''), (Device_CameraIdRole, ''cameraId''), (Device_TypeRole, ''type''),
      (Device_IsOnlineRole, ''isOnline''), (Device_CpuRole, ''cpu''), (Device_MemoryRole, ''memory''),
      (Device_TempRole, ''temp''), (Device_UptimeRole, ''uptime''),
      (Device_HasMotorRole, ''hasMotor''), (Device_HasIrRole, ''hasIr''),
      (Device_HasHeaterRole, ''hasHeater'')]"

section \<open>Updates\<close>

text \<open>The update of an existing row assigns everything except the ip.\<close>

definition DeviceEntry_assign :: "DeviceEntry \<Rightarrow> DeviceIntegrated \<Rightarrow> DeviceEntry" where
  "DeviceEntry_assign e snap =
     e\<lparr>de_cameraId := d_cameraId snap, de_type := d_type snap, de_isOnline := d_isOnline snap,
       de_cpu := d_cpu snap, de_memory := d_memory snap, de_temp := d_temp snap,
       de_uptime := d_uptime snap, de_lastUpdate := d_lastUpdate snap,
       de_hasMotor := d_hasMotor snap, de_hasIr := d_hasIr snap, de_hasHeater := d_hasHeater snap,
       de_history := d_history snap\<rparr>"

definition DeviceEntry_of :: "DeviceIntegrated \<Rightarrow> DeviceEntry" where
  "DeviceEntry_of snap =
     \<lparr>de_ip = d_ip snap, de_cameraId = d_cameraId snap, de_type = d_type snap,
      de_isOnline = d_isOnline snap, de_cpu = d_cpu snap, de_memory = d_memory snap,
      de_temp = d_temp snap, de_uptime = d_uptime snap, de_lastUpdate = d_lastUpdate snap,
      de_hasMotor = d_hasMotor snap, de_hasIr = d_hasIr snap, de_hasHeater = d_hasHeater snap,
      de_history = d_history snap\<rparr>"

text \<open>One element of the snapshot. The hash is not touched.\<close>

definition DeviceModel_apply :: "DeviceModel \<Rightarrow> DeviceIntegrated \<Rightarrow> DeviceModel" where
  "DeviceModel_apply m snap =
     (let ip = d_ip snap; idx = DeviceModel_findIndexByIp m ip in
      if 0 \<le> idx then
        m\<lparr>dmo_devices := (dmo_devices m)[nat idx := DeviceEntry_assign (dmo_devices m ! nat idx) snap],
          dmo_events := dmo_events m @ [DM_dataChanged idx, DM_historyUpdated ip]\<rparr>
      else
        let n = int (length (dmo_devices m)) in
        m\<lparr>dmo_devices := dmo_devices m @ [DeviceEntry_of snap],
          dmo_events := dmo_events m @ [DM_beginInsertRows n n, DM_endInsertRows, DM_historyUpdated ip]\<rparr>)"

text \<open>The rebuild of the hash: a later row with the same ip overwrites an earlier one.\<close>

fun DeviceModel_rebuild :: "nat \<Rightarrow> DeviceEntry list \<Rightarrow> (string \<rightharpoonup> nat) \<Rightarrow> (string \<rightharpoonup> nat)" where
  "DeviceModel_rebuild i [] h = h"
| "DeviceModel_rebuild i (d # ds) h = DeviceModel_rebuild (i + 1) ds (h(de_ip d \<mapsto> i))"

definition DeviceModel_onStoreUpdated :: "DeviceIntegrated list \<Rightarrow> DeviceModel \<Rightarrow> DeviceModel" where
  "DeviceModel_onStoreUpdated snapshot m =
     (let m' = foldl DeviceModel_apply m snapshot
      in m'\<lparr>dmo_byIp := DeviceModel_rebuild 0 (dmo_devices m') Map.empty\<rparr>)"

definition DeviceModel_clearAll :: "DeviceModel \<Rightarrow> DeviceModel" where
  "DeviceModel_clearAll m =
     m\<lparr>dmo_devices := [], dmo_byIp := Map.empty,
       dmo_events := dmo_events m @ [DM_beginResetModel, DM_endResetModel]\<rparr>"

section \<open>The hash\<close>

lemma DeviceModel_rebuild_Some:
  "DeviceModel_rebuild i ds h ip = Some k \<Longrightarrow>
     (i \<le> k \<and> k < i + length ds \<and> de_ip (ds ! (k - i)) = ip) \<or> (h ip = Some k \<and> ip \<notin> de_ip ` set ds)"
proof (induction i ds h rule: DeviceModel_rebuild.induct)
  case (2 i d ds h)
  then have "(i + 1 \<le> k \<and> k < i + 1 + length ds \<and> de_ip (ds ! (k - (i + 1))) = ip) \<or>
      ((h(de_ip d \<mapsto> i)) ip = Some k \<and> ip \<notin> de_ip ` set ds)"
    by (simp del: fun_upd_apply)
  moreover have "(d # ds) ! (k - i) = ds ! (k - (i + 1))" if "i + 1 \<le> k"
    using that by (simp add: nth_Cons')
  ultimately show ?case by (auto split: if_splits)
qed simp

lemma DeviceModel_rebuild_None:
  "DeviceModel_rebuild i ds h ip = None \<longleftrightarrow> h ip = None \<and> ip \<notin> de_ip ` set ds"
proof (induction ds arbitrary: i h)
  case (Cons d ds)
  show ?case by (simp only: DeviceModel_rebuild.simps Cons.IH) auto
qed simp

definition DeviceModel_ok :: "DeviceModel \<Rightarrow> bool" where
  "DeviceModel_ok m \<longleftrightarrow> dmo_byIp m = DeviceModel_rebuild 0 (dmo_devices m) Map.empty"

lemma DeviceModel_ok_init [inv_intros]: "DeviceModel_ok DeviceModel_init"
  by (simp add: DeviceModel_ok_def DeviceModel_init_def)

lemma DeviceModel_ok_onStoreUpdated [inv_intros]: "DeviceModel_ok (DeviceModel_onStoreUpdated snapshot m)"
  by (simp add: DeviceModel_ok_def DeviceModel_onStoreUpdated_def Let_def)

lemma DeviceModel_ok_clearAll [inv_intros]: "DeviceModel_ok (DeviceModel_clearAll m)"
  by (simp add: DeviceModel_ok_def DeviceModel_clearAll_def)

interpretation device_model_rows: row_lookup dmo_devices de_ip DeviceModel_findIndexByIp DeviceModel_ok
proof
  fix m ip
  assume ok: "DeviceModel_ok m"
  show "nat (DeviceModel_findIndexByIp m ip) < length (dmo_devices m) \<and>
      de_ip (dmo_devices m ! nat (DeviceModel_findIndexByIp m ip)) = ip"
    if "0 \<le> DeviceModel_findIndexByIp m ip"
    using that ok
    by (auto simp: DeviceModel_findIndexByIp_def DeviceModel_ok_def split: option.splits
        dest: DeviceModel_rebuild_Some)
  show "ip \<notin> de_ip ` set (dmo_devices m)" if "DeviceModel_findIndexByIp m ip < 0"
    using that ok DeviceModel_rebuild_None [of 0 "dmo_devices m" Map.empty ip]
    by (auto simp: DeviceModel_findIndexByIp_def DeviceModel_ok_def split: option.splits)
qed

interpretation device_model_cameras:
  row_lookup dmo_devices de_cameraId DeviceModel_findIndexByCameraId "\<lambda>_. True"
  unfolding DeviceModel_findIndexByCameraId_def by (rule index_where_lookup)

section \<open>What an update does\<close>

text \<open>The row the model answers for an ip.\<close>

definition DeviceModel_row :: "DeviceModel \<Rightarrow> string \<Rightarrow> DeviceEntry option" where
  "DeviceModel_row m ip = find (\<lambda>e. de_ip e = ip) (dmo_devices m)"

lemma DeviceModel_row_index:
  assumes "DeviceModel_ok m" "distinct (map de_ip (dmo_devices m))"
  shows "DeviceModel_row m ip =
    (let idx = DeviceModel_findIndexByIp m ip in if 0 \<le> idx then Some (dmo_devices m ! nat idx) else None)"
proof (cases "DeviceModel_row m ip")
  case None
  then have "ip \<notin> de_ip ` set (dmo_devices m)"
    by (auto simp: DeviceModel_row_def find_None_iff)
  with None device_model_rows.idx_found_iff [OF assms(1), of ip] show ?thesis
    by (simp add: Let_def)
next
  case (Some e)
  then have "de_ip e = ip" "e \<in> set (dmo_devices m)"
    by (auto simp: DeviceModel_row_def dest: find_SomeD)
  with device_model_rows.idx_row [OF assms, of e] Some show ?thesis
    by (simp add: Let_def)
qed

text \<open>
  The loop over a snapshot that names no ip twice: the rows of the model get the values of the
  snapshot, and the other elements of the snapshot are appended.
\<close>

definition DeviceEntry_updated :: "DeviceIntegrated list \<Rightarrow> DeviceEntry \<Rightarrow> DeviceEntry" where
  "DeviceEntry_updated snaps e =
     (case find (\<lambda>s. d_ip s = de_ip e) snaps of None \<Rightarrow> e | Some s \<Rightarrow> DeviceEntry_assign e s)"

lemma DeviceEntry_assign_of: "de_ip e = d_ip s \<Longrightarrow> DeviceEntry_assign e s = DeviceEntry_of s"
  by (simp add: DeviceEntry_assign_def DeviceEntry_of_def)

lemma DeviceEntry_ip [simp]:
  "de_ip (DeviceEntry_of s) = d_ip s" "de_ip (DeviceEntry_assign e s) = de_ip e"
  "de_ip (DeviceEntry_updated snaps e) = de_ip e"
  by (simp_all add: DeviceEntry_of_def DeviceEntry_assign_def DeviceEntry_updated_def split: option.splits)

lemma DeviceModel_apply_byIp [simp]: "dmo_byIp (DeviceModel_apply m s) = dmo_byIp m"
  by (simp add: DeviceModel_apply_def Let_def)

lemma DeviceModel_foldl_byIp [simp]: "dmo_byIp (foldl DeviceModel_apply m snaps) = dmo_byIp m"
  by (induction snaps arbitrary: m) simp_all

lemma DeviceModel_loop_closed:
  assumes "DeviceModel_ok m" "distinct (map de_ip (dmo_devices m))" "distinct (map d_ip snaps)"
  shows "dmo_devices (foldl DeviceModel_apply m snaps) =
     map (DeviceEntry_updated snaps) (dmo_devices m) @
     map DeviceEntry_of (filter (\<lambda>s. d_ip s \<notin> de_ip ` set (dmo_devices m)) snaps)"
  using assms(3)
proof (induction snaps rule: rev_induct)
  case Nil
  then show ?case by (simp add: DeviceEntry_updated_def)
next
  case (snoc s snaps)
  let ?ds = "dmo_devices m" and ?m = "foldl DeviceModel_apply m snaps"
  let ?idx = "DeviceModel_findIndexByIp m (d_ip s)"
  have new: "find (\<lambda>t. d_ip t = d_ip s) snaps = None"
  proof -
    have "d_ip s \<notin> d_ip ` set snaps" using snoc.prems by simp
    then show ?thesis unfolding find_None_iff by (metis image_eqI)
  qed
  have idx: "DeviceModel_findIndexByIp ?m (d_ip s) = ?idx"
    by (simp add: DeviceModel_findIndexByIp_def)
  have IH: "dmo_devices ?m = map (DeviceEntry_updated snaps) ?ds @
      map DeviceEntry_of (filter (\<lambda>s. d_ip s \<notin> de_ip ` set ?ds) snaps)"
    using snoc by simp
  have other: "DeviceEntry_updated (snaps @ [s]) e = DeviceEntry_updated snaps e" if "de_ip e \<noteq> d_ip s" for e
    using that by (simp add: DeviceEntry_updated_def find_append split: option.splits)
  show ?case
  proof (cases "d_ip s \<in> de_ip ` set ?ds")
    case False
    have "de_ip e \<noteq> d_ip s" if "e \<in> set ?ds" for e
      using False that by (metis image_eqI)
    then have "map (DeviceEntry_updated (snaps @ [s])) ?ds = map (DeviceEntry_updated snaps) ?ds"
      using other by (intro map_cong) auto
    moreover have "\<not> 0 \<le> ?idx"
      using False device_model_rows.idx_found_iff [OF assms(1)] by simp
    ultimately show ?thesis
      using False IH idx by (simp add: DeviceModel_apply_def [of ?m s] Let_def)
  next
    case True
    then have nn: "0 \<le> ?idx"
      using device_model_rows.idx_found_iff [OF assms(1)] by simp
    note hit = device_model_rows.idx_hit [OF assms(1) nn]
    let ?i = "nat ?idx"
    have "map (DeviceEntry_updated (snaps @ [s])) ?ds =
        (map (DeviceEntry_updated snaps) ?ds)[?i := DeviceEntry_assign (?ds ! ?i) s]"
    proof (rule nth_equalityI)
      fix j assume "j < length (map (DeviceEntry_updated (snaps @ [s])) ?ds)"
      then have j: "j < length ?ds" by simp
      show "map (DeviceEntry_updated (snaps @ [s])) ?ds ! j =
          (map (DeviceEntry_updated snaps) ?ds)[?i := DeviceEntry_assign (?ds ! ?i) s] ! j"
      proof (cases "j = ?i")
        case True
        with j hit new show ?thesis
          by (simp add: DeviceEntry_updated_def find_append)
      next
        case False
        then have "de_ip (?ds ! j) \<noteq> d_ip s"
          using distinct_map_nth_inj [OF assms(2) j] hit by metis
        with False j show ?thesis by (simp add: other)
      qed
    qed simp
    moreover have "DeviceEntry_assign (dmo_devices ?m ! ?i) s = DeviceEntry_assign (?ds ! ?i) s"
      using hit new by (simp add: IH nth_append DeviceEntry_updated_def)
    ultimately show ?thesis
      using True IH idx nn hit by (simp add: DeviceModel_apply_def [of ?m s] Let_def list_update_append)
  qed
qed

lemma DeviceModel_onStoreUpdated_devices:
  "dmo_devices (DeviceModel_onStoreUpdated snaps m) = dmo_devices (foldl DeviceModel_apply m snaps)"
  by (simp add: DeviceModel_onStoreUpdated_def Let_def)

lemma DeviceModel_onStoreUpdated_distinct:
  assumes "DeviceModel_ok m" "distinct (map de_ip (dmo_devices m))" "distinct (map d_ip snaps)"
  shows "distinct (map de_ip (dmo_devices (DeviceModel_onStoreUpdated snaps m)))"
proof -
  have "map de_ip (dmo_devices (DeviceModel_onStoreUpdated snaps m)) =
      map de_ip (dmo_devices m) @
      map d_ip (filter (\<lambda>s. d_ip s \<notin> de_ip ` set (dmo_devices m)) snaps)"
    by (simp add: DeviceModel_onStoreUpdated_devices DeviceModel_loop_closed [OF assms] comp_def)
  moreover have "set (map de_ip (dmo_devices m)) \<inter>
      set (map d_ip (filter (\<lambda>s. d_ip s \<notin> de_ip ` set (dmo_devices m)) snaps)) = {}"
    by auto (metis image_eqI)
  ultimately show ?thesis
    using assms(2,3) by (simp add: distinct_map_filter)
qed

lemma DeviceModel_onStoreUpdated_row:
  assumes "DeviceModel_ok m" "distinct (map de_ip (dmo_devices m))" "distinct (map d_ip snaps)"
  shows "DeviceModel_row (DeviceModel_onStoreUpdated snaps m) ip =
     (case find (\<lambda>s. d_ip s = ip) snaps of
        Some s \<Rightarrow> Some (DeviceEntry_of s) | None \<Rightarrow> DeviceModel_row m ip)"
proof -
  have find_map: "find (\<lambda>e. de_ip e = ip) (map f xs) = map_option f (find (\<lambda>x. de_ip x = ip) xs)"
    if "\<And>x. de_ip (f x) = de_ip x" for f xs
    using that by (induction xs) auto
  have find_new: "find (\<lambda>e. de_ip e = ip) (map DeviceEntry_of (filter P ss)) =
      map_option DeviceEntry_of (find (\<lambda>s. d_ip s = ip) ss)"
    if "\<And>s. d_ip s = ip \<Longrightarrow> P s" for P ss
    using that by (induction ss) auto
  show ?thesis
  proof (cases "DeviceModel_row m ip")
    case None
    then have "ip \<notin> de_ip ` set (dmo_devices m)"
      by (auto simp: DeviceModel_row_def find_None_iff)
    with None find_new [of "\<lambda>s. d_ip s \<notin> de_ip ` set (dmo_devices m)" snaps] show ?thesis
      by (simp add: DeviceModel_row_def DeviceModel_onStoreUpdated_devices
          DeviceModel_loop_closed [OF assms] find_append find_map split: option.splits)
  next
    case (Some e)
    then have "de_ip e = ip" by (auto simp: DeviceModel_row_def dest: find_SomeD)
    with Some show ?thesis
      by (auto simp: DeviceModel_row_def DeviceModel_onStoreUpdated_devices
          DeviceModel_loop_closed [OF assms] find_append find_map DeviceEntry_updated_def
          DeviceEntry_assign_of split: option.splits dest: find_SomeD)
  qed
qed

section \<open>Sequences of updates\<close>

datatype DeviceModel_op = DMO_onStoreUpdated "DeviceIntegrated list" | DMO_clearAll

fun DeviceModel_step :: "DeviceModel \<Rightarrow> DeviceModel_op \<Rightarrow> DeviceModel" where
  "DeviceModel_step m (DMO_onStoreUpdated snapshot) = DeviceModel_onStoreUpdated snapshot m"
| "DeviceModel_step m DMO_clearAll = DeviceModel_clearAll m"

interpretation device_model: op_system DeviceModel_init DeviceModel_step DeviceModel_ok
proof
  show "DeviceModel_ok (DeviceModel_step m x)" for m x
    by (cases x) (auto intro: inv_intros)
qed (rule inv_intros)

text \<open>The specification: the last record of every ip since the last reset.\<close>

fun DeviceModel_spec :: "(string \<rightharpoonup> DeviceIntegrated) \<Rightarrow> DeviceModel_op \<Rightarrow> (string \<rightharpoonup> DeviceIntegrated)" where
  "DeviceModel_spec db (DMO_onStoreUpdated snapshot) =
     (\<lambda>ip. case find (\<lambda>s. d_ip s = ip) snapshot of Some s \<Rightarrow> Some s | None \<Rightarrow> db ip)"
| "DeviceModel_spec db DMO_clearAll = Map.empty"

fun DeviceModel_op_distinct :: "DeviceModel_op \<Rightarrow> bool" where
  "DeviceModel_op_distinct (DMO_onStoreUpdated snapshot) = distinct (map d_ip snapshot)"
| "DeviceModel_op_distinct DMO_clearAll = True"

lemma DeviceModel_refines_spec:
  assumes "\<forall>x \<in> set ops. DeviceModel_op_distinct x"
  defines "m \<equiv> foldl DeviceModel_step DeviceModel_init ops"
  shows "distinct (map de_ip (dmo_devices m)) \<and>
     DeviceModel_row m ip = map_option DeviceEntry_of (foldl DeviceModel_spec Map.empty ops ip)"
  using assms(1) unfolding m_def
proof (induction ops arbitrary: ip rule: rev_induct)
  case Nil
  then show ?case by (simp add: DeviceModel_init_def DeviceModel_row_def)
next
  case (snoc x ops)
  have ok: "DeviceModel_ok (foldl DeviceModel_step DeviceModel_init ops)"
    by (rule device_model.run_inv)
  show ?case
  proof (cases x)
    case (DMO_onStoreUpdated snapshot)
    with snoc have d: "distinct (map d_ip snapshot)"
        "distinct (map de_ip (dmo_devices (foldl DeviceModel_step DeviceModel_init ops)))"
      by auto
    with snoc DMO_onStoreUpdated show ?thesis
      by (auto simp: DeviceModel_onStoreUpdated_row [OF ok d(2,1)]
          DeviceModel_onStoreUpdated_distinct [OF ok d(2,1)] split: option.splits)
  next
    case DMO_clearAll
    then show ?thesis
      by (simp add: DeviceModel_clearAll_def DeviceModel_row_def)
  qed
qed

section \<open>Properties\<close>

text \<open>
  Claim C18. As long as no snapshot names an ip twice, the queries of the device page refine a map
  from ips to records: after any sequence of snapshots and resets, every query by ip answers
  from the last record of that ip, and every ip has one row.
\<close>

theorem DeviceModel_queries_refine_map:
  assumes "list_all DeviceModel_op_distinct ops"
  shows "distinct (map de_ip (dmo_devices (foldl DeviceModel_step DeviceModel_init ops))) \<and>
    (let m = foldl DeviceModel_step DeviceModel_init ops;
         db = foldl DeviceModel_spec Map.empty ops ip in
     DeviceModel_hasDevice m ip = (db \<noteq> None) \<and>
     DeviceModel_cameraId m ip = (case db of None \<Rightarrow> '''' | Some d \<Rightarrow> d_cameraId d) \<and>
     DeviceModel_cpu m ip = (case db of None \<Rightarrow> 0 | Some d \<Rightarrow> d_cpu d) \<and>
     DeviceModel_memory m ip = (case db of None \<Rightarrow> 0 | Some d \<Rightarrow> d_memory d) \<and>
     DeviceModel_temp m ip = (case db of None \<Rightarrow> 0 | Some d \<Rightarrow> d_temp d) \<and>
     DeviceModel_getHistory m ip = (case db of None \<Rightarrow> [] | Some d \<Rightarrow> d_history d))"
proof -
  let ?m = "foldl DeviceModel_step DeviceModel_init ops"
  have ok: "DeviceModel_ok ?m" by (rule device_model.run_inv)
  have dist: "distinct (map de_ip (dmo_devices ?m))"
    and row: "DeviceModel_row ?m ip = map_option DeviceEntry_of (foldl DeviceModel_spec Map.empty ops ip)"
    using DeviceModel_refines_spec [of ops ip] assms by (auto simp: list_all_iff)
  note queries = DeviceModel_hasDevice_def DeviceModel_cameraId_def DeviceModel_cpu_def
    DeviceModel_memory_def DeviceModel_temp_def DeviceModel_getHistory_def
  show ?thesis
  proof (cases "foldl DeviceModel_spec Map.empty ops ip")
    case None
    with row DeviceModel_row_index [OF ok dist, of ip] dist show ?thesis
      by (simp add: queries Let_def split: if_splits)
  next
    case (Some d)
    with row DeviceModel_row_index [OF ok dist, of ip] dist show ?thesis
      by (simp add: queries Let_def DeviceEntry_of_def split: if_splits)
  qed
qed

theorem DeviceModel_queries_refine_map_witness:
  "DeviceModel_cpu (foldl DeviceModel_step DeviceModel_init
     [DMO_onStoreUpdated [(DeviceIntegrated_new ''a'')\<lparr>d_cpu := 7\<rparr>, DeviceIntegrated_new ''b''],
      DMO_onStoreUpdated [DeviceIntegrated_new ''b'']]) ''a'' = 7"
  using DeviceModel_queries_refine_map
    [of "[DMO_onStoreUpdated [(DeviceIntegrated_new ''a'')\<lparr>d_cpu := 7\<rparr>, DeviceIntegrated_new ''b''],
          DMO_onStoreUpdated [DeviceIntegrated_new ''b'']]" "''a''"]
  by (simp add: Let_def)

text \<open>
  A snapshot that names a new ip several times gives the page one row for each of its
  elements, since the hash is rebuilt only behind the loop. (In every state the updates lead
  to.)
\<close>

theorem DeviceModel_duplicate_rows:
  fixes ops :: "DeviceModel_op list"
  defines "m \<equiv> foldl DeviceModel_step DeviceModel_init ops"
  assumes "\<not> DeviceModel_hasDevice m ip"
  shows "length (filter (\<lambda>e. de_ip e = ip) (dmo_devices (DeviceModel_onStoreUpdated snaps m))) =
     length (filter (\<lambda>s. d_ip s = ip) snaps)"
proof -
  have none: "dmo_byIp m ip = None"
    using assms(2) by (auto simp: DeviceModel_hasDevice_def DeviceModel_findIndexByIp_def split: option.splits)
  have ok: "DeviceModel_ok m"
    unfolding m_def by (rule device_model.run_inv)
  have start: "filter (\<lambda>e. de_ip e = ip) (dmo_devices m) = []"
    using assms(2) device_model_rows.idx_found_iff [OF ok, of ip]
    by (auto simp: DeviceModel_hasDevice_def filter_empty_conv)
  have row: "de_ip (dmo_devices m ! i) \<noteq> ip" if "i < length (dmo_devices m)" for i
    using start that by (auto simp: filter_empty_conv)
  let ?loop = "\<lambda>ss. foldl DeviceModel_apply m ss"
  have "length (filter (\<lambda>e. de_ip e = ip) (dmo_devices (?loop snaps))) =
      length (filter (\<lambda>s. d_ip s = ip) snaps) \<and>
      (\<exists>new. map de_ip (dmo_devices (?loop snaps)) = map de_ip (dmo_devices m) @ new)"
  proof (induction snaps rule: rev_induct)
    case Nil
    then show ?case using start by simp
  next
    case (snoc s snaps)
    then obtain new where new: "map de_ip (dmo_devices (?loop snaps)) = map de_ip (dmo_devices m) @ new"
      by blast
    let ?idx = "DeviceModel_findIndexByIp (?loop snaps) (d_ip s)"
    have idx: "?idx = DeviceModel_findIndexByIp m (d_ip s)"
      by (simp add: DeviceModel_findIndexByIp_def)
    show ?case
    proof (cases "0 \<le> ?idx")
      case False
      with snoc new show ?thesis
        by (simp add: DeviceModel_apply_def [of "?loop snaps" s] Let_def)
    next
      case True
      then have hit: "nat ?idx < length (dmo_devices m)" "de_ip (dmo_devices m ! nat ?idx) = d_ip s"
        using device_model_rows.idx_hit [OF ok] idx by auto
      let ?e = "DeviceEntry_assign (dmo_devices (?loop snaps) ! nat ?idx) s"
      have ips: "map de_ip ((dmo_devices (?loop snaps))[nat ?idx := ?e]) = map de_ip (dmo_devices (?loop snaps))"
        by (rule map_list_update_same) simp
      have count: "length (filter (\<lambda>e. de_ip e = ip) es) = length (filter (\<lambda>i. i = ip) (map de_ip es))" for es
        by (simp add: filter_map comp_def)
      from hit row have "d_ip s \<noteq> ip" by metis
      with snoc True new ips show ?thesis
        by (simp add: DeviceModel_apply_def [of "?loop snaps" s] Let_def count)
    qed
  qed
  then show ?thesis by (simp add: DeviceModel_onStoreUpdated_devices)
qed

theorem DeviceModel_duplicate_rows_witness:
  "length (filter (\<lambda>e. de_ip e = ''a'') (dmo_devices
     (DeviceModel_onStoreUpdated [DeviceIntegrated_new ''a'', DeviceIntegrated_new ''a'']
       (foldl DeviceModel_step DeviceModel_init [])))) = 2"
  using DeviceModel_duplicate_rows [of "[]" "''a''"]
  by (simp add: DeviceModel_hasDevice_def DeviceModel_findIndexByIp_def DeviceModel_init_def)

end
