(* ===== verification/Alarm.thy ===== *)
theory Alarm
  imports Json
begin

text \<open>
  The alarm path: Src/Domain/Alarm.hpp and Alarm.cpp (the dispatcher parses the packet on the
  thread pool), Qt/Back/Services/AlarmManager.hpp and AlarmManager.cpp (the signal) and
  Qt/Back/Controllers/AlarmController.hpp and AlarmController.cpp (the queue of cards). The
  clock of the controller is an argument.
\<close>

section \<open>The dispatcher\<close>

record AlarmEvent =
  ae_title :: string
  ae_detail :: string
  ae_severity :: int

text \<open>
  The job that \<open>dispatch\<close> submits to the pool: the event the callback gets, \<open>None\<close> where the job
  returns before, or the exception that leaves the job.
\<close>

definition AlarmDispatcher_job :: "'j json_ops \<Rightarrow> string \<Rightarrow> exn + AlarmEvent option" where
  "AlarmDispatcher_job J json =
     (let parsed = j_parse J json in
      if \<not> j_is_object J parsed then Inr None
      else bindE (j_string J parsed ''type'' '''') (\<lambda>type.
        if type \<noteq> ''alarm'' then Inr None
        else
          bindE (j_string J parsed ''title'' ''AI Alert'') (\<lambda>title.
          bindE (j_string J parsed ''detail'' ''Anomaly detected'') (\<lambda>detail.
          bindE (j_int J parsed ''severity'' 1) (\<lambda>severity.
            Inr (Some \<lparr>ae_title = title, ae_detail = detail, ae_severity = severity\<rparr>))))))"

text \<open>Without a callback nothing is submitted.\<close>

definition AlarmDispatcher_dispatch :: "'j json_ops \<Rightarrow> string \<Rightarrow> bool \<Rightarrow> (exn + AlarmEvent option) list" where
  "AlarmDispatcher_dispatch J json has_cb = (if \<not> has_cb then [] else [AlarmDispatcher_job J json])"

section \<open>The manager\<close>

datatype AlarmManager_signal = AM_alarmTriggered string string int

definition AlarmManager_onAlarm :: "AlarmEvent \<Rightarrow> AlarmManager_signal list" where
  "AlarmManager_onAlarm ev = [AM_alarmTriggered (ae_title ev) (ae_detail ev) (ae_severity ev)]"

section \<open>The controller\<close>

record AlarmEntry =
  al_id :: int
  al_title :: string
  al_detail :: string
  al_severity :: int

definition kMaxAlarms :: nat where
  "kMaxAlarms = 20"

text \<open>\<open>alarms_\<close> and the number of times \<open>alarmsChanged\<close> was emitted.\<close>

record AlarmController =
  ac_alarms :: "AlarmEntry list"
  ac_changed :: nat

definition AlarmController_init :: AlarmController where
  "AlarmController_init = \<lparr>ac_alarms = [], ac_changed = 0\<rparr>"

text \<open>The list of maps QML reads has exactly the four fields of every entry.\<close>

definition AlarmController_alarms :: "AlarmController \<Rightarrow> AlarmEntry list" where
  "AlarmController_alarms c = ac_alarms c"

fun AlarmController_erase :: "int \<Rightarrow> AlarmEntry list \<Rightarrow> AlarmEntry list option" where
  "AlarmController_erase k [] = None"
| "AlarmController_erase k (e # es) =
     (if al_id e = k then Some es else map_option ((#) e) (AlarmController_erase k es))"

definition AlarmController_dismiss :: "int \<Rightarrow> AlarmController \<Rightarrow> AlarmController" where
  "AlarmController_dismiss k c =
     (case AlarmController_erase k (ac_alarms c) of
        None \<Rightarrow> c
      | Some es \<Rightarrow> c\<lparr>ac_alarms := es, ac_changed := ac_changed c + 1\<rparr>)"

definition AlarmController_clearAll :: "AlarmController \<Rightarrow> AlarmController" where
  "AlarmController_clearAll c =
     (if ac_alarms c \<noteq> [] then c\<lparr>ac_alarms := [], ac_changed := ac_changed c + 1\<rparr> else c)"

definition AlarmController_push :: "AlarmEntry list \<Rightarrow> AlarmEntry \<Rightarrow> AlarmEntry list" where
  "AlarmController_push alarms entry =
     (if kMaxAlarms \<le> length alarms then tl alarms else alarms) @ [entry]"

definition AlarmController_entry :: "int \<Rightarrow> AlarmEvent \<Rightarrow> AlarmEntry" where
  "AlarmController_entry now ev =
     \<lparr>al_id = now, al_title = ae_title ev, al_detail = ae_detail ev, al_severity = ae_severity ev\<rparr>"

definition AlarmController_onAlarm :: "int \<Rightarrow> AlarmEvent \<Rightarrow> AlarmController \<Rightarrow> AlarmController" where
  "AlarmController_onAlarm now ev c =
     c\<lparr>ac_alarms := AlarmController_push (ac_alarms c) (AlarmController_entry now ev),
       ac_changed := ac_changed c + 1\<rparr>"

section \<open>Laws\<close>

interpretation alarm_queue: bounded_history AlarmController_push kMaxAlarms
  by unfold_locales (auto simp: AlarmController_push_def kMaxAlarms_def)

lemma AlarmController_erase_length:
  "AlarmController_erase k es = Some es' \<Longrightarrow> length es = Suc (length es') \<and> set es' \<subseteq> set es"
  by (induction es arbitrary: es') (auto split: if_splits)

lemma AlarmController_erase_distinct:
  "distinct (map al_id es) \<Longrightarrow>
     (case AlarmController_erase k es of None \<Rightarrow> es | Some es' \<Rightarrow> es') = filter (\<lambda>e. al_id e \<noteq> k) es"
proof (induction es)
  case (Cons e es)
  have "filter (\<lambda>e. al_id e \<noteq> k) es = es" if "al_id e = k"
    using Cons.prems that by (simp add: filter_id_conv) (metis image_eqI)
  with Cons show ?case by (auto split: option.splits)
qed simp

lemma AlarmController_dismiss_alarms:
  "ac_alarms (AlarmController_dismiss k c) =
     (case AlarmController_erase k (ac_alarms c) of None \<Rightarrow> ac_alarms c | Some es \<Rightarrow> es)"
  by (simp add: AlarmController_dismiss_def split: option.splits)

datatype AlarmController_op = AL_onAlarm int AlarmEvent | AL_dismiss int | AL_clearAll

fun AlarmController_step :: "AlarmController \<Rightarrow> AlarmController_op \<Rightarrow> AlarmController" where
  "AlarmController_step c (AL_onAlarm now ev) = AlarmController_onAlarm now ev c"
| "AlarmController_step c (AL_dismiss k) = AlarmController_dismiss k c"
| "AlarmController_step c AL_clearAll = AlarmController_clearAll c"

definition AlarmController_inv :: "AlarmController \<Rightarrow> bool" where
  "AlarmController_inv c \<longleftrightarrow> length (ac_alarms c) \<le> kMaxAlarms"

interpretation alarm_controller: op_system AlarmController_init AlarmController_step AlarmController_inv
proof
  show "AlarmController_inv (AlarmController_step c x)" if "AlarmController_inv c" for c x
    using that alarm_queue.push_bounded
    by (cases x)
      (auto simp: AlarmController_inv_def AlarmController_onAlarm_def AlarmController_clearAll_def
        AlarmController_dismiss_alarms dest: AlarmController_erase_length split: option.splits)
qed (simp add: AlarmController_inv_def AlarmController_init_def)

text \<open>The clock readings of a sequence of calls.\<close>

fun AlarmController_time :: "AlarmController_op \<Rightarrow> int list" where
  "AlarmController_time (AL_onAlarm now ev) = [now]"
| "AlarmController_time _ = []"

definition AlarmController_times :: "AlarmController_op list \<Rightarrow> int list" where
  "AlarmController_times ops = concat (map AlarmController_time ops)"

lemma AlarmController_ids:
  "sorted_wrt (<) (AlarmController_times ops) \<Longrightarrow>
     (\<forall>e \<in> set (ac_alarms (foldl AlarmController_step AlarmController_init ops)).
        al_id e \<in> set (AlarmController_times ops)) \<and>
     distinct (map al_id (ac_alarms (foldl AlarmController_step AlarmController_init ops)))"
proof (induction ops rule: rev_induct)
  case Nil
  then show ?case by (simp add: AlarmController_init_def)
next
  case (snoc x ops)
  let ?c = "foldl AlarmController_step AlarmController_init ops"
  have times: "AlarmController_times (ops @ [x]) = AlarmController_times ops @ AlarmController_time x"
    by (simp add: AlarmController_times_def)
  with snoc.prems have "sorted_wrt (<) (AlarmController_times ops)"
    by (simp add: sorted_wrt_append)
  note IH = snoc.IH [OF this]
  show ?case
  proof (cases x)
    case (AL_onAlarm now ev)
    with snoc.prems times have new: "now \<notin> set (AlarmController_times ops)"
      by (auto simp: sorted_wrt_append)
    let ?rest = "if kMaxAlarms \<le> length (ac_alarms ?c) then tl (ac_alarms ?c) else ac_alarms ?c"
    have "set (tl xs) \<subseteq> set xs" for xs :: "AlarmEntry list"
      by (cases xs) auto
    then have rest: "set ?rest \<subseteq> set (ac_alarms ?c)" "distinct (map al_id ?rest)"
      using IH by (auto simp: map_tl distinct_tl)
    have "ac_alarms (foldl AlarmController_step AlarmController_init (ops @ [x])) =
        ?rest @ [AlarmController_entry now ev]"
      using AL_onAlarm by (simp add: AlarmController_onAlarm_def AlarmController_push_def)
    moreover have "now \<notin> al_id ` set ?rest"
      using rest(1) IH new by auto
    ultimately show ?thesis
      using AL_onAlarm IH rest times by (auto simp: AlarmController_entry_def)
  next
    case (AL_dismiss k)
    with IH times show ?thesis
      using AlarmController_erase_distinct [of "ac_alarms ?c" k]
      by (simp add: AlarmController_dismiss_alarms distinct_map_filter)
  next
    case AL_clearAll
    with IH times show ?thesis by (simp add: AlarmController_clearAll_def)
  qed
qed

section \<open>Properties\<close>

text \<open>
  The alarm page never has more than twenty cards, whatever the alarms, dismissals and
  resets, and as long as nothing is dismissed it shows the last twenty alarms, newest last.
\<close>

theorem AlarmController_queue:
  "length (AlarmController_alarms (foldl AlarmController_step AlarmController_init ops)) \<le> kMaxAlarms \<and>
   AlarmController_alarms (foldl AlarmController_step AlarmController_init
       (map (\<lambda>(t, ev). AL_onAlarm t ev) alarms)) =
     last_n kMaxAlarms (map (\<lambda>(t, ev). AlarmController_entry t ev) alarms)"
proof -
  have "ac_alarms (foldl AlarmController_step c (map (\<lambda>(t, ev). AL_onAlarm t ev) alarms)) =
      foldl AlarmController_push (ac_alarms c) (map (\<lambda>(t, ev). AlarmController_entry t ev) alarms)" for c
    by (induction alarms arbitrary: c) (auto simp: AlarmController_onAlarm_def)
  then show ?thesis
    using alarm_controller.run_inv [of ops]
    by (simp add: AlarmController_inv_def AlarmController_alarms_def alarm_queue.push_all
        AlarmController_init_def)
qed

text \<open>
  When no two alarms fall on the same millisecond, dismissing a card removes exactly
  the card with that id.
\<close>

theorem AlarmController_dismiss_exact:
  assumes "sorted_wrt (<) (AlarmController_times ops)"
  shows "AlarmController_alarms (AlarmController_dismiss k
       (foldl AlarmController_step AlarmController_init ops)) =
     filter (\<lambda>e. al_id e \<noteq> k)
       (AlarmController_alarms (foldl AlarmController_step AlarmController_init ops))"
  using AlarmController_ids [OF assms]
  by (simp add: AlarmController_alarms_def AlarmController_dismiss_alarms AlarmController_erase_distinct)

theorem AlarmController_dismiss_exact_witness:
  "map al_id (AlarmController_alarms (AlarmController_dismiss 5
     (foldl AlarmController_step AlarmController_init
       [AL_onAlarm 3 \<lparr>ae_title = ''a'', ae_detail = ''b'', ae_severity = 1\<rparr>,
        AL_onAlarm 5 \<lparr>ae_title = ''c'', ae_detail = ''d'', ae_severity = 2\<rparr>]))) = [3]"
  using AlarmController_dismiss_exact
    [of "[AL_onAlarm 3 \<lparr>ae_title = ''a'', ae_detail = ''b'', ae_severity = 1\<rparr>,
          AL_onAlarm 5 \<lparr>ae_title = ''c'', ae_detail = ''d'', ae_severity = 2\<rparr>]" 5]
  by (simp add: AlarmController_times_def AlarmController_alarms_def AlarmController_init_def
      AlarmController_onAlarm_def AlarmController_push_def AlarmController_entry_def kMaxAlarms_def)

text \<open>
  The dispatcher raises an alarm exactly for an object whose type is "alarm" and whose
  fields read, with the defaults for absent fields; no other packet reaches the callback.
\<close>

theorem AlarmDispatcher_raises_iff:
  "AlarmDispatcher_job J json = Inr (Some ev) \<longleftrightarrow>
     j_is_object J (j_parse J json) \<and>
     j_string J (j_parse J json) ''type'' '''' = Inr ''alarm'' \<and>
     j_string J (j_parse J json) ''title'' ''AI Alert'' = Inr (ae_title ev) \<and>
     j_string J (j_parse J json) ''detail'' ''Anomaly detected'' = Inr (ae_detail ev) \<and>
     j_int J (j_parse J json) ''severity'' 1 = Inr (ae_severity ev)"
  by (cases ev) (auto simp: AlarmDispatcher_job_def Let_def bindE_Inr_iff split: if_splits)

end
