(* ===== verification/AiImageModel.thy ===== *)
theory AiImageModel
  imports Prelude "HOL-Library.List_Lexorder" "HOL-Library.Char_ord"
begin

text \<open>
  Qt/Back/Models/AiImageModel.hpp and Qt/Back/Models/AiImageModel.cpp: the last images of every
  camera. \<open>eventsByCameraId_\<close> is a QMap, which keeps its keys sorted; the model is the list of
  its entries in that order.
\<close>

section \<open>Data\<close>

record AiImageEvent =
  ev_cameraId :: string
  ev_deviceName :: string
  ev_trackId :: int
  ev_frameIndex :: int
  ev_totalFrames :: int
  ev_timestamp :: int
  ev_base64Image :: string

type_synonym AiImageModel = "(string \<times> AiImageEvent list) list"

definition MAX_EVENTS_PER_CAMERA :: nat where
  "MAX_EVENTS_PER_CAMERA = 20"

section \<open>Operations\<close>

definition AiImageModel_push :: "AiImageEvent list \<Rightarrow> AiImageEvent \<Rightarrow> AiImageEvent list" where
  "AiImageModel_push queue ev = trim_front MAX_EVENTS_PER_CAMERA (queue @ [ev])"

text \<open>\<open>eventsByCameraId_[cameraId]\<close> with the default, and the push on the queue found.\<close>

fun AiImageModel_put :: "string \<Rightarrow> AiImageEvent \<Rightarrow> AiImageModel \<Rightarrow> AiImageModel" where
  "AiImageModel_put cid ev [] = [(cid, AiImageModel_push [] ev)]"
| "AiImageModel_put cid ev ((k, queue) # rest) =
     (if cid = k then (k, AiImageModel_push queue ev) # rest
      else if cid < k then (cid, AiImageModel_push [] ev) # (k, queue) # rest
      else (k, queue) # AiImageModel_put cid ev rest)"

text \<open>The new model and the argument of the \<open>aiEventReceived\<close> signal.\<close>

definition AiImageModel_onImageReceivedBase64 ::
  "string \<Rightarrow> string \<Rightarrow> int \<Rightarrow> int \<Rightarrow> int \<Rightarrow> int \<Rightarrow> string \<Rightarrow> AiImageModel \<Rightarrow> AiImageModel \<times> string"
where
  "AiImageModel_onImageReceivedBase64 cameraId deviceName trackId frameIndex totalFrames timestamp
     base64Image m =
     (let ev = \<lparr>ev_cameraId = cameraId, ev_deviceName = deviceName, ev_trackId = trackId,
                ev_frameIndex = frameIndex, ev_totalFrames = totalFrames, ev_timestamp = timestamp,
                ev_base64Image = base64Image\<rparr>
      in (AiImageModel_put cameraId ev m, cameraId))"

text \<open>The maps QML gets have exactly the fields of the event.\<close>

definition AiImageModel_getEventsForCamera :: "AiImageModel \<Rightarrow> string \<Rightarrow> AiImageEvent list" where
  "AiImageModel_getEventsForCamera m cameraId =
     (case map_of m cameraId of None \<Rightarrow> [] | Some queue \<Rightarrow> queue)"

definition AiImageModel_getLatestEvent :: "AiImageModel \<Rightarrow> string \<Rightarrow> AiImageEvent option" where
  "AiImageModel_getLatestEvent m cameraId =
     (case map_of m cameraId of
        None \<Rightarrow> None
      | Some queue \<Rightarrow> if queue = [] then None else Some (last queue))"

definition AiImageModel_getRecentEvents :: "AiImageModel \<Rightarrow> string \<Rightarrow> AiImageEvent list" where
  "AiImageModel_getRecentEvents m ip =
     concat (map (\<lambda>(k, queue). if starts_with k ip then queue else []) m)"

definition AiImageModel_clearAll :: "AiImageModel \<Rightarrow> AiImageModel" where
  "AiImageModel_clearAll m = []"

section \<open>Laws\<close>

interpretation image_history: bounded_history AiImageModel_push MAX_EVENTS_PER_CAMERA
  by unfold_locales
    (auto simp: AiImageModel_push_def MAX_EVENTS_PER_CAMERA_def trim_front_last_n last_n_snoc_full)

lemma AiImageModel_put_keys: "fst ` set (AiImageModel_put cid ev m) = insert cid (fst ` set m)"
  by (induction cid ev m rule: AiImageModel_put.induct) auto

lemma AiImageModel_put_sorted:
  "sorted_wrt (<) (map fst m) \<Longrightarrow> sorted_wrt (<) (map fst (AiImageModel_put cid ev m))"
proof (induction cid ev m rule: AiImageModel_put.induct)
  case (2 cid ev k queue rest)
  have "\<forall>x \<in> fst ` set (AiImageModel_put cid ev rest). k < x" if "k < cid"
    using 2(2) that by (auto simp: AiImageModel_put_keys)
  moreover have "\<forall>x \<in> fst ` set rest. k < x" "sorted_wrt (<) (map fst rest)"
    using 2(2) by simp_all
  moreover have "k < cid" if "cid \<noteq> k" "\<not> cid < k"
    using that by simp
  ultimately show ?case
    using 2(1) less_trans [of cid k] by (cases "cid = k"; cases "cid < k") auto
qed simp

lemma AiImageModel_put_events:
  "sorted_wrt (<) (map fst m) \<Longrightarrow>
     AiImageModel_getEventsForCamera (AiImageModel_put cid ev m) k =
       (if k = cid then AiImageModel_push (AiImageModel_getEventsForCamera m k) ev
        else AiImageModel_getEventsForCamera m k)"
proof (induction cid ev m rule: AiImageModel_put.induct)
  case (2 cid ev k' queue rest)
  have "map_of ((k', queue) # rest) cid = None" if "cid < k'"
    using 2(2) that by (force simp: map_of_eq_None_iff)
  with 2 show ?case
    by (auto simp: AiImageModel_getEventsForCamera_def split: option.splits)
qed (simp add: AiImageModel_getEventsForCamera_def)

definition AiImageModel_receive :: "AiImageModel \<Rightarrow> AiImageEvent \<Rightarrow> AiImageModel" where
  "AiImageModel_receive m ev =
     fst (AiImageModel_onImageReceivedBase64 (ev_cameraId ev) (ev_deviceName ev) (ev_trackId ev)
       (ev_frameIndex ev) (ev_totalFrames ev) (ev_timestamp ev) (ev_base64Image ev) m)"

lemma AiImageModel_receive_put: "AiImageModel_receive m ev = AiImageModel_put (ev_cameraId ev) ev m"
  by (cases ev) (simp add: AiImageModel_receive_def AiImageModel_onImageReceivedBase64_def Let_def)

lemma AiImageModel_receive_all:
  "sorted_wrt (<) (map fst (foldl AiImageModel_receive [] evs)) \<and>
   AiImageModel_getEventsForCamera (foldl AiImageModel_receive [] evs) cid =
     foldl AiImageModel_push [] (filter (\<lambda>ev. ev_cameraId ev = cid) evs)"
proof (induction evs rule: rev_induct)
  case Nil
  then show ?case by (simp add: AiImageModel_getEventsForCamera_def)
next
  case (snoc ev evs)
  then show ?case
    by (cases "cid = ev_cameraId ev")
      (simp_all add: AiImageModel_receive_put AiImageModel_put_sorted AiImageModel_put_events)
qed

section \<open>Properties\<close>

text \<open>
  After any images since a reset, the model hands out for every camera the last twenty
  images of that camera in the order of their arrival, and the latest one is the last of them.
\<close>

theorem AiImageModel_last_images:
  "AiImageModel_getEventsForCamera (foldl AiImageModel_receive (AiImageModel_clearAll m) evs) cid =
     last_n MAX_EVENTS_PER_CAMERA (filter (\<lambda>ev. ev_cameraId ev = cid) evs) \<and>
   AiImageModel_getLatestEvent (foldl AiImageModel_receive (AiImageModel_clearAll m) evs) cid =
     (if filter (\<lambda>ev. ev_cameraId ev = cid) evs = [] then None
      else Some (last (filter (\<lambda>ev. ev_cameraId ev = cid) evs)))"
proof -
  let ?m = "foldl AiImageModel_receive [] evs" and ?own = "filter (\<lambda>ev. ev_cameraId ev = cid) evs"
  have events: "AiImageModel_getEventsForCamera ?m cid = last_n MAX_EVENTS_PER_CAMERA ?own"
    using AiImageModel_receive_all [of evs cid] by (simp add: image_history.push_all)
  have "AiImageModel_getLatestEvent ?m cid =
      (if AiImageModel_getEventsForCamera ?m cid = [] then None
       else Some (last (AiImageModel_getEventsForCamera ?m cid)))"
    by (simp add: AiImageModel_getLatestEvent_def AiImageModel_getEventsForCamera_def
        split: option.splits)
  moreover have "last_n MAX_EVENTS_PER_CAMERA xs = [] \<longleftrightarrow> xs = []"
      "xs \<noteq> [] \<Longrightarrow> last (last_n MAX_EVENTS_PER_CAMERA xs) = last xs" for xs :: "AiImageEvent list"
    by (cases xs; simp add: last_n_def MAX_EVENTS_PER_CAMERA_def last_drop)+
  ultimately show ?thesis
    by (simp add: events AiImageModel_clearAll_def)
qed

end
