(* ===== verification/UserModel.thy ===== *)
theory UserModel
  imports Prelude
begin

text \<open>
  Src/Domain/User.hpp, Qt/Back/Models/UserModel.hpp and Qt/Back/Models/UserModel.cpp: the list of
  users, either a snapshot or the pending list of the server. Both fill the list anew and keep
  a hash from user ids to rows. The JSON classes of Qt and the date parsers are arguments.
\<close>

section \<open>Data\<close>

datatype UserRole = UR_User | UR_Admin | UR_Pending

text \<open>A date is its milliseconds since the epoch; a QDateTime can also be invalid.\<close>

record UserData =
  ud_userId :: string
  ud_username :: string
  ud_email :: string
  ud_role :: UserRole
  ud_isOnline :: bool
  ud_lastLogin :: int
  ud_ipAddress :: string
  ud_activeCameras :: int

record UserEntry =
  ue_userId :: string
  ue_username :: string
  ue_email :: string
  ue_role :: string
  ue_isOnline :: bool
  ue_lastLogin :: "int option"
  ue_ipAddress :: string
  ue_activeCameras :: int

datatype UserModelRole =
    UM_UserIdRole | UM_UsernameRole | UM_EmailRole | UM_RoleRole | UM_IsOnlineRole
  | UM_LastLoginRole | UM_IpAddressRole | UM_ActiveCamerasRole

datatype UserValue = UV_invalid | UV_string string | UV_bool bool | UV_date "int option" | UV_int int

datatype UserModel_event = UM_beginResetModel | UM_endResetModel | UM_countChanged

record UserModel =
  um_users :: "UserEntry list"
  um_byId :: "string \<rightharpoonup> nat"
  um_events :: "UserModel_event list"

definition UserModel_init :: UserModel where
  "UserModel_init = \<lparr>um_users = [], um_byId = Map.empty, um_events = []\<rparr>"

text \<open>The JSON values of Qt and the two date formats the code tries.\<close>

record 'q qt_ops =
  q_document :: "string \<Rightarrow> 'q option"  \<comment> \<open>the object of the document, if it is one\<close>
  q_value :: "'q \<Rightarrow> string \<Rightarrow> 'q"
  q_toBool :: "'q \<Rightarrow> bool"
  q_toArray :: "'q \<Rightarrow> 'q list"
  q_toObject :: "'q \<Rightarrow> 'q"
  q_toString :: "'q \<Rightarrow> string"
  q_isoDate :: "string \<Rightarrow> int option"
  q_plainDate :: "string \<Rightarrow> int option"

section \<open>Operations\<close>

definition UserModel_findIndexByUserId :: "UserModel \<Rightarrow> string \<Rightarrow> int" where
  "UserModel_findIndexByUserId m userId = (case um_byId m userId of None \<Rightarrow> -1 | Some i \<Rightarrow> int i)"

definition UserModel_getUsernameById :: "UserModel \<Rightarrow> string \<Rightarrow> string" where
  "UserModel_getUsernameById m userId =
     (let idx = UserModel_findIndexByUserId m userId
      in if idx < 0 then '''' else ue_username (um_users m ! nat idx))"

definition UserModel_isUserAdmin :: "UserModel \<Rightarrow> string \<Rightarrow> bool" where
  "UserModel_isUserAdmin m userId =
     (let idx = UserModel_findIndexByUserId m userId
      in if idx < 0 then False else ue_role (um_users m ! nat idx) = ''admin'')"

definition UserModel_rowCount :: "UserModel \<Rightarrow> bool \<Rightarrow> int" where
  "UserModel_rowCount m parent_valid = (if parent_valid then 0 else int (length (um_users m)))"

definition UserModel_data :: "UserModel \<Rightarrow> nat option \<Rightarrow> UserModelRole option \<Rightarrow> UserValue" where
  "UserModel_data m index role =
     (case index of
        None \<Rightarrow> UV_invalid
      | Some row \<Rightarrow>
          if length (um_users m) \<le> row then UV_invalid
          else
            let user = um_users m ! row in
            (case role of
               Some UM_UserIdRole \<Rightarrow> UV_string (ue_userId user)
             | Some UM_UsernameRole \<Rightarrow> UV_string (ue_username user)
             | Some UM_EmailRole \<Rightarrow> UV_string (ue_email user)
             | Some UM_RoleRole \<Rightarrow> UV_string (ue_role user)
             | Some UM_IsOnlineRole \<Rightarrow> UV_bool (ue_isOnline user)
             | Some UM_LastLoginRole \<Rightarrow> UV_date (ue_lastLogin user)
             | Some UM_IpAddressRole \<Rightarrow> UV_string (ue_ipAddress user)
             | Some UM_ActiveCamerasRole \<Rightarrow> UV_int (ue_activeCameras user)
             | None \<Rightarrow> UV_invalid))"

definition UserModel_roleNames :: "(UserModelRole \<times> string) list" where
  "UserModel_roleNames =
     [(UM_UserIdRole, ''userId''), (UM_UsernameRole, ''username''), (UM_EmailRole, ''email''),
      (UM_RoleRole, ''role''), (UM_IsOnlineRole, ''isOnline''), (UM_LastLoginRole, ''lastLogin''),
      (UM_IpAddressRole, ''ipAddress''), (UM_ActiveCamerasRole, ''activeCameras'')]"

definition UserModel_clearAll :: "UserModel \<Rightarrow> UserModel" where
  "UserModel_clearAll m =
     m\<lparr>um_users := [], um_byId := Map.empty,
       um_events := um_events m @ [UM_beginResetModel, UM_endResetModel, UM_countChanged]\<rparr>"

text \<open>The seconds of the date are kept, its milliseconds are dropped (\<open>to_time_t\<close>).\<close>

definition UserModel_entry :: "UserData \<Rightarrow> UserEntry" where
  "UserModel_entry data =
     \<lparr>ue_userId = ud_userId data, ue_username = ud_username data, ue_email = ud_email data,
      ue_role = (if ud_role data = UR_Admin then ''admin'' else ''user''),
      ue_isOnline = ud_isOnline data, ue_lastLogin = Some (ud_lastLogin data div 1000 * 1000),
      ue_ipAddress = ud_ipAddress data, ue_activeCameras = ud_activeCameras data\<rparr>"

text \<open>The loop body that appends an entry as row \<open>i\<close>.\<close>

fun UserModel_fill :: "nat \<Rightarrow> UserEntry list \<Rightarrow> UserModel \<Rightarrow> UserModel" where
  "UserModel_fill i [] m = m"
| "UserModel_fill i (e # es) m =
     UserModel_fill (i + 1) es (m\<lparr>um_users := um_users m @ [e], um_byId := (um_byId m)(ue_userId e \<mapsto> i)\<rparr>)"

definition UserModel_reset :: "UserEntry list \<Rightarrow> UserModel \<Rightarrow> UserModel" where
  "UserModel_reset entries m =
     (let m1 = m\<lparr>um_events := um_events m @ [UM_beginResetModel], um_users := [], um_byId := Map.empty\<rparr>;
          m2 = UserModel_fill 0 entries m1
      in m2\<lparr>um_events := um_events m2 @ [UM_endResetModel, UM_countChanged]\<rparr>)"

definition UserModel_onStoreUpdated :: "UserData list \<Rightarrow> UserModel \<Rightarrow> UserModel" where
  "UserModel_onStoreUpdated snapshot m = UserModel_reset (map UserModel_entry snapshot) m"

definition UserModel_pending :: "'q qt_ops \<Rightarrow> 'q \<Rightarrow> UserEntry" where
  "UserModel_pending Q u =
     (let text = (\<lambda>k. q_toString Q (q_value Q u k)) in
     \<lparr>ue_userId = text ''username'', ue_username = text ''username'', ue_email = text ''email'',
      ue_role = ''pending'', ue_isOnline = False,
      ue_lastLogin = (case q_isoDate Q (text ''created'') of
                        Some d \<Rightarrow> Some d
                      | None \<Rightarrow> q_plainDate Q (text ''created'')),
      ue_ipAddress = '''', ue_activeCameras = 0\<rparr>)"

definition UserModel_onPendingListReceived :: "'q qt_ops \<Rightarrow> string \<Rightarrow> UserModel \<Rightarrow> UserModel" where
  "UserModel_onPendingListReceived Q json m =
     (case q_document Q json of
        None \<Rightarrow> m
      | Some obj \<Rightarrow>
          if \<not> q_toBool Q (q_value Q obj ''success'') then m
          else UserModel_reset
                 (map (\<lambda>v. UserModel_pending Q (q_toObject Q v)) (q_toArray Q (q_value Q obj ''users''))) m)"

section \<open>Laws\<close>

text \<open>The hash gives the last row of every user id.\<close>

definition UserModel_ok :: "UserModel \<Rightarrow> bool" where
  "UserModel_ok m \<longleftrightarrow>
     (\<forall>userId. um_byId m userId =
        map_option fst (find (\<lambda>(i, e). ue_userId e = userId) (rev (enumerate 0 (um_users m)))))"

lemma UserModel_fill_users [simp]: "um_users (UserModel_fill i es m) = um_users m @ es"
  by (induction i es m rule: UserModel_fill.induct) simp_all

lemma UserModel_fill_byId:
  "um_byId (UserModel_fill i es m) userId =
     (case find (\<lambda>(i, e). ue_userId e = userId) (rev (enumerate i es)) of
        None \<Rightarrow> um_byId m userId | Some (k, e) \<Rightarrow> Some k)"
  by (induction i es m rule: UserModel_fill.induct)
    (auto simp: find_append split: option.splits)

lemma UserModel_reset_simps [simp]:
  "um_users (UserModel_reset es m) = es"
  "um_byId (UserModel_reset es m) userId =
     map_option fst (find (\<lambda>(i, e). ue_userId e = userId) (rev (enumerate 0 es)))"
  by (auto simp: UserModel_reset_def Let_def UserModel_fill_byId split: option.splits)

lemma UserModel_reset_ok [inv_intros]: "UserModel_ok (UserModel_reset es m)"
  by (simp add: UserModel_ok_def)

lemma UserModel_enumerate:
  "(i, e) \<in> set (enumerate 0 es) \<longleftrightarrow> i < length es \<and> es ! i = e"
  by (auto simp: in_set_enumerate_eq)

interpretation user_rows: row_lookup um_users ue_userId UserModel_findIndexByUserId UserModel_ok
proof
  fix m userId
  assume ok: "UserModel_ok m"
  let ?es = "rev (enumerate 0 (um_users m))"
  show "nat (UserModel_findIndexByUserId m userId) < length (um_users m) \<and>
      ue_userId (um_users m ! nat (UserModel_findIndexByUserId m userId)) = userId"
    if "0 \<le> UserModel_findIndexByUserId m userId"
  proof -
    from that ok obtain i e where "find (\<lambda>(i, e). ue_userId e = userId) ?es = Some (i, e)"
        "UserModel_findIndexByUserId m userId = int i"
      by (auto simp: UserModel_findIndexByUserId_def UserModel_ok_def split: option.splits)
    moreover from this(1) have "ue_userId e = userId" "(i, e) \<in> set (enumerate 0 (um_users m))"
      by (auto dest!: find_SomeD)
    ultimately show ?thesis by (auto simp: UserModel_enumerate)
  qed
  show "userId \<notin> ue_userId ` set (um_users m)" if "UserModel_findIndexByUserId m userId < 0"
  proof -
    from that ok have none: "find (\<lambda>(i, e). ue_userId e = userId) ?es = None"
      by (auto simp: UserModel_findIndexByUserId_def UserModel_ok_def split: option.splits)
    show ?thesis
    proof
      assume "userId \<in> ue_userId ` set (um_users m)"
      then obtain i where "i < length (um_users m)" "ue_userId (um_users m ! i) = userId"
        by (auto simp: in_set_conv_nth)
      then have "(i, um_users m ! i) \<in> set ?es" by (simp add: UserModel_enumerate)
      with none \<open>ue_userId (um_users m ! i) = userId\<close> show False
        by (auto simp: find_None_iff)
    qed
  qed
qed

lemma UserModel_admin_row:
  assumes "UserModel_ok m" "distinct (map ue_userId (um_users m))"
  shows "UserModel_isUserAdmin m userId \<longleftrightarrow>
     (\<exists>e \<in> set (um_users m). ue_userId e = userId \<and> ue_role e = ''admin'')"
proof (cases "0 \<le> UserModel_findIndexByUserId m userId")
  case True
  then show ?thesis
    using user_rows.idx_hit [OF assms(1) True] user_rows.idx_row [OF assms]
    by (auto simp: UserModel_isUserAdmin_def Let_def)
next
  case False
  then show ?thesis
    using user_rows.idx_found_iff [OF assms(1), of userId]
    by (auto simp: UserModel_isUserAdmin_def Let_def)
qed

section \<open>Properties\<close>

text \<open>
  After a snapshot of users with distinct ids, exactly the administrators of the
  snapshot are administrators for the user interface, and every name is found by its id.
\<close>

theorem UserModel_admins_of_snapshot:
  assumes "distinct (map ud_userId snapshot)"
  shows "(UserModel_isUserAdmin (UserModel_onStoreUpdated snapshot m) userId \<longleftrightarrow>
       list_ex (\<lambda>d. ud_userId d = userId \<and> ud_role d = UR_Admin) snapshot) \<and>
     list_all (\<lambda>d. UserModel_getUsernameById (UserModel_onStoreUpdated snapshot m) (ud_userId d) =
       ud_username d) snapshot"
proof -
  let ?m = "UserModel_onStoreUpdated snapshot m"
  have ok: "UserModel_ok ?m" and users: "um_users ?m = map UserModel_entry snapshot"
    by (simp_all add: UserModel_onStoreUpdated_def UserModel_reset_ok)
  have dist: "distinct (map ue_userId (um_users ?m))"
    using assms by (simp add: users comp_def UserModel_entry_def)
  have "UserModel_getUsernameById ?m (ud_userId d) = ud_username d" if "d \<in> set snapshot" for d
  proof -
    have "UserModel_entry d \<in> set (um_users ?m)" using that by (simp add: users)
    from user_rows.idx_row [OF ok dist this] show ?thesis
      by (simp add: UserModel_getUsernameById_def Let_def UserModel_entry_def)
  qed
  then show ?thesis
    using UserModel_admin_row [OF ok dist, of userId]
    by (auto simp: list_all_iff list_ex_iff users UserModel_entry_def split: if_splits)
qed

theorem UserModel_admins_of_snapshot_witness:
  "UserModel_isUserAdmin (UserModel_onStoreUpdated
     [\<lparr>ud_userId = ''u1'', ud_username = ''ann'', ud_email = '''', ud_role = UR_Admin,
       ud_isOnline = True, ud_lastLogin = 0, ud_ipAddress = '''', ud_activeCameras = 0\<rparr>]
     UserModel_init) ''u1''"
  using UserModel_admins_of_snapshot
    [of "[\<lparr>ud_userId = ''u1'', ud_username = ''ann'', ud_email = '''', ud_role = UR_Admin,
       ud_isOnline = True, ud_lastLogin = 0, ud_ipAddress = '''', ud_activeCameras = 0\<rparr>]"
     UserModel_init "''u1''"]
  by simp

text \<open>
  A pending list never gives anybody the role of an administrator: somebody is one
  afterwards only if the list was refused, the model is as it was and they were one before.
\<close>

theorem UserModel_pending_no_admin:
  "UserModel_isUserAdmin (UserModel_onPendingListReceived Q json m) userId \<longleftrightarrow>
     UserModel_onPendingListReceived Q json m = m \<and> UserModel_isUserAdmin m userId"
proof -
  have no: "\<not> UserModel_isUserAdmin (UserModel_reset (map (\<lambda>v. UserModel_pending Q (q_toObject Q v)) vs) m) userId"
    for vs
  proof -
    let ?m = "UserModel_reset (map (\<lambda>v. UserModel_pending Q (q_toObject Q v)) vs) m"
    have role: "ue_role (um_users ?m ! i) = ''pending''" if "i < length (um_users ?m)" for i
      using that by (simp add: UserModel_pending_def Let_def)
    show ?thesis
      using user_rows.idx_hit [where s = ?m and k = userId, OF UserModel_reset_ok] role
      by (auto simp: UserModel_isUserAdmin_def Let_def)
  qed
  have "UserModel_onPendingListReceived Q json m = m \<or>
      \<not> UserModel_isUserAdmin (UserModel_onPendingListReceived Q json m) userId"
    by (simp add: UserModel_onPendingListReceived_def no split: option.splits)
  then show ?thesis by metis
qed

end
