(* ===== verification/Protocol.thy ===== *)
theory Protocol
  imports Prelude
begin

text \<open>
  Src/Network/Protocol.hpp (the message types and the packed headers) and
  Src/Network/MessageProcessor.hpp and MessageProcessor.cpp (the dispatch of a message to a
  callback of Src/Network/INetworkService.hpp). The headers are copied between memory and
  bytes with memcpy; the model is that of a little endian machine without padding, which is
  what \<open>#pragma pack\<close> and the supported platforms give.
\<close>

section \<open>Messages\<close>

datatype MessageType =
    LOGIN | SUCCESS | FAIL | DEVICE | AVAILABLE | AI | CAMERA | ASSIGN | META | IMAGE | TLS_HANDSHAKE

fun MessageType_byte :: "MessageType \<Rightarrow> byte" where
  "MessageType_byte LOGIN = 0x01"
| "MessageType_byte SUCCESS = 0x02"
| "MessageType_byte FAIL = 0x03"
| "MessageType_byte DEVICE = 0x04"
| "MessageType_byte AVAILABLE = 0x05"
| "MessageType_byte AI = 0x06"
| "MessageType_byte CAMERA = 0x07"
| "MessageType_byte ASSIGN = 0x08"
| "MessageType_byte META = 0x09"
| "MessageType_byte IMAGE = 0x0a"
| "MessageType_byte TLS_HANDSHAKE = 0x0b"

definition MessageType_all :: "MessageType list" where
  "MessageType_all =
     [LOGIN, SUCCESS, FAIL, DEVICE, AVAILABLE, AI, CAMERA, ASSIGN, META, IMAGE, TLS_HANDSHAKE]"

text \<open>\<open>static_cast<MessageType>\<close> of a byte: \<open>None\<close> for a value without an enumerator.\<close>

definition MessageType_of :: "byte \<Rightarrow> MessageType option" where
  "MessageType_of b = find (\<lambda>t. MessageType_byte t = b) MessageType_all"

record Message =
  msg_type :: byte
  msg_length :: "32 word"
  msg_payload :: bytes

section \<open>Little endian numbers\<close>

unbundle bit_operations_syntax

definition le32_bytes :: "32 word \<Rightarrow> bytes" where
  "le32_bytes w = [ucast w, ucast (drop_bit 8 w), ucast (drop_bit 16 w), ucast (drop_bit 24 w)]"

fun le32_of :: "bytes \<Rightarrow> 32 word" where
  "le32_of [a, b, c, d] =
     ucast a OR push_bit 8 (ucast b) OR push_bit 16 (ucast c) OR push_bit 24 (ucast d)"
| "le32_of _ = 0"

lemma length_le32_bytes [simp]: "length (le32_bytes w) = 4"
  by (simp add: le32_bytes_def)

lemma le32_of_bytes [simp]: "le32_of (le32_bytes w) = w"
proof (rule bit_word_eqI)
  fix n assume "n < LENGTH(32)"
  then show "bit (le32_of (le32_bytes w)) n = bit w n"
    by (cases "n < 8"; cases "n < 16"; cases "n < 24") (auto simp: le32_bytes_def bit_simps)
qed

section \<open>Frames\<close>

text \<open>A packet of the TCP stream: the type, the length of the payload, the payload.\<close>

definition header_size :: nat where
  "header_size = 5"

definition frame_bytes :: "byte \<Rightarrow> bytes \<Rightarrow> bytes" where
  "frame_bytes ty payload = ty # le32_bytes (of_nat (length payload)) @ payload"

definition header_type :: "bytes \<Rightarrow> byte" where
  "header_type h = hd h"

definition header_length :: "bytes \<Rightarrow> 32 word" where
  "header_length h = le32_of (take 4 (drop 1 h))"

lemma header_of_frame [simp]:
  "header_type (frame_bytes ty payload) = ty"
  "header_length (take header_size (frame_bytes ty payload)) = of_nat (length payload)"
  "drop header_size (frame_bytes ty payload) = payload"
  "length (frame_bytes ty payload) = header_size + length payload"
  by (simp_all add: header_type_def header_length_def frame_bytes_def header_size_def
      take_Cons' drop_Cons')

text \<open>A \<open>std::string\<close> made of the bytes of a payload, and back.\<close>

definition bytes_string :: "bytes \<Rightarrow> string" where
  "bytes_string bs = map (\<lambda>b. char_of (unat b)) bs"

definition string_bytes :: "string \<Rightarrow> bytes" where
  "string_bytes s = map (\<lambda>c. of_nat (of_char c)) s"

lemma bytes_string_roundtrip [simp]: "bytes_string (string_bytes s) = s"
proof -
  have "char_of (unat (of_nat (of_char c) :: byte)) = c" for c :: char
  proof -
    have "of_char c < (256 :: nat)" by (rule nat_of_char_less_256)
    then have "unat (of_nat (of_char c) :: byte) = of_char c"
      by (simp add: unat_of_nat)
    then show ?thesis by simp
  qed
  then show ?thesis
    by (simp add: bytes_string_def string_bytes_def comp_def)
qed

lemma length_string_bytes [simp]: "length (string_bytes s) = length s"
  by (simp add: string_bytes_def)

section \<open>Dispatch\<close>

datatype NetworkCallback =
    onLoginResult | onLoginFail | onCameraList | onDeviceStatus | onAiResult | onMetaResult
  | onAssign | onImageMeta

text \<open>
  The nine handlers: each calls one callback with the payload as text, if the callback is set
  and the payload is not empty. \<open>cbs\<close> says which callbacks are set.
\<close>

definition MessageProcessor_forward ::
  "(NetworkCallback \<Rightarrow> bool) \<Rightarrow> NetworkCallback \<Rightarrow> Message \<Rightarrow> (NetworkCallback \<times> string) list" where
  "MessageProcessor_forward cbs cb msg =
     (if cbs cb \<and> msg_payload msg \<noteq> [] then [(cb, bytes_string (msg_payload msg))] else [])"

definition MessageProcessor_handleLoginResult where
  "MessageProcessor_handleLoginResult cbs msg = MessageProcessor_forward cbs onLoginResult msg"

definition MessageProcessor_handleLoginFail where
  "MessageProcessor_handleLoginFail cbs msg = MessageProcessor_forward cbs onLoginFail msg"

definition MessageProcessor_handleDeviceStatus where
  "MessageProcessor_handleDeviceStatus cbs msg = MessageProcessor_forward cbs onDeviceStatus msg"

definition MessageProcessor_handleAvailable where
  "MessageProcessor_handleAvailable cbs msg = MessageProcessor_forward cbs onDeviceStatus msg"

definition MessageProcessor_handleAiResult where
  "MessageProcessor_handleAiResult cbs msg = MessageProcessor_forward cbs onAiResult msg"

definition MessageProcessor_handleCameraList where
  "MessageProcessor_handleCameraList cbs msg = MessageProcessor_forward cbs onCameraList msg"

definition MessageProcessor_handleAssign where
  "MessageProcessor_handleAssign cbs msg = MessageProcessor_forward cbs onAssign msg"

definition MessageProcessor_handleMeta where
  "MessageProcessor_handleMeta cbs msg = MessageProcessor_forward cbs onMetaResult msg"

definition MessageProcessor_handleImage where
  "MessageProcessor_handleImage cbs msg = MessageProcessor_forward cbs onImageMeta msg"

definition MessageProcessor_processMessage ::
  "(NetworkCallback \<Rightarrow> bool) \<Rightarrow> Message \<Rightarrow> (NetworkCallback \<times> string) list" where
  "MessageProcessor_processMessage cbs msg =
     (case MessageType_of (msg_type msg) of
        Some SUCCESS \<Rightarrow> MessageProcessor_handleLoginResult cbs msg
      | Some FAIL \<Rightarrow> MessageProcessor_handleLoginFail cbs msg
      | Some DEVICE \<Rightarrow> MessageProcessor_handleDeviceStatus cbs msg
      | Some AVAILABLE \<Rightarrow> MessageProcessor_handleAvailable cbs msg
      | Some AI \<Rightarrow> MessageProcessor_handleAiResult cbs msg
      | Some CAMERA \<Rightarrow> MessageProcessor_handleCameraList cbs msg
      | Some ASSIGN \<Rightarrow> MessageProcessor_handleAssign cbs msg
      | Some META \<Rightarrow> MessageProcessor_handleMeta cbs msg
      | Some IMAGE \<Rightarrow> MessageProcessor_handleImage cbs msg
      | _ \<Rightarrow> [])"

lemmas MessageProcessor_handlers =
  MessageProcessor_handleLoginResult_def MessageProcessor_handleLoginFail_def
  MessageProcessor_handleDeviceStatus_def MessageProcessor_handleAvailable_def
  MessageProcessor_handleAiResult_def MessageProcessor_handleCameraList_def
  MessageProcessor_handleAssign_def MessageProcessor_handleMeta_def MessageProcessor_handleImage_def

text \<open>The routing table of the protocol.\<close>

fun MessageType_callback :: "MessageType \<Rightarrow> NetworkCallback option" where
  "MessageType_callback LOGIN = None"
| "MessageType_callback SUCCESS = Some onLoginResult"
| "MessageType_callback FAIL = Some onLoginFail"
| "MessageType_callback DEVICE = Some onDeviceStatus"
| "MessageType_callback AVAILABLE = Some onDeviceStatus"
| "MessageType_callback AI = Some onAiResult"
| "MessageType_callback CAMERA = Some onCameraList"
| "MessageType_callback ASSIGN = Some onAssign"
| "MessageType_callback META = Some onMetaResult"
| "MessageType_callback IMAGE = Some onImageMeta"
| "MessageType_callback TLS_HANDSHAKE = None"

lemma MessageType_of_byte [simp]: "MessageType_of (MessageType_byte t) = Some t"
  by (cases t) (simp_all add: MessageType_of_def MessageType_all_def)

lemma MessageType_of_SomeD: "MessageType_of b = Some t \<Longrightarrow> MessageType_byte t = b"
  by (auto simp: MessageType_of_def dest: find_SomeD)

end
