(* ===== verification/Ssl.thy ===== *)
theory Ssl
  imports Prelude
begin

text \<open>
  Src/Crypt/TLS.hpp (namespace TLS, class Session) and Src/Crypt/MediaDTLS.hpp (namespace
  MediaDTLS, class Session): the two wrappers around an OpenSSL object with memory BIOs that
  the TCP and the UDP session use. OpenSSL itself is a parameter: a record of the calls the
  wrappers make, over an arbitrary type of engine states. A call that returns a count or an
  error code returns an \<open>int\<close>, as in C. The texts written to the error log are not modelled, so
  \<open>SSL_get_error\<close>, whose result only selects them, is not either: every branch behind a failed
  call goes on the same way.
\<close>

section \<open>OpenSSL\<close>

record 'e ssl_ops =
  ssl_is_init_finished :: "'e \<Rightarrow> bool"
  ssl_do_handshake :: "'e \<Rightarrow> 'e \<times> int"
  ssl_read :: "nat \<Rightarrow> 'e \<Rightarrow> 'e \<times> bytes option"  \<comment> \<open>\<open>None\<close> for a result that is not positive\<close>
  ssl_write :: "bytes \<Rightarrow> int \<Rightarrow> 'e \<Rightarrow> 'e \<times> int"
  bio_write :: "bytes \<Rightarrow> int \<Rightarrow> 'e \<Rightarrow> 'e \<times> int"  \<comment> \<open>into \<open>readBio\<close>\<close>
  bio_pending :: "'e \<Rightarrow> int"  \<comment> \<open>of \<open>writeBio\<close>\<close>
  bio_read :: "int \<Rightarrow> 'e \<Rightarrow> 'e \<times> bytes option"  \<comment> \<open>from \<open>writeBio\<close>; \<open>None\<close> as for \<open>ssl_read\<close>\<close>

text \<open>The session: \<open>None\<close> where \<open>ssl\<close> is the null pointer.\<close>

type_synonym 'e ssl_session = "'e option"

definition BufferSize :: nat where
  "BufferSize = 4096"

definition flushWriteBio :: "'e ssl_ops \<Rightarrow> 'e \<Rightarrow> 'e \<times> bytes" where
  "flushWriteBio S e =
     (let pending = bio_pending S e in
      if 0 < pending
      then (case bio_read S pending e of (e', None) \<Rightarrow> (e', []) | (e', Some out) \<Rightarrow> (e', out))
      else (e, []))"

text \<open>
  The loop \<open>while (true) { n = SSL_read(...); if (n > 0) append else break; }\<close>. It ends only if
  the engine stops handing out data.
\<close>

partial_function (option) ssl_drain :: "'e ssl_ops \<Rightarrow> bytes \<Rightarrow> 'e \<Rightarrow> ('e \<times> bytes) option" where
  "ssl_drain S plainText e =
     (case ssl_read S BufferSize e of
        (e', None) \<Rightarrow> Some (e', plainText)
      | (e', Some chunk) \<Rightarrow> ssl_drain S (plainText @ chunk) e')"

definition ssl_isHandshakeDone :: "'e ssl_ops \<Rightarrow> 'e ssl_session \<Rightarrow> bool" where
  "ssl_isHandshakeDone S s \<longleftrightarrow> (case s of None \<Rightarrow> False | Some e \<Rightarrow> ssl_is_init_finished S e)"

definition ssl_isValid :: "'e ssl_session \<Rightarrow> bool" where
  "ssl_isValid s \<longleftrightarrow> s \<noteq> None"

text \<open>One step of the handshake if it is not finished; its result only reaches the log.\<close>

definition ssl_advance :: "'e ssl_ops \<Rightarrow> 'e \<Rightarrow> 'e" where
  "ssl_advance S e = (if ssl_is_init_finished S e then e else fst (ssl_do_handshake S e))"

section \<open>The session of the TCP connection\<close>

definition TLS_Handshake :: "'e ssl_ops \<Rightarrow> 'e ssl_session \<Rightarrow> 'e ssl_session \<times> bytes" where
  "TLS_Handshake S s =
     (case s of
        None \<Rightarrow> (None, [])
      | Some e \<Rightarrow> (case flushWriteBio S (ssl_advance S e) of (e', out) \<Rightarrow> (Some e', out)))"

definition TLS_decrypt ::
  "'e ssl_ops \<Rightarrow> bytes \<Rightarrow> int \<Rightarrow> 'e ssl_session \<Rightarrow> ('e ssl_session \<times> bytes) option" where
  "TLS_decrypt S buffer len s =
     (case s of
        None \<Rightarrow> Some (None, [])
      | Some e \<Rightarrow>
          (case bio_write S buffer len e of
             (e1, written) \<Rightarrow>
               if written \<le> 0 then Some (Some e1, [])
               else
                 let e2 = ssl_advance S e1 in
                 if \<not> ssl_is_init_finished S e2 then Some (Some e2, [])
                 else map_option (\<lambda>(e3, plain). (Some e3, plain)) (ssl_drain S [] e2)))"

definition TLS_encrypt :: "'e ssl_ops \<Rightarrow> bytes \<Rightarrow> int \<Rightarrow> 'e ssl_session \<Rightarrow> 'e ssl_session \<times> bytes" where
  "TLS_encrypt S buffer len s =
     (case s of
        None \<Rightarrow> (None, [])
      | Some e \<Rightarrow>
          if \<not> ssl_is_init_finished S e then (Some e, [])
          else
            (case ssl_write S buffer len e of
               (e1, written) \<Rightarrow>
                 if written \<le> 0 then (Some e1, [])
                 else (case flushWriteBio S e1 of (e2, out) \<Rightarrow> (Some e2, out))))"

definition TLS_getHandshakeData :: "'e ssl_ops \<Rightarrow> 'e ssl_session \<Rightarrow> 'e ssl_session \<times> bytes" where
  "TLS_getHandshakeData S s =
     (case s of
        None \<Rightarrow> (None, [])
      | Some e \<Rightarrow> (case flushWriteBio S e of (e', out) \<Rightarrow> (Some e', out)))"

section \<open>The session of the media channel\<close>

definition MediaDTLS_isValid :: "'e ssl_session \<Rightarrow> bool" where
  "MediaDTLS_isValid s \<longleftrightarrow> s \<noteq> None"

definition MediaDTLS_isHandshakeDone :: "'e ssl_ops \<Rightarrow> 'e ssl_session \<Rightarrow> bool" where
  "MediaDTLS_isHandshakeDone S s \<longleftrightarrow> (case s of None \<Rightarrow> False | Some e \<Rightarrow> ssl_is_init_finished S e)"

definition MediaDTLS_flushWriteBio :: "'e ssl_ops \<Rightarrow> 'e \<Rightarrow> 'e \<times> bytes" where
  "MediaDTLS_flushWriteBio S e =
     (let pending = bio_pending S e in
      if 0 < pending
      then (case bio_read S pending e of (e', None) \<Rightarrow> (e', []) | (e', Some out) \<Rightarrow> (e', out))
      else (e, []))"

text \<open>The same code as in the other class.\<close>

lemma MediaDTLS_same [simp]:
  "MediaDTLS_isValid = ssl_isValid"
  "MediaDTLS_isHandshakeDone = ssl_isHandshakeDone"
  "MediaDTLS_flushWriteBio = flushWriteBio"
  by (simp_all add: fun_eq_iff MediaDTLS_isValid_def ssl_isValid_def MediaDTLS_isHandshakeDone_def
      ssl_isHandshakeDone_def MediaDTLS_flushWriteBio_def flushWriteBio_def)

definition MediaDTLS_Handshake ::
  "'e ssl_ops \<Rightarrow> bytes \<Rightarrow> 'e ssl_session \<Rightarrow> 'e ssl_session \<times> bytes" where
  "MediaDTLS_Handshake S incoming s =
     (case s of
        None \<Rightarrow> (None, [])
      | Some e \<Rightarrow>
          let e1 = (if incoming = [] then e else fst (bio_write S incoming (int (length incoming)) e))
          in (case MediaDTLS_flushWriteBio S (ssl_advance S e1) of (e', out) \<Rightarrow> (Some e', out)))"

text \<open>The result of \<open>SSL_write\<close> only reaches the log here.\<close>

definition MediaDTLS_encrypt :: "'e ssl_ops \<Rightarrow> bytes \<Rightarrow> int \<Rightarrow> 'e ssl_session \<Rightarrow> 'e ssl_session \<times> bytes" where
  "MediaDTLS_encrypt S buffer len s =
     (case s of
        None \<Rightarrow> (None, [])
      | Some e \<Rightarrow>
          if \<not> ssl_is_init_finished S e \<or> len \<le> 0 then (Some e, [])
          else (case MediaDTLS_flushWriteBio S (fst (ssl_write S buffer len e)) of (e', out) \<Rightarrow> (Some e', out)))"

definition MediaDTLS_decrypt ::
  "'e ssl_ops \<Rightarrow> bytes \<Rightarrow> int \<Rightarrow> 'e ssl_session \<Rightarrow> ('e ssl_session \<times> bytes) option" where
  "MediaDTLS_decrypt S buffer len s =
     (case s of
        None \<Rightarrow> Some (None, [])
      | Some e \<Rightarrow>
          if len \<le> 0 then Some (Some e, [])
          else
            let e2 = ssl_advance S (fst (bio_write S buffer len e)) in
            if \<not> ssl_is_init_finished S e2 then Some (Some e2, [])
            else map_option (\<lambda>(e3, plain). (Some e3, plain)) (ssl_drain S [] e2))"

section \<open>Termination of the reads\<close>

text \<open>
  What the loop relies on, and OpenSSL documents: a successful \<open>SSL_read\<close> takes bytes out of a
  finite store of data that has arrived. \<open>avail\<close> is the amount left.
\<close>

definition ssl_finite :: "'e ssl_ops \<Rightarrow> ('e \<Rightarrow> nat) \<Rightarrow> bool" where
  "ssl_finite S avail \<longleftrightarrow>
     (\<forall>e e' chunk. ssl_read S BufferSize e = (e', Some chunk) \<longrightarrow>
        length chunk = avail e - avail e' \<and> avail e' < avail e)"

lemma ssl_drain_returns:
  assumes "ssl_finite S avail"
  shows "\<exists>e' out. ssl_drain S plain e = Some (e', plain @ out) \<and> length out \<le> avail e"
proof (induction "avail e" arbitrary: e plain rule: less_induct)
  case less
  obtain e' r where read: "ssl_read S BufferSize e = (e', r)" by fastforce
  show ?case
  proof (cases r)
    case None
    with read show ?thesis by (subst ssl_drain.simps) simp
  next
    case (Some chunk)
    with read assms have step: "length chunk = avail e - avail e'" "avail e' < avail e"
      unfolding ssl_finite_def by blast+
    from less [OF step(2), of "plain @ chunk"] obtain e'' out where
      rest: "ssl_drain S (plain @ chunk) e' = Some (e'', (plain @ chunk) @ out)" "length out \<le> avail e'"
      by blast
    have "ssl_drain S plain e = ssl_drain S (plain @ chunk) e'"
      using read Some by (subst ssl_drain.simps) simp
    with rest step show ?thesis
      by (intro exI [of _ e''] exI [of _ "chunk @ out"]) simp
  qed
qed

section \<open>The text that reads hand out\<close>

text \<open>
  Of an engine in a state of \<open>P\<close>, \<open>pt\<close> is the plain text it holds unread: a read hands out a piece
  from its front and fails if none is left. The loop around \<open>SSL_read\<close> then hands out all of it.
\<close>

definition reads_text :: "'e ssl_ops \<Rightarrow> ('e \<Rightarrow> bytes) \<Rightarrow> ('e \<Rightarrow> bool) \<Rightarrow> bool" where
  "reads_text S pt P \<longleftrightarrow>
     (\<forall>e e' r. P e \<longrightarrow> ssl_read S BufferSize e = (e', r) \<longrightarrow> P e' \<and>
        (case r of None \<Rightarrow> pt e = [] \<and> pt e' = []
         | Some chunk \<Rightarrow> chunk \<noteq> [] \<and> pt e = chunk @ pt e'))"

lemma ssl_drain_text:
  assumes "reads_text S pt P"
  shows "P e \<Longrightarrow> \<exists>e'. ssl_drain S plain e = Some (e', plain @ pt e) \<and> P e' \<and> pt e' = []"
proof (induction "length (pt e)" arbitrary: e plain rule: less_induct)
  case less
  obtain e' r where read: "ssl_read S BufferSize e = (e', r)" by fastforce
  with assms less.prems have law: "P e'"
      "case r of None \<Rightarrow> pt e = [] \<and> pt e' = [] | Some chunk \<Rightarrow> chunk \<noteq> [] \<and> pt e = chunk @ pt e'"
    unfolding reads_text_def by blast+
  show ?case
  proof (cases r)
    case None
    with law read show ?thesis by (subst ssl_drain.simps) simp
  next
    case (Some chunk)
    with law have "length (pt e') < length (pt e)" by simp
    from less.hyps [OF this law(1), of "plain @ chunk"] law(2) Some obtain e3 where
      "ssl_drain S (plain @ chunk) e' = Some (e3, plain @ pt e)" "P e3" "pt e3 = []" by auto
    then show ?thesis
      using read Some by (subst ssl_drain.simps) simp
  qed
qed

text \<open>
  An engine that still takes records: \<open>A e rs\<close> says that \<open>e\<close> is behind its handshake and accepts
  the records of \<open>rs\<close>, each with its plain text, in this order. Writing the next record into the
  BIO puts its text behind what is unread; reading, and flushing what the engine has to send,
  leaves the records that are to come. OpenSSL documents this of an established connection.
\<close>

definition record_reader :: "'e ssl_ops \<Rightarrow> ('e \<Rightarrow> bytes) \<Rightarrow> ('e \<Rightarrow> (bytes \<times> bytes) list \<Rightarrow> bool) \<Rightarrow> bool" where
  "record_reader S pt A \<longleftrightarrow>
     (\<forall>e rs. A e rs \<longrightarrow> ssl_is_init_finished S e \<and>
        (\<forall>e' out. flushWriteBio S e = (e', out) \<longrightarrow> A e' rs \<and> pt e' = pt e)) \<and>
     (\<forall>rs. reads_text S pt (\<lambda>e. A e rs)) \<and>
     (\<forall>e cipher plain rs e' m. A e ((cipher, plain) # rs) \<longrightarrow> cipher \<noteq> [] \<longrightarrow>
        bio_write S cipher (int (length cipher)) e = (e', m) \<longrightarrow> 0 < m \<and> pt e' = pt e @ plain \<and> A e' rs)"

lemma record_readerD:
  assumes "record_reader S pt A" "A e rs"
  shows "ssl_is_init_finished S e" "flushWriteBio S e = (e', out) \<Longrightarrow> A e' rs \<and> pt e' = pt e"
  using assms(1) [unfolded record_reader_def, THEN conjunct1, rule_format, OF assms(2)] by simp_all

lemma record_reader_write:
  assumes "record_reader S pt A" "A e ((cipher, plain) # rs)" "cipher \<noteq> []"
    "bio_write S cipher (int (length cipher)) e = (e', m)"
  shows "0 < m \<and> pt e' = pt e @ plain \<and> A e' rs"
  using assms(1) [unfolded record_reader_def, THEN conjunct2, THEN conjunct2, rule_format, OF assms(2-4)] .

text \<open>Both wrappers turn the next record into its text.\<close>

lemma decrypt_reader:
  assumes "record_reader S pt A" "A e ((cipher, plain) # rs)" "pt e = []" "cipher \<noteq> []"
  obtains e' where "TLS_decrypt S cipher (int (length cipher)) (Some e) = Some (Some e', plain)"
    "MediaDTLS_decrypt S cipher (int (length cipher)) (Some e) = Some (Some e', plain)"
    "A e' rs" "pt e' = []"
proof -
  obtain e1 m where w: "bio_write S cipher (int (length cipher)) e = (e1, m)" by fastforce
  from record_reader_write [OF assms(1,2,4) w] assms(3) have e1: "0 < m" "pt e1 = plain" "A e1 rs" by simp_all
  have init: "ssl_is_init_finished S e1" using record_readerD(1) [OF assms(1) e1(3)] .
  have "reads_text S pt (\<lambda>e. A e rs)"
    using assms(1) [unfolded record_reader_def, THEN conjunct2, THEN conjunct1] by (rule spec)
  from ssl_drain_text [OF this e1(3), of "[]"] obtain e2 where
    "ssl_drain S [] e1 = Some (e2, plain)" "A e2 rs" "pt e2 = []" using e1(2) by auto
  with w init assms(4) e1(1) show ?thesis
    by (intro that [of e2]) (simp_all add: TLS_decrypt_def MediaDTLS_decrypt_def Let_def ssl_advance_def)
qed

section \<open>A loopback engine\<close>

text \<open>
  An engine that passes data through unchanged, for the witnesses of the development: the
  handshake finishes with the first step, reads come in chunks of at most the buffer size.
\<close>

record loop_engine =
  loop_in :: bytes
  loop_out :: bytes
  loop_done :: bool

definition loop_ops :: "loop_engine ssl_ops" where
  "loop_ops =
     \<lparr>ssl_is_init_finished = loop_done,
      ssl_do_handshake = (\<lambda>e. (e\<lparr>loop_done := True, loop_out := loop_out e @ [1]\<rparr>, 1)),
      ssl_read = (\<lambda>n e. if loop_in e = [] \<or> n = 0 then (e, None)
                        else (e\<lparr>loop_in := drop n (loop_in e)\<rparr>, Some (take n (loop_in e)))),
      ssl_write = (\<lambda>bs len e. (e\<lparr>loop_out := loop_out e @ take (nat len) bs\<rparr>, len)),
      bio_write = (\<lambda>bs len e. (e\<lparr>loop_in := loop_in e @ take (nat len) bs\<rparr>, len)),
      bio_pending = (\<lambda>e. int (length (loop_out e))),
      bio_read = (\<lambda>n e. (e\<lparr>loop_out := drop (nat n) (loop_out e)\<rparr>, Some (take (nat n) (loop_out e))))\<rparr>"

lemma loop_finite: "ssl_finite loop_ops (\<lambda>e. length (loop_in e))"
  by (auto simp: ssl_finite_def loop_ops_def BufferSize_def split: if_splits)

lemma loop_drain:
  assumes "length (loop_in e) \<le> BufferSize"
  shows "ssl_drain loop_ops plain e = Some (e\<lparr>loop_in := []\<rparr>, plain @ loop_in e)"
proof -
  have nil: "ssl_drain loop_ops plain e = Some (e, plain)" if "loop_in e = []" for plain e
    using that by (subst ssl_drain.simps) (simp add: loop_ops_def)
  show ?thesis
  proof (cases "loop_in e = []")
    case True
    then show ?thesis by (simp add: nil)
  next
    case False
    with assms show ?thesis
      by (subst ssl_drain.simps) (simp add: loop_ops_def BufferSize_def nil [unfolded loop_ops_def])
  qed
qed

lemma loop_reader:
  "record_reader loop_ops loop_in (\<lambda>e rs. loop_done e \<and> list_all (\<lambda>(cipher, plain). cipher = plain) rs)"
proof -
  let ?A = "\<lambda>e rs. loop_done e \<and> list_all (\<lambda>(cipher, plain). cipher = plain) rs"
  have flush: "flushWriteBio loop_ops e = (e', out) \<Longrightarrow> loop_done e' = loop_done e \<and> loop_in e' = loop_in e"
    for e e' out by (auto simp: flushWriteBio_def loop_ops_def Let_def split: if_splits)
  have read: "reads_text loop_ops loop_in (\<lambda>e. ?A e rs)" for rs
    by (auto simp: reads_text_def loop_ops_def BufferSize_def split: if_splits)
  show ?thesis
    unfolding record_reader_def
  proof (intro conjI allI impI)
    fix e rs e' out
    assume "?A e rs" "flushWriteBio loop_ops e = (e', out)"
    then show "loop_done e'" "list_all (\<lambda>(cipher, plain). cipher = plain) rs" "loop_in e' = loop_in e"
      using flush by blast+
  next
    fix e rs e' m and cipher plain :: bytes
    assume "?A e ((cipher, plain) # rs)" "cipher \<noteq> []"
      "bio_write loop_ops cipher (int (length cipher)) e = (e', m)"
    then show "0 < m" "loop_in e' = loop_in e @ plain" "loop_done e'" "list_all (\<lambda>(cipher, plain). cipher = plain) rs"
      by (auto simp: loop_ops_def)
  qed (simp_all add: read, simp_all add: loop_ops_def)
qed

section \<open>Properties\<close>

text \<open>
  Claim C20. With an engine whose reads take from a finite store, decryption returns in both
  wrappers, with at most as many bytes as the engine holds after the packet is written to it.
\<close>

theorem decrypt_returns:
  assumes "ssl_finite S avail"
  shows "(\<exists>s' plain. TLS_decrypt S buffer len s = Some (s', plain)) \<and>
     (\<exists>s' plain. MediaDTLS_decrypt S buffer len s = Some (s', plain) \<and>
        length plain \<le> (case s of None \<Rightarrow> 0
          | Some e \<Rightarrow> avail (ssl_advance S (fst (bio_write S buffer len e)))))"
proof -
  have drain: "\<exists>e' out. ssl_drain S [] e = Some (e', out) \<and> length out \<le> avail e" for e
    using ssl_drain_returns [OF assms, of "[]" e] by auto
  show ?thesis
  proof (cases s)
    case None
    then show ?thesis by (simp add: TLS_decrypt_def MediaDTLS_decrypt_def)
  next
    case (Some e)
    obtain e1 n where w: "bio_write S buffer len e = (e1, n)" by fastforce
    obtain e' out where d: "ssl_drain S [] (ssl_advance S e1) = Some (e', out)"
        "length out \<le> avail (ssl_advance S e1)"
      using drain by blast
    with Some w show ?thesis
      by (simp add: TLS_decrypt_def MediaDTLS_decrypt_def Let_def)
  qed
qed

theorem decrypt_returns_witness:
  "\<exists>s' plain. TLS_decrypt loop_ops [7, 8] 2
     (Some \<lparr>loop_in = [], loop_out = [], loop_done = True\<rparr>) = Some (s', plain)"
  using decrypt_returns [OF loop_finite] by blast

text \<open>
  Before the handshake is finished neither wrapper turns plain text into packets, and
  a packet that does not finish it gives no plain text.
\<close>

theorem no_data_before_handshake:
  assumes "\<not> ssl_isHandshakeDone S s"
  shows "TLS_encrypt S buffer len s = (s, []) \<and> MediaDTLS_encrypt S buffer len s = (s, []) \<and>
     (case TLS_decrypt S buffer len s of None \<Rightarrow> True
      | Some (s', plain) \<Rightarrow> plain = [] \<or> ssl_isHandshakeDone S (map_option
          (\<lambda>e. ssl_advance S (fst (bio_write S buffer len e))) s)) \<and>
     (case MediaDTLS_decrypt S buffer len s of None \<Rightarrow> True
      | Some (s', plain) \<Rightarrow> plain = [] \<or> ssl_isHandshakeDone S (map_option
          (\<lambda>e. ssl_advance S (fst (bio_write S buffer len e))) s))"
proof (cases s)
  case None
  then show ?thesis
    by (simp add: TLS_encrypt_def MediaDTLS_encrypt_def TLS_decrypt_def MediaDTLS_decrypt_def)
next
  case (Some e)
  with assms have "\<not> ssl_is_init_finished S e"
    by (simp add: ssl_isHandshakeDone_def)
  with Some show ?thesis
    by (auto simp: TLS_encrypt_def MediaDTLS_encrypt_def TLS_decrypt_def MediaDTLS_decrypt_def
        ssl_isHandshakeDone_def Let_def split: prod.splits option.splits)
qed

theorem no_data_before_handshake_witness:
  "TLS_encrypt loop_ops [1] 1 (Some \<lparr>loop_in = [], loop_out = [], loop_done = False\<rparr>) =
     (Some \<lparr>loop_in = [], loop_out = [], loop_done = False\<rparr>, [])"
  using no_data_before_handshake [of loop_ops "Some \<lparr>loop_in = [], loop_out = [], loop_done = False\<rparr>" "[1]" 1]
  by (simp add: ssl_isHandshakeDone_def loop_ops_def)

end
