(* ===== verification/TcpSession.thy ===== *)
theory TcpSession
  imports Protocol Ssl
begin

text \<open>
  Src/Network/TcpSession.hpp: the framing of the TCP connection and its TLS handshake. The
  asynchronous calls of Boost.Asio are a parameter of the environment: the session is a state
  with the read that is outstanding, and its handlers are operations that take what the read
  delivered and give the new state and what the session does (writes, calls of its handlers)
  in order. All handlers run on the session's strand, one at a time.
\<close>

section \<open>State\<close>

datatype tcp_phase = TCP_reading_header | TCP_reading_body | TCP_stopped

record 'e TcpSession =
  tcp_message :: Message  \<comment> \<open>\<open>currentMessage_\<close>\<close>
  tcp_phase :: tcp_phase
  tcp_disconnected :: bool
  tcp_handshakeCompleted :: bool
  tcp_tls :: "'e ssl_session option"  \<comment> \<open>\<open>tlsSession_\<close>, \<open>None\<close> without TLS\<close>

datatype tcp_out =
    TCP_write bytes
  | TCP_onMessage Message
  | TCP_onConnected
  | TCP_close
  | TCP_onDisconnect

text \<open>Which of the three handlers are set.\<close>

record tcp_handlers =
  th_message :: bool
  th_disconnect :: bool
  th_connected :: bool

definition TcpSession_new :: "'e ssl_session option \<Rightarrow> 'e TcpSession" where
  "TcpSession_new tls =
     \<lparr>tcp_message = \<lparr>msg_type = 0, msg_length = 0, msg_payload = []\<rparr>, tcp_phase = TCP_stopped,
      tcp_disconnected = False, tcp_handshakeCompleted = False, tcp_tls = tls\<rparr>"

section \<open>Operations\<close>

definition TcpSession_handleTlsOutput ::
  "'e ssl_ops \<Rightarrow> 'e TcpSession \<Rightarrow> 'e TcpSession \<times> tcp_out list" where
  "TcpSession_handleTlsOutput S st =
     (case tcp_tls st of
        None \<Rightarrow> (st, [])
      | Some s \<Rightarrow>
          (case TLS_Handshake S s of
             (s', response) \<Rightarrow>
               (st\<lparr>tcp_tls := Some s'\<rparr>,
                if response = [] then []
                else [TCP_write (frame_bytes (MessageType_byte TLS_HANDSHAKE) response)])))"

definition TcpSession_start ::
  "'e ssl_ops \<Rightarrow> tcp_handlers \<Rightarrow> 'e TcpSession \<Rightarrow> 'e TcpSession \<times> tcp_out list" where
  "TcpSession_start S H st =
     (case tcp_tls st of
        None \<Rightarrow> (st\<lparr>tcp_phase := TCP_reading_header\<rparr>, if th_connected H then [TCP_onConnected] else [])
      | Some s \<Rightarrow>
          (case TcpSession_handleTlsOutput S st of
             (st', outs) \<Rightarrow> (st'\<lparr>tcp_phase := TCP_reading_header\<rparr>, outs)))"

text \<open>The posted part of \<open>sendMessage\<close>.\<close>

definition TcpSession_sendMessage ::
  "'e ssl_ops \<Rightarrow> Message \<Rightarrow> 'e TcpSession \<Rightarrow> 'e TcpSession \<times> tcp_out list" where
  "TcpSession_sendMessage S msg st =
     (case tcp_tls st of
        Some s \<Rightarrow>
          if 0 < msg_length msg
          then (case TLS_encrypt S (msg_payload msg) (sint (msg_length msg)) s of
                  (s', finalPayload) \<Rightarrow>
                    (st\<lparr>tcp_tls := Some s'\<rparr>, [TCP_write (frame_bytes (msg_type msg) finalPayload)]))
          else (st, [TCP_write (frame_bytes (msg_type msg) (msg_payload msg))])
      | None \<Rightarrow> (st, [TCP_write (frame_bytes (msg_type msg) (msg_payload msg))]))"

definition TcpSession_handleDisconnect ::
  "tcp_handlers \<Rightarrow> 'e TcpSession \<Rightarrow> 'e TcpSession \<times> tcp_out list" where
  "TcpSession_handleDisconnect H st =
     (if tcp_disconnected st then (st, [])
      else (st\<lparr>tcp_disconnected := True\<rparr>,
            TCP_close # (if th_disconnect H then [TCP_onDisconnect] else [])))"

text \<open>The completion of the header read, with the five bytes of the buffer.\<close>

definition TcpSession_onHeader ::
  "'e ssl_ops \<Rightarrow> tcp_handlers \<Rightarrow> bytes \<Rightarrow> 'e TcpSession \<Rightarrow> 'e TcpSession \<times> tcp_out list" where
  "TcpSession_onHeader S H headerBuffer st =
     (let msg = (tcp_message st)\<lparr>msg_type := header_type headerBuffer, msg_length := header_length headerBuffer\<rparr>
      in if 0 < msg_length msg
         then (st\<lparr>tcp_message := msg, tcp_phase := TCP_reading_body\<rparr>, [])
         else
           let st1 = st\<lparr>tcp_message := msg\<lparr>msg_payload := []\<rparr>, tcp_phase := TCP_reading_header\<rparr>
           in if tcp_tls st1 \<noteq> None \<and> msg_type msg = MessageType_byte TLS_HANDSHAKE
              then TcpSession_handleTlsOutput S st1
              else (st1, if th_message H then [TCP_onMessage (tcp_message st1)] else []))"

text \<open>The completion of the body read, with the bytes of the body. \<open>None\<close>: it does not return.\<close>

definition TcpSession_onBody ::
  "'e ssl_ops \<Rightarrow> tcp_handlers \<Rightarrow> bytes \<Rightarrow> 'e TcpSession \<Rightarrow> ('e TcpSession \<times> tcp_out list) option" where
  "TcpSession_onBody S H body st =
     (let st0 = st\<lparr>tcp_message := (tcp_message st)\<lparr>msg_payload := body\<rparr>, tcp_phase := TCP_reading_header\<rparr>;
          deliver = (\<lambda>st. if th_message H \<and> 0 < msg_length (tcp_message st)
                          then [TCP_onMessage (tcp_message st)] else [])
      in case tcp_tls st0 of
           None \<Rightarrow> Some (st0, deliver st0)
         | Some s \<Rightarrow>
             if 0 < msg_length (tcp_message st0)
             then
               map_option (\<lambda>(s', plain).
                 let st1 = st0\<lparr>tcp_tls := Some s',
                       tcp_message := (tcp_message st0)\<lparr>msg_payload := plain,
                                                        msg_length := of_nat (length plain)\<rparr>\<rparr>;
                     (st2, outs) = TcpSession_handleTlsOutput S st1
                 in if msg_type (tcp_message st2) = MessageType_byte TLS_HANDSHAKE
                    then
                      if ssl_isHandshakeDone S (the (tcp_tls st2)) \<and> \<not> tcp_handshakeCompleted st2
                      then (st2\<lparr>tcp_handshakeCompleted := True\<rparr>,
                            outs @ (if th_connected H then [TCP_onConnected] else []))
                      else (st2, outs)
                    else (st2, outs @ deliver st2))
                 (TLS_decrypt S body (sint (msg_length (tcp_message st0))) s)
             else Some (st0, deliver st0))"

text \<open>A read or a write that completes with an error.\<close>

definition TcpSession_onReadError ::
  "tcp_handlers \<Rightarrow> 'e TcpSession \<Rightarrow> 'e TcpSession \<times> tcp_out list" where
  "TcpSession_onReadError H st = TcpSession_handleDisconnect H (st\<lparr>tcp_phase := TCP_stopped\<rparr>)"

definition TcpSession_onWriteError ::
  "tcp_handlers \<Rightarrow> 'e TcpSession \<Rightarrow> 'e TcpSession \<times> tcp_out list" where
  "TcpSession_onWriteError H st = TcpSession_handleDisconnect H st"

section \<open>The byte stream\<close>

text \<open>
  The environment of the session: \<open>boost::asio::async_read\<close> completes a read as soon as as many
  bytes as it asks for are there, and buffers the others. \<open>TcpSession_feed\<close> drives the handlers
  above on a stream of bytes in this way. The result is the state, what the session did, and the
  bytes no read has taken yet.
\<close>

function TcpSession_feed ::
  "'e ssl_ops \<Rightarrow> tcp_handlers \<Rightarrow> bytes \<Rightarrow> 'e TcpSession \<Rightarrow> ('e TcpSession \<times> tcp_out list \<times> bytes) option"
where
  "TcpSession_feed S H bs st =
     (case tcp_phase st of
        TCP_stopped \<Rightarrow> Some (st, [], bs)
      | TCP_reading_header \<Rightarrow>
          if length bs < header_size then Some (st, [], bs)
          else
            (case TcpSession_onHeader S H (take header_size bs) st of
               (st', outs) \<Rightarrow>
                 map_option (\<lambda>(st'', outs', rest). (st'', outs @ outs', rest))
                   (TcpSession_feed S H (drop header_size bs) st'))
      | TCP_reading_body \<Rightarrow>
          let n = unat (msg_length (tcp_message st)) in
          if n = 0 \<or> length bs < n then Some (st, [], bs)
          else
            (case TcpSession_onBody S H (take n bs) st of
               None \<Rightarrow> None
             | Some (st', outs) \<Rightarrow>
                 map_option (\<lambda>(st'', outs', rest). (st'', outs @ outs', rest))
                   (TcpSession_feed S H (drop n bs) st')))"
  by pat_completeness auto
termination
  by (relation "measure (\<lambda>(S, H, bs, st). length bs)") (auto simp: header_size_def)

declare TcpSession_feed.simps [simp del]

text \<open>
  The same stream arriving in chunks: what no read has taken waits for the next chunk.
\<close>

fun TcpSession_receive ::
  "'e ssl_ops \<Rightarrow> tcp_handlers \<Rightarrow> bytes list \<Rightarrow> bytes \<Rightarrow> 'e TcpSession \<Rightarrow>
     ('e TcpSession \<times> tcp_out list \<times> bytes) option"
where
  "TcpSession_receive S H [] pending st = Some (st, [], pending)"
| "TcpSession_receive S H (c # cs) pending st =
     (case TcpSession_feed S H (pending @ c) st of
        None \<Rightarrow> None
      | Some (st', outs, rest) \<Rightarrow>
          map_option (\<lambda>(st'', outs', rest'). (st'', outs @ outs', rest'))
            (TcpSession_receive S H cs rest st'))"

text \<open>What the client does with what the session hands over.\<close>

definition TcpSession_dispatch :: "(NetworkCallback \<Rightarrow> bool) \<Rightarrow> tcp_out \<Rightarrow> (NetworkCallback \<times> string) list" where
  "TcpSession_dispatch cbs out =
     (case out of TCP_onMessage msg \<Rightarrow> MessageProcessor_processMessage cbs msg | _ \<Rightarrow> [])"

section \<open>Events\<close>

text \<open>
  What can happen to a started session, in any order: a message to send, the completion of the
  outstanding read (ignored when that read is not outstanding), a failed read or write.
\<close>

datatype tcp_event =
    TE_send Message
  | TE_header bytes
  | TE_body bytes
  | TE_readError
  | TE_writeError

definition TcpSession_event ::
  "'e ssl_ops \<Rightarrow> tcp_handlers \<Rightarrow> tcp_event \<Rightarrow> 'e TcpSession \<Rightarrow> ('e TcpSession \<times> tcp_out list) option" where
  "TcpSession_event S H ev st =
     (case ev of
        TE_send msg \<Rightarrow> Some (TcpSession_sendMessage S msg st)
      | TE_header bs \<Rightarrow>
          if tcp_phase st = TCP_reading_header then Some (TcpSession_onHeader S H bs st) else Some (st, [])
      | TE_body bs \<Rightarrow>
          if tcp_phase st = TCP_reading_body then TcpSession_onBody S H bs st else Some (st, [])
      | TE_readError \<Rightarrow>
          if tcp_phase st \<noteq> TCP_stopped then Some (TcpSession_onReadError H st) else Some (st, [])
      | TE_writeError \<Rightarrow> Some (TcpSession_onWriteError H st))"

fun TcpSession_events ::
  "'e ssl_ops \<Rightarrow> tcp_handlers \<Rightarrow> tcp_event list \<Rightarrow> 'e TcpSession \<Rightarrow> ('e TcpSession \<times> tcp_out list) option"
where
  "TcpSession_events S H [] st = Some (st, [])"
| "TcpSession_events S H (ev # evs) st =
     (case TcpSession_event S H ev st of
        None \<Rightarrow> None
      | Some (st', outs) \<Rightarrow>
          map_option (\<lambda>(st'', outs'). (st'', outs @ outs')) (TcpSession_events S H evs st'))"

section \<open>Laws\<close>

lemma TcpSession_feed_stop:
  "length bs < header_size \<Longrightarrow> tcp_phase st = TCP_reading_header \<Longrightarrow>
     TcpSession_feed S H bs st = Some (st, [], bs)"
  by (subst TcpSession_feed.simps) simp

lemma TcpSession_feed_header:
  "header_size \<le> length bs \<Longrightarrow> tcp_phase st = TCP_reading_header \<Longrightarrow>
     TcpSession_feed S H bs st =
       (case TcpSession_onHeader S H (take header_size bs) st of
          (st', outs) \<Rightarrow>
            map_option (\<lambda>(st'', outs', rest). (st'', outs @ outs', rest))
              (TcpSession_feed S H (drop header_size bs) st'))"
  by (subst TcpSession_feed.simps) simp

lemma TcpSession_feed_body:
  "tcp_phase st = TCP_reading_body \<Longrightarrow> 0 < unat (msg_length (tcp_message st)) \<Longrightarrow>
     unat (msg_length (tcp_message st)) \<le> length bs \<Longrightarrow>
     TcpSession_feed S H bs st =
       (case TcpSession_onBody S H (take (unat (msg_length (tcp_message st))) bs) st of
          None \<Rightarrow> None
        | Some (st', outs) \<Rightarrow>
            map_option (\<lambda>(st'', outs', rest). (st'', outs @ outs', rest))
              (TcpSession_feed S H (drop (unat (msg_length (tcp_message st))) bs) st'))"
  by (subst TcpSession_feed.simps) (simp add: Let_def)

text \<open>Bytes that come later continue where the bytes before stopped.\<close>

lemma TcpSession_feed_append:
  "TcpSession_feed S H (xs @ ys) st =
     (case TcpSession_feed S H xs st of
        None \<Rightarrow> None
      | Some (st', outs, rest) \<Rightarrow>
          map_option (\<lambda>(st'', outs', rest'). (st'', outs @ outs', rest'))
            (TcpSession_feed S H (rest @ ys) st'))"
proof (induction S H xs st rule: TcpSession_feed.induct)
  case (1 S H xs st)
  have id: "(case Some (st, [], xs) of
        None \<Rightarrow> None
      | Some (st', outs, rest) \<Rightarrow>
          map_option (\<lambda>(st'', outs', rest'). (st'', outs @ outs', rest'))
            (TcpSession_feed S H (rest @ ys) st')) = TcpSession_feed S H (xs @ ys) st"
    by (cases "TcpSession_feed S H (xs @ ys) st") auto
  show ?case
  proof (cases "tcp_phase st")
    case TCP_stopped
    then show ?thesis by (simp add: TcpSession_feed.simps [where ?st = st])
  next
    case TCP_reading_header
    show ?thesis
    proof (cases "length xs < header_size")
      case True
      with TCP_reading_header have "TcpSession_feed S H xs st = Some (st, [], xs)"
        by (simp add: TcpSession_feed_stop)
      then show ?thesis by (simp only: id)
    next
      case False
      obtain st' outs where h: "TcpSession_onHeader S H (take header_size xs) st = (st', outs)"
        by fastforce
      note IH = 1(1) [OF TCP_reading_header False h [symmetric]]
      show ?thesis
        using False TCP_reading_header h IH
        by (auto simp: TcpSession_feed_header option.map_comp comp_def split_def split: option.splits)
    qed
  next
    case TCP_reading_body
    let ?n = "unat (msg_length (tcp_message st))"
    show ?thesis
    proof (cases "?n = 0 \<or> length xs < ?n")
      case True
      with TCP_reading_body have "TcpSession_feed S H xs st = Some (st, [], xs)"
        by (subst TcpSession_feed.simps) auto
      then show ?thesis by (simp only: id)
    next
      case False
      show ?thesis
      proof (cases "TcpSession_onBody S H (take ?n xs) st")
        case None
        with False TCP_reading_body show ?thesis
          by (simp add: TcpSession_feed_body)
      next
        case (Some r)
        obtain st' outs where r: "r = (st', outs)" by fastforce
        note IH = 1(2) [OF TCP_reading_body refl False Some r [symmetric]]
        show ?thesis
          using False TCP_reading_body Some r IH
          by (auto simp: TcpSession_feed_body option.map_comp comp_def split_def split: option.splits)
      qed
    qed
  qed
qed

text \<open>One frame on a session without TLS.\<close>

definition frame_message :: "byte \<times> bytes \<Rightarrow> Message" where
  "frame_message f =
     \<lparr>msg_type = fst f, msg_length = of_nat (length (snd f)), msg_payload = snd f\<rparr>"

lemma frame_header [simp]:
  "header_type (take header_size (frame_bytes ty payload @ bs)) = ty"
  "header_length (take header_size (frame_bytes ty payload @ bs)) = of_nat (length payload)"
  "header_size \<le> length (frame_bytes ty payload @ bs)"
proof -
  have "take header_size (frame_bytes ty payload @ bs) = take header_size (frame_bytes ty payload)"
    by simp
  then show "header_type (take header_size (frame_bytes ty payload @ bs)) = ty"
    and "header_length (take header_size (frame_bytes ty payload @ bs)) = of_nat (length payload)"
    by (simp_all only: header_of_frame) (simp add: header_type_def frame_bytes_def header_size_def)
qed simp

lemma TcpSession_feed_frame_empty:
  assumes "tcp_phase st = TCP_reading_header" "tcp_tls st = None \<or> ty \<noteq> MessageType_byte TLS_HANDSHAKE"
  shows "TcpSession_feed S H (frame_bytes ty [] @ bs) st =
    map_option (\<lambda>(st'', outs', rest).
        (st'', (if th_message H then [TCP_onMessage (frame_message (ty, []))] else []) @ outs', rest))
      (TcpSession_feed S H bs (st\<lparr>tcp_message := frame_message (ty, [])\<rparr>))"
proof -
  have "TcpSession_onHeader S H (take header_size (frame_bytes ty [] @ bs)) st =
      (st\<lparr>tcp_message := frame_message (ty, [])\<rparr>,
       if th_message H then [TCP_onMessage (frame_message (ty, []))] else [])"
    using assms unfolding TcpSession_onHeader_def Let_def
    by (auto simp: frame_message_def simp del: take_append)
  then show ?thesis
    using TcpSession_feed_header [OF frame_header(3) [of ty "[]" bs] assms(1), of S H] by simp
qed

lemma TcpSession_feed_frame_body:
  assumes "tcp_phase st = TCP_reading_header" "payload \<noteq> []" "length payload < 2 ^ 32"
  shows "TcpSession_feed S H (frame_bytes ty payload @ bs) st =
    (case TcpSession_onBody S H payload
        (st\<lparr>tcp_message := (tcp_message st)\<lparr>msg_type := ty, msg_length := of_nat (length payload)\<rparr>,
            tcp_phase := TCP_reading_body\<rparr>) of
       None \<Rightarrow> None
     | Some (st', outs) \<Rightarrow>
         map_option (\<lambda>(st'', outs', rest). (st'', outs @ outs', rest)) (TcpSession_feed S H bs st'))"
proof -
  have unat: "unat (of_nat (length payload) :: 32 word) = length payload"
    using assms(3) by (simp add: unat_of_nat)
  then have pos: "0 < (of_nat (length payload) :: 32 word)"
    using assms(2) by (simp add: word_greater_zero_iff unat_eq_0 [symmetric] del: unat_eq_0)
  let ?st = "st\<lparr>tcp_message := (tcp_message st)\<lparr>msg_type := ty, msg_length := of_nat (length payload)\<rparr>,
      tcp_phase := TCP_reading_body\<rparr>"
  have header: "TcpSession_onHeader S H (take header_size (frame_bytes ty payload @ bs)) st = (?st, [])"
    using pos unfolding TcpSession_onHeader_def Let_def frame_header by simp
  have "TcpSession_feed S H (frame_bytes ty payload @ bs) st = TcpSession_feed S H (payload @ bs) ?st"
    using TcpSession_feed_header [OF frame_header(3) [of ty payload bs] assms(1), of S H]
    unfolding header by (cases "TcpSession_feed S H (payload @ bs) ?st") auto
  also have "\<dots> = (case TcpSession_onBody S H payload ?st of
       None \<Rightarrow> None
     | Some (st', outs) \<Rightarrow>
         map_option (\<lambda>(st'', outs', rest). (st'', outs @ outs', rest)) (TcpSession_feed S H bs st'))"
    using assms(2) unat by (subst TcpSession_feed_body) (simp_all split: option.split)
  finally show ?thesis .
qed

lemma TcpSession_feed_frame:
  assumes "tcp_tls st = None" "tcp_phase st = TCP_reading_header" "length payload < 2 ^ 32"
  shows "TcpSession_feed S H (frame_bytes ty payload @ bs) st =
    map_option (\<lambda>(st'', outs', rest).
        (st'', (if th_message H then [TCP_onMessage (frame_message (ty, payload))] else []) @ outs', rest))
      (TcpSession_feed S H bs (st\<lparr>tcp_message := frame_message (ty, payload)\<rparr>))"
proof (cases "payload = []")
  case True
  with TcpSession_feed_frame_empty [OF assms(2), of ty S H bs] assms(1) show ?thesis by simp
next
  case False
  have "unat (of_nat (length payload) :: 32 word) = length payload"
    using assms(3) by (simp add: unat_of_nat)
  with False have pos: "0 < (of_nat (length payload) :: 32 word)"
    by (simp add: word_greater_zero_iff unat_eq_0 [symmetric] del: unat_eq_0)
  have "TcpSession_onBody S H payload
        (st\<lparr>tcp_message := (tcp_message st)\<lparr>msg_type := ty, msg_length := of_nat (length payload)\<rparr>,
            tcp_phase := TCP_reading_body\<rparr>) = Some (st\<lparr>tcp_message := frame_message (ty, payload)\<rparr>,
        if th_message H then [TCP_onMessage (frame_message (ty, payload))] else [])"
    using assms(1,2) pos by (simp add: TcpSession_onBody_def Let_def frame_message_def)
  with TcpSession_feed_frame_body [OF assms(2) False assms(3)] show ?thesis by simp
qed

lemma TcpSession_feed_nil: "TcpSession_feed S H [] st = Some (st, [], [])"
  by (cases "tcp_phase st"; cases "unat (msg_length (tcp_message st)) = 0")
    (simp_all add: TcpSession_feed.simps [where ?st = st] header_size_def Let_def)

lemma TcpSession_feed_stable:
  assumes "TcpSession_feed S H xs st = Some (st', outs, rest)"
  shows "TcpSession_feed S H rest st' = Some (st', [], rest)"
  using TcpSession_feed_append [of S H xs "[]" st] assms
  by (cases "TcpSession_feed S H rest st'") auto

lemma TcpSession_receive_feed:
  assumes "TcpSession_feed S H pending st = Some (st, [], pending)"
  shows "TcpSession_receive S H chunks pending st = TcpSession_feed S H (pending @ concat chunks) st"
  using assms
proof (induction chunks arbitrary: pending st)
  case Nil
  then show ?case by simp
next
  case (Cons c cs)
  show ?case
  proof (cases "TcpSession_feed S H (pending @ c) st")
    case None
    with TcpSession_feed_append [of S H "pending @ c" "concat cs" st] show ?thesis by simp
  next
    case (Some r)
    obtain st' outs rest where "r = (st', outs, rest)" by (cases r)
    with Some Cons.IH [OF TcpSession_feed_stable] TcpSession_feed_append [of S H "pending @ c" "concat cs" st]
    show ?thesis by simp
  qed
qed

text \<open>A message of a known type reaches the callback of its type.\<close>

lemma MessageProcessor_of_frame:
  "MessageProcessor_processMessage cbs (frame_message (MessageType_byte t, string_bytes text)) =
     (case MessageType_callback t of
        None \<Rightarrow> []
      | Some cb \<Rightarrow> if cbs cb \<and> text \<noteq> [] then [(cb, text)] else [])"
proof -
  have "string_bytes text = [] \<longleftrightarrow> text = []" by (simp add: string_bytes_def)
  then have forward: "MessageProcessor_forward cbs cb (frame_message (b, string_bytes text)) =
      (if cbs cb \<and> text \<noteq> [] then [(cb, text)] else [])" for cb b
    by (simp add: MessageProcessor_forward_def frame_message_def)
  have "msg_type (frame_message (MessageType_byte t, string_bytes text)) = MessageType_byte t"
    by (simp add: frame_message_def)
  then show ?thesis
    by (cases t) (simp_all only: MessageProcessor_processMessage_def MessageProcessor_handlers
        forward MessageType_of_byte MessageType_callback.simps option.case MessageType.case)
qed

subsection \<open>Calls of the handlers\<close>

text \<open>
  How often the disconnect and the connected handler may still be called: every operation pays
  for the calls it makes.
\<close>

definition TcpSession_disconnects_left :: "'e TcpSession \<Rightarrow> nat" where
  "TcpSession_disconnects_left st = (if tcp_disconnected st then 0 else 1)"

definition TcpSession_connects_left :: "'e TcpSession \<Rightarrow> nat" where
  "TcpSession_connects_left st = (if tcp_tls st = None \<or> tcp_handshakeCompleted st then 0 else 1)"

lemma TcpSession_handleTlsOutput_calls:
  assumes "TcpSession_handleTlsOutput S st = (st', outs)"
  shows "TCP_onDisconnect \<notin> set outs \<and> TCP_onConnected \<notin> set outs \<and>
    tcp_disconnected st' = tcp_disconnected st \<and> tcp_handshakeCompleted st' = tcp_handshakeCompleted st \<and>
    (tcp_tls st' = None \<longleftrightarrow> tcp_tls st = None) \<and> tcp_message st' = tcp_message st"
  using assms by (auto simp: TcpSession_handleTlsOutput_def split: option.splits prod.splits if_splits)

lemma count_notin_0 [simp]: "x \<notin> set xs \<Longrightarrow> count_list xs x = 0"
  by (induction xs) auto

lemma TcpSession_onBody_cases:
  assumes "TcpSession_onBody S H body st = Some (st', outs)"
  obtains
    (clear) "tcp_tls st = None \<or> msg_length (tcp_message st) = 0"
      "st' = st\<lparr>tcp_message := (tcp_message st)\<lparr>msg_payload := body\<rparr>, tcp_phase := TCP_reading_header\<rparr>"
      "outs = (if th_message H \<and> 0 < msg_length (tcp_message st') then [TCP_onMessage (tcp_message st')] else [])"
  | (tls) s s' plain st1 st2 outs1 outs2 where
      "tcp_tls st = Some s" "TLS_decrypt S body (sint (msg_length (tcp_message st))) s = Some (s', plain)"
      "st1 = st\<lparr>tcp_phase := TCP_reading_header, tcp_tls := Some s',
          tcp_message := (tcp_message st)\<lparr>msg_payload := plain, msg_length := of_nat (length plain)\<rparr>\<rparr>"
      "TcpSession_handleTlsOutput S st1 = (st2, outs1)" "outs = outs1 @ outs2"
      "st' = st2\<lparr>tcp_handshakeCompleted := True\<rparr> \<and> \<not> tcp_handshakeCompleted st2 \<and>
         outs2 = (if th_connected H then [TCP_onConnected] else []) \<or>
       st' = st2 \<and> outs2 = [] \<or>
       st' = st2 \<and> outs2 = [TCP_onMessage (tcp_message st2)] \<and> 0 < msg_length (tcp_message st2) \<and>
         msg_type (tcp_message st2) \<noteq> MessageType_byte TLS_HANDSHAKE"
proof (cases "tcp_tls st = None \<or> msg_length (tcp_message st) = 0")
  case True
  with assms clear show ?thesis
    by (auto simp: TcpSession_onBody_def Let_def split: option.splits)
next
  case False
  then obtain s where s: "tcp_tls st = Some s" "0 < msg_length (tcp_message st)"
    by (auto simp: word_greater_zero_iff)
  then obtain s' plain where d: "TLS_decrypt S body (sint (msg_length (tcp_message st))) s = Some (s', plain)"
    using assms by (auto simp: TcpSession_onBody_def Let_def)
  let ?st1 = "st\<lparr>tcp_phase := TCP_reading_header, tcp_tls := Some s',
      tcp_message := (tcp_message st)\<lparr>msg_payload := plain, msg_length := of_nat (length plain)\<rparr>\<rparr>"
  obtain st2 outs1 where h: "TcpSession_handleTlsOutput S ?st1 = (st2, outs1)" by fastforce
  from assms s d h show ?thesis
    by (auto simp: TcpSession_onBody_def Let_def split: if_splits intro: tls [OF s(1) d refl h])
qed

lemma TcpSession_onBody_pays:
  assumes "TcpSession_onBody S H body st = Some (st', outs)"
  shows "count_list outs TCP_onDisconnect + TcpSession_disconnects_left st' \<le> TcpSession_disconnects_left st"
    "count_list outs TCP_onConnected + TcpSession_connects_left st' \<le> TcpSession_connects_left st"
  using assms
  by (cases rule: TcpSession_onBody_cases;
      auto simp: TcpSession_disconnects_left_def TcpSession_connects_left_def
        dest!: TcpSession_handleTlsOutput_calls split: if_splits)+

lemma TcpSession_onHeader_pays:
  assumes "TcpSession_onHeader S H bs st = (st', outs)"
  shows "count_list outs TCP_onDisconnect + TcpSession_disconnects_left st' \<le> TcpSession_disconnects_left st"
    "count_list outs TCP_onConnected + TcpSession_connects_left st' \<le> TcpSession_connects_left st"
  using assms
  by (auto simp: TcpSession_onHeader_def Let_def TcpSession_disconnects_left_def TcpSession_connects_left_def
      dest!: TcpSession_handleTlsOutput_calls split: if_splits)

lemma TcpSession_event_pays:
  assumes "TcpSession_event S H ev st = Some (st', outs)"
  shows "count_list outs TCP_onDisconnect + TcpSession_disconnects_left st' \<le> TcpSession_disconnects_left st"
    "count_list outs TCP_onConnected + TcpSession_connects_left st' \<le> TcpSession_connects_left st"
  using assms
  by (cases ev;
      auto simp: TcpSession_event_def TcpSession_sendMessage_def TcpSession_onReadError_def
        TcpSession_onWriteError_def TcpSession_handleDisconnect_def TcpSession_disconnects_left_def
        TcpSession_connects_left_def
        dest: TcpSession_onBody_pays TcpSession_onHeader_pays split: if_splits option.splits prod.splits)+

lemma TcpSession_events_pay:
  assumes "TcpSession_events S H evs st = Some (st', outs)"
  shows "count_list outs TCP_onDisconnect + TcpSession_disconnects_left st' \<le> TcpSession_disconnects_left st \<and>
    count_list outs TCP_onConnected + TcpSession_connects_left st' \<le> TcpSession_connects_left st"
  using assms
proof (induction evs arbitrary: st outs)
  case (Cons ev evs)
  obtain st1 outs1 outs2 where ev: "TcpSession_event S H ev st = Some (st1, outs1)"
    and evs: "TcpSession_events S H evs st1 = Some (st', outs2)" and outs: "outs = outs1 @ outs2"
    using Cons.prems by (auto split: option.splits)
  show ?case
    using Cons.IH [OF evs] TcpSession_event_pays [OF ev] outs by simp
qed simp

lemma TcpSession_start_pays:
  assumes "TcpSession_start S H (TcpSession_new tls) = (st, outs)"
  shows "count_list outs TCP_onDisconnect + TcpSession_disconnects_left st \<le> 1"
    "count_list outs TCP_onConnected + TcpSession_connects_left st \<le> 1"
  using assms
  by (auto simp: TcpSession_start_def TcpSession_new_def TcpSession_disconnects_left_def
      TcpSession_connects_left_def dest!: TcpSession_handleTlsOutput_calls split: option.splits prod.splits)

section \<open>Properties\<close>

text \<open>
  Claim C13. Over the life of a connection, whatever is sent and received and however often reads
  and writes fail, the disconnect handler and the connected handler are called at most once each.
\<close>

theorem TcpSession_handlers_once:
  assumes "TcpSession_start S H (TcpSession_new tls) = (st, outs)"
    and "TcpSession_events S H evs st = Some (st', outs')"
  shows "count_list (outs @ outs') TCP_onDisconnect \<le> 1 \<and> count_list (outs @ outs') TCP_onConnected \<le> 1"
  using TcpSession_start_pays [OF assms(1)] TcpSession_events_pay [OF assms(2)] by simp

theorem TcpSession_handlers_once_witness:
  "count_list ([TCP_onConnected] @ [TCP_close, TCP_onDisconnect]) (TCP_onDisconnect :: tcp_out) \<le> 1"
  using TcpSession_handlers_once [of loop_ops "\<lparr>th_message = True, th_disconnect = True, th_connected = True\<rparr>"
      None "(TcpSession_new None)\<lparr>tcp_phase := TCP_reading_header\<rparr>" "[TCP_onConnected]"
      "[TE_writeError, TE_readError, TE_writeError]"
      "(TcpSession_new None)\<lparr>tcp_phase := TCP_stopped, tcp_disconnected := True\<rparr>"
      "[TCP_close, TCP_onDisconnect]"]
  by (simp add: TcpSession_start_def TcpSession_new_def TcpSession_event_def
      TcpSession_onReadError_def TcpSession_onWriteError_def TcpSession_handleDisconnect_def)

text \<open>
  On a connection with TLS a body is handed on as a message only if the engine has
  finished its handshake once the body is in, and the message is a non-empty decrypted text.
\<close>

theorem TcpSession_tls_guards_messages:
  assumes "tcp_tls st = Some (Some e)" "0 < msg_length (tcp_message st)"
    and "TcpSession_onBody S H body st = Some (st', outs)" "TCP_onMessage msg \<in> set outs"
  shows "ssl_is_init_finished S
      (ssl_advance S (fst (bio_write S body (sint (msg_length (tcp_message st))) e))) \<and>
    msg_payload msg \<noteq> [] \<and> msg_type msg \<noteq> MessageType_byte TLS_HANDSHAKE"
  using assms(3)
proof (cases rule: TcpSession_onBody_cases)
  case clear
  with assms(1,2) show ?thesis by simp
next
  case (tls s s' plain st1 st2 outs1 outs2)
  have "TCP_onMessage msg \<notin> set outs1"
    using tls(4) by (auto simp: TcpSession_handleTlsOutput_def split: option.splits prod.splits if_splits)
  then have "msg = tcp_message st2" "0 < msg_length msg" "msg_type msg \<noteq> MessageType_byte TLS_HANDSHAKE"
    using assms(4) tls(5,6) by (auto split: if_splits)
  moreover have "tcp_message st2 = tcp_message st1"
    using TcpSession_handleTlsOutput_calls [OF tls(4)] by simp
  ultimately have plain: "plain \<noteq> []" "msg_payload msg = plain" "msg_type msg \<noteq> MessageType_byte TLS_HANDSHAKE"
    using tls(3) by auto
  with tls(1,2) assms(1) show ?thesis
    by (auto simp: TLS_decrypt_def Let_def split: prod.splits if_splits)
qed

theorem TcpSession_tls_guards_messages_witness:
  "ssl_is_init_finished loop_ops
     (ssl_advance loop_ops (fst (bio_write loop_ops [5] 1 \<lparr>loop_in = [], loop_out = [], loop_done = True\<rparr>)))"
proof -
  define st where "st = (TcpSession_new (Some (Some \<lparr>loop_in = [], loop_out = [], loop_done = True\<rparr>)))
    \<lparr>tcp_phase := TCP_reading_body, tcp_message := \<lparr>msg_type = 6, msg_length = 1, msg_payload = []\<rparr>\<rparr>"
  have "TcpSession_onBody loop_ops \<lparr>th_message = True, th_disconnect = True, th_connected = True\<rparr> [5] st =
      Some (st\<lparr>tcp_phase := TCP_reading_header,
               tcp_message := \<lparr>msg_type = 6, msg_length = 1, msg_payload = [5]\<rparr>\<rparr>,
            [TCP_onMessage \<lparr>msg_type = 6, msg_length = 1, msg_payload = [5]\<rparr>])"
    by (simp add: st_def TcpSession_new_def TcpSession_onBody_def Let_def TLS_decrypt_def
        TcpSession_handleTlsOutput_def TLS_Handshake_def flushWriteBio_def ssl_advance_def loop_ops_def
        loop_drain [unfolded loop_ops_def] BufferSize_def)
  from TcpSession_tls_guards_messages [OF _ _ this, of "\<lparr>loop_in = [], loop_out = [], loop_done = True\<rparr>"]
  show ?thesis by (simp add: st_def TcpSession_new_def)
qed

end
