(* ===== verification/TlsChannel.thy ===== *)
theory TlsChannel
  imports TcpSession
begin

text \<open>
  A session of TcpSession.hpp behind its TLS handshake. First the frames of any server (\<open>carried\<close>):
  each is in the clear, or its payload is a record that the engine of the session reads as the text.
  Then two sessions at the ends of one connection: what the one sends reaches the callbacks of the
  other. The engines are arbitrary; what is assumed of them is what OpenSSL documents of
  \<open>SSL_write\<close>, \<open>SSL_read\<close> and the memory buffers.
\<close>

section \<open>The engines\<close>

text \<open>
  \<open>R e1 e2\<close>: what engine \<open>e1\<close> writes, engine \<open>e2\<close> reads; \<open>pt e2\<close> is the plain text that \<open>e2\<close> holds
  unread. A write of less than \<open>2 ^ 30\<close> bytes succeeds and leaves records of less than \<open>2 ^ 31\<close>
  bytes in the write buffer; these, written to the other side, are read as what was written. A
  read hands out a piece of the text, and fails if none is left. Emptying the write buffer of the
  reading side changes neither.
\<close>

definition tls_channel :: "'e ssl_ops \<Rightarrow> ('e \<Rightarrow> bytes) \<Rightarrow> ('e \<Rightarrow> 'e \<Rightarrow> bool) \<Rightarrow> bool" where
  "tls_channel S pt R \<longleftrightarrow>
     (\<forall>e1 e2. R e1 e2 \<longrightarrow> ssl_is_init_finished S e1 \<and> ssl_is_init_finished S e2 \<and>
        (\<forall>bs e1' n e1'' cipher. bs \<noteq> [] \<longrightarrow> length bs < 2 ^ 30 \<longrightarrow>
           ssl_write S bs (int (length bs)) e1 = (e1', n) \<longrightarrow> flushWriteBio S e1' = (e1'', cipher) \<longrightarrow>
           0 < n \<and> cipher \<noteq> [] \<and> length cipher < 2 ^ 31 \<and>
           (\<forall>e2' m. bio_write S cipher (int (length cipher)) e2 = (e2', m) \<longrightarrow>
              0 < m \<and> pt e2' = pt e2 @ bs \<and> R e1'' e2')) \<and>
        (\<forall>e2' out. flushWriteBio S e2 = (e2', out) \<longrightarrow> R e1 e2' \<and> pt e2' = pt e2)) \<and>
     (\<forall>e1. reads_text S pt (R e1))"

lemma tls_channelD:
  assumes "tls_channel S pt R" "R e1 e2"
  shows "ssl_is_init_finished S e1" "ssl_is_init_finished S e2"
    and "bs \<noteq> [] \<Longrightarrow> length bs < 2 ^ 30 \<Longrightarrow> ssl_write S bs (int (length bs)) e1 = (e1', n) \<Longrightarrow>
      flushWriteBio S e1' = (e1'', cipher) \<Longrightarrow>
      0 < n \<and> cipher \<noteq> [] \<and> length cipher < 2 ^ 31 \<and>
      (\<forall>e2' m. bio_write S cipher (int (length cipher)) e2 = (e2', m) \<longrightarrow>
         0 < m \<and> pt e2' = pt e2 @ bs \<and> R e1'' e2')"
    and "flushWriteBio S e2 = (e2', out) \<Longrightarrow> R e1 e2' \<and> pt e2' = pt e2"
  using assms unfolding tls_channel_def by blast+

lemma tls_channel_reads: "tls_channel S pt R \<Longrightarrow> reads_text S pt (R e1)"
  by (simp add: tls_channel_def)

section \<open>One message\<close>

text \<open>The sender: a message that is not empty goes out as one frame of records.\<close>

lemma TLS_encrypt_channel:
  assumes "tls_channel S pt R" "R e1 e2" "bs \<noteq> []" "length bs < 2 ^ 30"
  obtains e1' cipher where "TLS_encrypt S bs (int (length bs)) (Some e1) = (Some e1', cipher)"
    "cipher \<noteq> []" "length cipher < 2 ^ 31"
    "\<And>e e' m. R e1 e \<Longrightarrow> bio_write S cipher (int (length cipher)) e = (e', m) \<Longrightarrow>
       0 < m \<and> pt e' = pt e @ bs \<and> R e1' e'"
proof -
  obtain w n where w: "ssl_write S bs (int (length bs)) e1 = (w, n)" by fastforce
  obtain e1' cipher where f: "flushWriteBio S w = (e1', cipher)" by fastforce
  note law = tls_channelD(3) [OF assms(1) _ assms(3,4) w f]
  from w f law [OF assms(2)] tls_channelD(1) [OF assms(1,2)]
  have "TLS_encrypt S bs (int (length bs)) (Some e1) = (Some e1', cipher)"
    by (simp add: TLS_encrypt_def)
  with law law [OF assms(2)] show ?thesis by (intro that) auto
qed

text \<open>Its peer takes the record: the channel is a reader of this record, then of none.\<close>

lemma tls_channel_reader:
  assumes "tls_channel S pt R"
    and "\<And>e e' m. R e1 e \<Longrightarrow> bio_write S cipher (int (length cipher)) e = (e', m) \<Longrightarrow>
       0 < m \<and> pt e' = pt e @ bs \<and> R e1' e'"
  shows "record_reader S pt (\<lambda>e rs. rs = [] \<and> R e1' e \<or> rs = [(cipher, bs)] \<and> R e1 e)"
proof -
  have reads: "reads_text S pt (\<lambda>e. rs = [] \<and> R e1' e \<or> rs = [(cipher, bs)] \<and> R e1 e)" for rs
    using tls_channel_reads [OF assms(1), of e1] tls_channel_reads [OF assms(1), of e1']
    by (cases "rs = []"; cases "rs = [(cipher, bs)]") (simp_all add: reads_text_def)
  show ?thesis
    unfolding record_reader_def
  proof (intro conjI allI impI)
    fix e rs e' out
    assume A: "rs = [] \<and> R e1' e \<or> rs = [(cipher, bs)] \<and> R e1 e"
    then show "ssl_is_init_finished S e" using tls_channelD(2) [OF assms(1)] by blast
    assume f: "flushWriteBio S e = (e', out)"
    from A tls_channelD(4) [OF assms(1) _ f]
    show "rs = [] \<and> R e1' e' \<or> rs = [(cipher, bs)] \<and> R e1 e'" "pt e' = pt e" by blast+
  next
    fix e cipher' plain rs e' m
    assume "(cipher', plain) # rs = [] \<and> R e1' e \<or> (cipher', plain) # rs = [(cipher, bs)] \<and> R e1 e"
      and w: "bio_write S cipher' (int (length cipher')) e = (e', m)"
    then have same: "cipher' = cipher" "plain = bs" "rs = []" "R e1 e" by simp_all
    from assms(2) [OF same(4) w [unfolded same]] same
    show "0 < m" "pt e' = pt e @ plain" "rs = [] \<and> R e1' e' \<or> rs = [(cipher, bs)] \<and> R e1 e'" by simp_all
  qed (rule reads)
qed

text \<open>The receiver answers with at most a frame of its own.\<close>

lemma handleTlsOutput_reader:
  assumes "record_reader S pt A" "A e rs" "tcp_tls st = Some (Some e)"
  obtains e' outs where "TcpSession_handleTlsOutput S st = (st\<lparr>tcp_tls := Some (Some e')\<rparr>, outs)"
    "A e' rs" "pt e' = pt e" "\<And>cbs. concat (map (TcpSession_dispatch cbs) outs) = []"
proof -
  obtain e' out where f: "flushWriteBio S e = (e', out)" by fastforce
  note law = record_readerD(2) [OF assms(1,2) f]
  from record_readerD(1) [OF assms(1,2)] f have "TLS_Handshake S (Some e) = (Some e', out)"
    by (simp add: TLS_Handshake_def ssl_advance_def)
  with assms(3) law show ?thesis
    by (intro that [of e' "if out = [] then [] else [TCP_write (frame_bytes (MessageType_byte TLS_HANDSHAKE) out)]"])
       (auto simp: TcpSession_handleTlsOutput_def TcpSession_dispatch_def)
qed

lemma dispatch_simps [simp]:
  "TcpSession_dispatch cbs (TCP_write bs) = []"
  "TcpSession_dispatch cbs (TCP_onMessage msg) = MessageProcessor_processMessage cbs msg"
  by (simp_all add: TcpSession_dispatch_def)

lemma sint_length: "length bs < 2 ^ 31 \<Longrightarrow> sint (of_nat (length bs) :: 32 word) = int (length bs)"
  by (simp add: sint_uint signed_take_bit_int_eq_self unsigned_of_nat take_bit_nat_eq_self)

lemma length_pos: "bs \<noteq> [] \<Longrightarrow> length bs < 2 ^ 31 \<Longrightarrow> 0 < (of_nat (length bs) :: 32 word)"
  using sint_length [of bs] by (cases "(of_nat (length bs) :: 32 word) = 0") (auto simp: word_greater_zero_iff)

text \<open>A frame of records arrives: the receiver hands over the message that was sent.\<close>

text \<open>A frame of records arrives: the receiver hands over the message that was sent.\<close>

definition text_message :: "MessageType \<times> string \<Rightarrow> Message" where
  "text_message = (\<lambda>(t, text). frame_message (MessageType_byte t, string_bytes text))"

lemma TcpSession_feed_record:
  assumes reader: "record_reader S pt A" "A e ((cipher, bs) # rs)" "pt e = []"
    and st: "tcp_tls st = Some (Some e)" "tcp_phase st = TCP_reading_header" "th_message H"
    and ty: "ty \<noteq> MessageType_byte TLS_HANDSHAKE"
    and len: "bs \<noteq> []" "length bs < 2 ^ 31" "cipher \<noteq> []" "length cipher < 2 ^ 31"
  obtains st' e' outs where "tcp_tls st' = Some (Some e')" "tcp_phase st' = TCP_reading_header" "pt e' = []" "A e' rs"
    "\<And>cbs. concat (map (TcpSession_dispatch cbs) outs) =
       MessageProcessor_processMessage cbs (frame_message (ty, bs))"
    "\<And>rest. TcpSession_feed S H (frame_bytes ty cipher @ rest) st =
       map_option (\<lambda>(st'', outs', r). (st'', outs @ outs', r)) (TcpSession_feed S H rest st')"
proof -
  let ?st = "st\<lparr>tcp_message := (tcp_message st)\<lparr>msg_type := ty, msg_length := of_nat (length cipher)\<rparr>,
      tcp_phase := TCP_reading_body\<rparr>"
  obtain e1 where decrypt: "TLS_decrypt S cipher (int (length cipher)) (Some e) = Some (Some e1, bs)"
      and e1: "A e1 rs" "pt e1 = []"
    using decrypt_reader [OF reader len(3)] by blast
  let ?st1 = "st\<lparr>tcp_message := \<lparr>msg_type = ty, msg_length = of_nat (length bs), msg_payload = bs\<rparr>,
      tcp_tls := Some (Some e1)\<rparr>"
  obtain e' outs1 where out: "TcpSession_handleTlsOutput S ?st1 = (?st1\<lparr>tcp_tls := Some (Some e')\<rparr>, outs1)"
      and e': "A e' rs" "pt e' = pt e1" "\<And>cbs. concat (map (TcpSession_dispatch cbs) outs1) = []"
    using handleTlsOutput_reader [OF reader(1) e1(1), of ?st1] by auto
  let ?outs = "outs1 @ [TCP_onMessage (frame_message (ty, bs))]"
  let ?st' = "?st1\<lparr>tcp_tls := Some (Some e')\<rparr>"
  have body: "TcpSession_onBody S H cipher ?st = Some (?st', ?outs)"
  proof -
    have st1: "st\<lparr>tcp_phase := TCP_reading_header, tcp_tls := Some (Some e1),
        tcp_message := (tcp_message st)\<lparr>msg_type := ty, msg_payload := bs, msg_length := of_nat (length bs)\<rparr>\<rparr> = ?st1"
      using st(2) by (cases st) (simp add: Message.equality)
    show ?thesis
      using st(1,3) length_pos [OF len(3,4)] length_pos [OF len(1,2)] decrypt sint_length [OF len(4)] ty out
      unfolding TcpSession_onBody_def Let_def
      by (simp add: st1 frame_message_def st(2))
  qed
  have feed: "TcpSession_feed S H (frame_bytes ty cipher @ rest) st =
       map_option (\<lambda>(st'', outs', r). (st'', ?outs @ outs', r)) (TcpSession_feed S H rest ?st')" for rest
    using TcpSession_feed_frame_body [OF st(2) len(3), of S H ty rest] len(4) body by simp
  show ?thesis
    using st(2) e1 e'(1,2,3) by (intro that [of ?st' e' ?outs, OF _ _ _ _ _ feed]) simp_all
qed

lemma TcpSession_feed_no_text:
  assumes "tcp_tls st = None \<or> t \<noteq> TLS_HANDSHAKE" "tcp_phase st = TCP_reading_header" "th_message H"
  shows "TcpSession_feed S H (frame_bytes (MessageType_byte t) [] @ rest) st =
    map_option (\<lambda>(st'', outs', r). (st'', [TCP_onMessage (text_message (t, ''''))] @ outs', r))
      (TcpSession_feed S H rest (st\<lparr>tcp_message := text_message (t, '''')\<rparr>))"
proof -
  have "tcp_tls st = None \<or> MessageType_byte t \<noteq> MessageType_byte TLS_HANDSHAKE"
    using assms(1) by (cases t) simp_all
  with TcpSession_feed_frame_empty [OF assms(2), of "MessageType_byte t" S H rest] assms(3)
  show ?thesis by (simp add: text_message_def string_bytes_def)
qed

section \<open>Any number of messages\<close>

text \<open>
  The frames of a server, as triples of the type, the text and the payload: \<open>carried\<close> says that
  the payloads carry the texts. In the clear the payload is the text. Over TLS it is the records of
  the text, which the engine takes in the order of the frames; a frame without a text has none.
\<close>

definition carried ::
  "('e \<Rightarrow> bytes) \<Rightarrow> ('e \<Rightarrow> (bytes \<times> bytes) list \<Rightarrow> bool) \<Rightarrow> 'e ssl_session option \<Rightarrow>
     (MessageType \<times> string \<times> bytes) list \<Rightarrow> bool"
where
  "carried pt A tls frames \<longleftrightarrow>
     (case tls of
        None \<Rightarrow> list_all (\<lambda>(t, str, payload). payload = string_bytes str \<and> length str < 2 ^ 32) frames
      | Some None \<Rightarrow> False
      | Some (Some e) \<Rightarrow>
          pt e = [] \<and>
          A e (map (\<lambda>(t, str, payload). (payload, string_bytes str)) (filter (\<lambda>(t, str, payload). str \<noteq> '''') frames)) \<and>
          list_all (\<lambda>(t, str, payload). t \<noteq> TLS_HANDSHAKE \<and> (payload = [] \<longleftrightarrow> str = '''') \<and>
            length payload < 2 ^ 31 \<and> length str < 2 ^ 31) frames)"

definition wire_frames :: "(MessageType \<times> string \<times> bytes) list \<Rightarrow> bytes" where
  "wire_frames frames = concat (map (\<lambda>(t, str, payload). frame_bytes (MessageType_byte t) payload) frames)"

lemma wire_frames_simps [simp]:
  "wire_frames [] = []"
  "wire_frames ((t, str, payload) # frames) = frame_bytes (MessageType_byte t) payload @ wire_frames frames"
  by (simp_all add: wire_frames_def)

lemma string_bytes_length [simp]: "length (string_bytes s) = length s" "string_bytes s = [] \<longleftrightarrow> s = ''''"
  by (simp_all add: string_bytes_def)

lemma TcpSession_feed_carried_frame:
  assumes "record_reader S pt A" "th_message H" "tcp_phase st = TCP_reading_header"
    "carried pt A (tcp_tls st) ((t, str, payload) # frames)"
  obtains st' outs where "tcp_phase st' = TCP_reading_header" "carried pt A (tcp_tls st') frames"
    "\<And>cbs. concat (map (TcpSession_dispatch cbs) outs) =
       MessageProcessor_processMessage cbs (text_message (t, str))"
    "\<And>rest. TcpSession_feed S H (frame_bytes (MessageType_byte t) payload @ rest) st =
       map_option (\<lambda>(st'', outs', r). (st'', outs @ outs', r)) (TcpSession_feed S H rest st')"
proof (cases "tcp_tls st")
  case None
  with assms(2-4) show ?thesis
    by (intro that [of "st\<lparr>tcp_message := frame_message (MessageType_byte t, payload)\<rparr>"
          "[TCP_onMessage (text_message (t, str))]"])
      (simp_all add: carried_def TcpSession_feed_frame text_message_def)
next
  case (Some s)
  with assms(4) obtain e where e: "tcp_tls st = Some (Some e)" "pt e = []"
    and t: "t \<noteq> TLS_HANDSHAKE" and p: "payload = [] \<longleftrightarrow> str = ''''" "length payload < 2 ^ 31" "length str < 2 ^ 31"
    by (cases s) (simp_all add: carried_def)
  from t have byte: "MessageType_byte t \<noteq> MessageType_byte TLS_HANDSHAKE" by (cases t) simp_all
  show ?thesis
  proof (cases "str = ''''")
    case True
    with p(1) have "payload = []" by simp
    with True assms(2-4) t TcpSession_feed_no_text [of st t H S] show ?thesis
      by (intro that [of "st\<lparr>tcp_message := text_message (t, '''')\<rparr>" "[TCP_onMessage (text_message (t, str))]"])
        (simp_all add: carried_def e)
  next
    case False
    with assms(4) e have A: "A e ((payload, string_bytes str) # map (\<lambda>(t, str, payload). (payload, string_bytes str))
        (filter (\<lambda>(t, str, payload). str \<noteq> '''') frames))" by (simp add: carried_def)
    show ?thesis
    proof (rule TcpSession_feed_record [OF assms(1) A e(2,1) assms(3,2) byte])
      fix st' e' outs
      assume st': "tcp_tls st' = Some (Some e')" "tcp_phase st' = TCP_reading_header" "pt e' = []"
        "A e' (map (\<lambda>(t, str, payload). (payload, string_bytes str)) (filter (\<lambda>(t, str, payload). str \<noteq> '''') frames))"
        and rest: "\<And>cbs. concat (map (TcpSession_dispatch cbs) outs) =
          MessageProcessor_processMessage cbs (frame_message (MessageType_byte t, string_bytes str))"
          "\<And>rest. TcpSession_feed S H (frame_bytes (MessageType_byte t) payload @ rest) st =
            map_option (\<lambda>(st'', outs', r). (st'', outs @ outs', r)) (TcpSession_feed S H rest st')"
      show ?thesis
        using st' rest assms(4) e by (intro that [OF st'(2) _ _ rest(2)]) (simp_all add: carried_def text_message_def)
    qed (use False p in simp_all)
  qed
qed

lemma TcpSession_receive_carried:
  assumes "record_reader S pt A" "carried pt A (tcp_tls st) frames" "tcp_phase st = TCP_reading_header" "th_message H"
    and "concat chunks = wire_frames frames"
  obtains st' outs where "TcpSession_receive S H chunks [] st = Some (st', outs, [])"
    "\<And>cbs. concat (map (TcpSession_dispatch cbs) outs) =
       concat (map (\<lambda>(t, str, payload). MessageProcessor_processMessage cbs (text_message (t, str))) frames)"
proof -
  have "\<exists>st' outs. TcpSession_feed S H (wire_frames frames) st = Some (st', outs, []) \<and>
    (\<forall>cbs. concat (map (TcpSession_dispatch cbs) outs) =
       concat (map (\<lambda>(t, str, payload). MessageProcessor_processMessage cbs (text_message (t, str))) frames))"
    using assms(2,3)
  proof (induction frames arbitrary: st)
    case Nil
    then show ?case by (simp add: TcpSession_feed_nil)
  next
    case (Cons f frames)
    obtain t str payload where f: "f = (t, str, payload)" by (cases f)
    show ?case
    proof (rule TcpSession_feed_carried_frame [OF assms(1,4) Cons.prems(2) Cons.prems(1) [unfolded f]])
      fix st' outs
      assume st': "tcp_phase st' = TCP_reading_header" "carried pt A (tcp_tls st') frames"
        and one: "\<And>cbs. concat (map (TcpSession_dispatch cbs) outs) =
          MessageProcessor_processMessage cbs (text_message (t, str))"
          "\<And>rest. TcpSession_feed S H (frame_bytes (MessageType_byte t) payload @ rest) st =
            map_option (\<lambda>(st'', outs', r). (st'', outs @ outs', r)) (TcpSession_feed S H rest st')"
      from Cons.IH [OF st'(2,1)] show ?case
        by (auto simp: f one)
    qed
  qed
  with that show ?thesis
    using TcpSession_receive_feed [OF TcpSession_feed_nil, of S H chunks st] assms(5) by auto
qed

section \<open>Properties\<close>

text \<open>
  Claim C39. What one session sends over TLS, the other delivers. A text of fewer than
  \<open>2 ^ 30\<close> bytes that is sent behind the handshake goes out as one write. Whatever chunks the bytes
  of this write arrive in, as long as those of no other write come between them, the other session decrypts
  them and calls the callback of the type, once, with the text unchanged, if that callback is set
  and the text is not empty. No byte is left over, and the two sessions are ready for the next text.
\<close>

theorem TcpSession_tls_roundtrip:
  assumes "tls_channel S pt R" "R e1 e2" "pt e2 = []"
    and "tcp_tls st1 = Some (Some e1)" "tcp_tls st2 = Some (Some e2)"
    and "tcp_phase st2 = TCP_reading_header" "th_message H"
    and "t \<noteq> TLS_HANDSHAKE" "length str < 2 ^ 30"
  shows "\<exists>st1' e1' bs.
    TcpSession_sendMessage S (text_message (t, str)) st1 = (st1', [TCP_write bs]) \<and> tcp_tls st1' = Some (Some e1') \<and>
    (\<forall>chunks. concat chunks = bs \<longrightarrow>
      (\<exists>st2' e2' outs. TcpSession_receive S H chunks [] st2 = Some (st2', outs, []) \<and>
         concat (map (TcpSession_dispatch cbs) outs) =
           (case MessageType_callback t of
              None \<Rightarrow> []
            | Some cb \<Rightarrow> if cbs cb \<and> str \<noteq> [] then [(cb, str)] else []) \<and>
         tcp_tls st2' = Some (Some e2') \<and> tcp_phase st2' = TCP_reading_header \<and> R e1' e2' \<and> pt e2' = []))"
proof -
  have dispatch: "MessageProcessor_processMessage cbs (text_message (t, str)) =
      (case MessageType_callback t of None \<Rightarrow> [] | Some cb \<Rightarrow> if cbs cb \<and> str \<noteq> [] then [(cb, str)] else [])"
    by (simp add: text_message_def MessageProcessor_of_frame)
  have receive: "TcpSession_receive S H chunks [] st2 = TcpSession_feed S H (concat chunks @ []) st2" for chunks
    using TcpSession_receive_feed [OF TcpSession_feed_nil, of S H chunks st2] by simp
  from assms(8) have byte: "MessageType_byte t \<noteq> MessageType_byte TLS_HANDSHAKE" by (cases t) simp_all
  show ?thesis
  proof (cases "str = ''''")
    case True
    then have "TcpSession_sendMessage S (text_message (t, str)) st1 =
        (st1, [TCP_write (frame_bytes (MessageType_byte t) [])])"
      using assms(4) by (simp add: TcpSession_sendMessage_def text_message_def frame_message_def string_bytes_def)
    moreover have "TcpSession_feed S H (frame_bytes (MessageType_byte t) [] @ []) st2 =
        Some (st2\<lparr>tcp_message := text_message (t, '''')\<rparr>, [TCP_onMessage (text_message (t, ''''))], [])"
      unfolding TcpSession_feed_no_text [OF disjI2 [OF assms(8)] assms(6,7)] by (simp add: TcpSession_feed_nil)
    ultimately show ?thesis
      using assms(2-6) dispatch by (auto simp: receive True)
  next
    case False
    then have bs: "string_bytes str \<noteq> []" "length (string_bytes str) < 2 ^ 30" "length (string_bytes str) < 2 ^ 31"
      using assms(9) by simp_all
    show ?thesis
    proof (rule TLS_encrypt_channel [OF assms(1,2) bs(1,2)])
      fix e1' cipher
      assume enc: "TLS_encrypt S (string_bytes str) (int (length (string_bytes str))) (Some e1) = (Some e1', cipher)"
          "cipher \<noteq> []" "length cipher < 2 ^ 31"
        and law: "\<And>e e' m. R e1 e \<Longrightarrow> bio_write S cipher (int (length cipher)) e = (e', m) \<Longrightarrow>
          0 < m \<and> pt e' = pt e @ string_bytes str \<and> R e1' e'"
      from assms(4) enc(1) length_pos [OF bs(1,3)] sint_length [OF bs(3)]
      have send: "TcpSession_sendMessage S (text_message (t, str)) st1 =
          (st1\<lparr>tcp_tls := Some (Some e1')\<rparr>, [TCP_write (frame_bytes (MessageType_byte t) cipher)])"
        by (simp add: TcpSession_sendMessage_def text_message_def frame_message_def)
      let ?A = "\<lambda>e rs. rs = [] \<and> R e1' e \<or> rs = [(cipher, string_bytes str)] \<and> R e1 e"
      have reader: "record_reader S pt ?A" using assms(1) law by (rule tls_channel_reader)
      have A: "?A e2 [(cipher, string_bytes str)]" using assms(2) by simp
      show ?thesis
      proof (rule TcpSession_feed_record [where A = ?A, OF reader A assms(3,5-7) byte bs(1,3) enc(2,3)])
        fix st' e' outs
        assume st': "tcp_tls st' = Some (Some e')" "tcp_phase st' = TCP_reading_header" "pt e' = []" "?A e' []"
          and outs: "\<And>cbs. concat (map (TcpSession_dispatch cbs) outs) =
            MessageProcessor_processMessage cbs (frame_message (MessageType_byte t, string_bytes str))"
          and feed: "\<And>rest. TcpSession_feed S H (frame_bytes (MessageType_byte t) cipher @ rest) st2 =
            map_option (\<lambda>(st'', outs', r). (st'', outs @ outs', r)) (TcpSession_feed S H rest st')"
        have "TcpSession_feed S H (frame_bytes (MessageType_byte t) cipher @ []) st2 = Some (st', outs, [])"
          unfolding feed by (simp add: TcpSession_feed_nil)
        with send st' outs dispatch show ?thesis
          by (auto simp: receive text_message_def)
      qed
    qed
  qed
qed

section \<open>Instances\<close>

text \<open>The loopback engine is such a channel: \<open>e1\<close> has nothing unsent, \<open>e2\<close> holds its input unread.\<close>

lemma loop_channel:
  "tls_channel loop_ops loop_in (\<lambda>e1 e2. loop_done e1 \<and> loop_done e2 \<and> loop_out e1 = [])"
  by (auto simp: tls_channel_def reads_text_def loop_ops_def flushWriteBio_def Let_def BufferSize_def split: if_splits)

text \<open>A camera list in two chunks.\<close>

theorem TcpSession_tls_roundtrip_witness:
  "\<exists>st1' st2' outs.
     TcpSession_sendMessage loop_ops (text_message (CAMERA, ''[]''))
       (TcpSession_new (Some (Some \<lparr>loop_in = [], loop_out = [], loop_done = True\<rparr>))) =
       (st1', [TCP_write [7, 2, 0, 0, 0, 91, 93]]) \<and>
     TcpSession_receive loop_ops \<lparr>th_message = True, th_disconnect = True, th_connected = True\<rparr>
       [[7, 2, 0], [0, 0, 91, 93]] []
       ((TcpSession_new (Some (Some \<lparr>loop_in = [], loop_out = [], loop_done = True\<rparr>)))
          \<lparr>tcp_phase := TCP_reading_header\<rparr>) = Some (st2', outs, []) \<and>
     concat (map (TcpSession_dispatch (\<lambda>_. True)) outs) = [(onCameraList, ''[]'')]"
proof -
  let ?e = "\<lparr>loop_in = [], loop_out = [], loop_done = True\<rparr>"
  let ?H = "\<lparr>th_message = True, th_disconnect = True, th_connected = True\<rparr>"
  let ?st = "TcpSession_new (Some (Some ?e))"
  have send: "\<exists>st1'. TcpSession_sendMessage loop_ops (text_message (CAMERA, ''[]'')) ?st =
      (st1', [TCP_write [7, 2, 0, 0, 0, 91, 93]])"
    by (simp add: TcpSession_sendMessage_def TcpSession_new_def text_message_def
        frame_message_def string_bytes_def frame_bytes_def le32_bytes_def TLS_encrypt_def loop_ops_def
        flushWriteBio_def Let_def)
  have "loop_done ?e \<and> loop_done ?e \<and> loop_out ?e = []" "loop_in ?e = []" "tcp_tls ?st = Some (Some ?e)"
    "tcp_tls (?st\<lparr>tcp_phase := TCP_reading_header\<rparr>) = Some (Some ?e)"
    "tcp_phase (?st\<lparr>tcp_phase := TCP_reading_header\<rparr>) = TCP_reading_header" "th_message ?H" "CAMERA \<noteq> TLS_HANDSHAKE"
    "length ''[]'' < (2 :: nat) ^ 30"
    by (simp_all add: TcpSession_new_def)
  from TcpSession_tls_roundtrip [OF loop_channel this, of "\<lambda>_. True"]
  obtain st1' bs where "TcpSession_sendMessage loop_ops (text_message (CAMERA, ''[]'')) ?st = (st1', [TCP_write bs])"
    and recv: "\<And>chunks. concat chunks = bs \<Longrightarrow>
      \<exists>st2' outs. TcpSession_receive loop_ops ?H chunks [] (?st\<lparr>tcp_phase := TCP_reading_header\<rparr>) = Some (st2', outs, []) \<and>
        concat (map (TcpSession_dispatch (\<lambda>_. True)) outs) = [(onCameraList, ''[]'')]"
    by (fastforce simp del: TcpSession_receive.simps)
  with send have "bs = [7, 2, 0, 0, 0, 91, 93]" by auto
  with recv [of "[[7, 2, 0], [0, 0, 91, 93]]"] send show ?thesis by auto
qed

end
