(* ===== verification/UdpSession.thy ===== *)
theory UdpSession
  imports Protocol Ssl
begin

text \<open>
  Src/Network/UdpSession.hpp: image frames that arrive as numbered fragments over DTLS. The
  socket, the timer and the strand belong to Boost.Asio; the model has the state of the class,
  the waits of its timer, and one operation per handler, which gives the new state and what the
  session does in order. All handlers run on the strand, one at a time. The log is not modelled.
\<close>

section \<open>State\<close>

record endpoint =
  ep_address :: string
  ep_port :: "16 word"

text \<open>A default endpoint has port 0.\<close>

definition endpoint_default :: endpoint where
  "endpoint_default = \<lparr>ep_address = ''0.0.0.0'', ep_port = 0\<rparr>"

text \<open>
  The timer: \<open>udp_wait\<close> is the wait that is armed, by the frame number its handler captured;
  \<open>udp_expired\<close> are handlers of waits that ran out and are queued on the strand, which a new
  \<open>expires_after\<close> or a \<open>cancel\<close> no longer reaches.
\<close>

record 'e UdpSession =
  udp_server_endpoint :: endpoint
  udp_dtlsSession :: "'e ssl_session"
  udp_expected_meta :: string
  udp_current_frame :: byte
  udp_expected_max_seq :: byte
  udp_fragments :: "(byte \<times> bytes) list"  \<comment> \<open>\<open>std::map\<close>, keys distinct\<close>
  udp_wait :: "byte option"
  udp_expired :: "byte list"

datatype udp_out =
    UDP_send endpoint bytes
  | UDP_onComplete bytes string
  | UDP_sendControl string

text \<open>Which of the two callbacks are set.\<close>

record udp_callbacks =
  uc_onComplete :: bool
  uc_sendControl :: bool

definition UdpSession_new :: "'e ssl_session \<Rightarrow> 'e UdpSession" where
  "UdpSession_new dtls =
     \<lparr>udp_server_endpoint = endpoint_default, udp_dtlsSession = dtls, udp_expected_meta = '''',
      udp_current_frame = 255, udp_expected_max_seq = 0, udp_fragments = [], udp_wait = None,
      udp_expired = []\<rparr>"

section \<open>The endpoint\<close>

definition UdpSession_setExpectedMeta :: "string \<Rightarrow> 'e UdpSession \<Rightarrow> 'e UdpSession" where
  "UdpSession_setExpectedMeta meta st = st\<lparr>udp_expected_meta := meta\<rparr>"

definition UdpSession_sendRaw :: "bytes \<Rightarrow> 'e UdpSession \<Rightarrow> udp_out list" where
  "UdpSession_sendRaw data st = (if data = [] then [] else [UDP_send (udp_server_endpoint st) data])"

definition UdpSession_setServerEndpoint ::
  "'e ssl_ops \<Rightarrow> endpoint \<Rightarrow> 'e UdpSession \<Rightarrow> 'e UdpSession \<times> udp_out list" where
  "UdpSession_setServerEndpoint S ep st =
     (case MediaDTLS_Handshake S [] (udp_dtlsSession st) of
        (s, hello) \<Rightarrow>
          let st' = st\<lparr>udp_server_endpoint := ep, udp_dtlsSession := s\<rparr>
          in (st', UdpSession_sendRaw hello st'))"

section \<open>Reassembly\<close>

text \<open>\<open>fragments_[i]\<close>: an absent key is an empty fragment.\<close>

definition UdpSession_fragment :: "(byte \<times> bytes) list \<Rightarrow> byte \<Rightarrow> bytes" where
  "UdpSession_fragment frags i = (case map_of frags i of None \<Rightarrow> [] | Some data \<Rightarrow> data)"

text \<open>The loop over \<open>int i\<close> from 0 to \<open>maxSeqNo\<close>, which does not wrap.\<close>

definition UdpSession_complete_image :: "byte \<Rightarrow> (byte \<times> bytes) list \<Rightarrow> bytes" where
  "UdpSession_complete_image maxSeqNo frags =
     concat (map (\<lambda>i. UdpSession_fragment frags (of_nat i)) [0..<Suc (unat maxSeqNo)])"

definition receive_true :: string where
  "receive_true = ''{\"receive\": true}''"

text \<open>A fragment of another frame than the current one: \<open>expires_after\<close> cancels the wait.\<close>

definition UdpSession_new_frame :: "byte \<Rightarrow> byte \<Rightarrow> 'e UdpSession \<Rightarrow> 'e UdpSession" where
  "UdpSession_new_frame frameNo maxSeqNo st =
     (if frameNo \<noteq> udp_current_frame st
      then st\<lparr>udp_current_frame := frameNo, udp_expected_max_seq := maxSeqNo, udp_fragments := [],
              udp_wait := Some frameNo\<rparr>
      else st)"

definition UdpSession_handleImageFragment ::
  "udp_callbacks \<Rightarrow> byte \<Rightarrow> byte \<Rightarrow> byte \<Rightarrow> bytes \<Rightarrow> 'e UdpSession \<Rightarrow> 'e UdpSession \<times> udp_out list"
where
  "UdpSession_handleImageFragment C frameNo seqNo maxSeqNo data st =
     (let st1 = UdpSession_new_frame frameNo maxSeqNo st in
      if map_of (udp_fragments st1) seqNo \<noteq> None then (st1, [])
      else
        let st2 = st1\<lparr>udp_fragments := (seqNo, data) # udp_fragments st1\<rparr> in
        if length (udp_fragments st2) = unat maxSeqNo + 1
        then (st2\<lparr>udp_fragments := [], udp_wait := None\<rparr>,
              (if uc_onComplete C
               then [UDP_onComplete (UdpSession_complete_image maxSeqNo (udp_fragments st2))
                       (udp_expected_meta st2)]
               else []) @
              (if uc_sendControl C then [UDP_sendControl receive_true] else []))
        else (st2, []))"

section \<open>Missing fragments\<close>

text \<open>
  \<open>for (uint8_t i = 0; i <= expected_max_seq_; ++i)\<close>: the counter wraps at 255, so the loop may
  never end.
\<close>

partial_function (option) UdpSession_missing_from ::
  "byte \<Rightarrow> (byte \<times> bytes) list \<Rightarrow> byte \<Rightarrow> byte list \<Rightarrow> byte list option"
where
  "UdpSession_missing_from max_seq frags i missing =
     (if i \<le> max_seq
      then UdpSession_missing_from max_seq frags (i + 1)
             (if map_of frags i = None then missing @ [i] else missing)
      else Some missing)"

text \<open>The loop that joins the numbers with commas.\<close>

fun comma_join :: "string list \<Rightarrow> string" where
  "comma_join [] = ''''"
| "comma_join [s] = s"
| "comma_join (s # ss) = s @ '','' @ comma_join ss"

definition missing_request :: "byte \<Rightarrow> byte list \<Rightarrow> string" where
  "missing_request frame missing =
     ''{\"frame_number\":'' @ show_nat (unat frame) @ '',\"missing_sequence\":['' @
     comma_join (map (\<lambda>i. show_nat (unat i)) missing) @ '']}''"

text \<open>\<open>None\<close>: it does not return.\<close>

definition UdpSession_checkMissingFragments ::
  "udp_callbacks \<Rightarrow> 'e UdpSession \<Rightarrow> ('e UdpSession \<times> udp_out list) option" where
  "UdpSession_checkMissingFragments C st =
     map_option (\<lambda>missing.
       if missing \<noteq> [] \<and> uc_sendControl C
       then (st\<lparr>udp_wait := Some (udp_current_frame st)\<rparr>,
             [UDP_sendControl (missing_request (udp_current_frame st) missing)])
       else (st, []))
       (UdpSession_missing_from (udp_expected_max_seq st) (udp_fragments st) 0 [])"

text \<open>The handler of a wait that ran out; both waits of the class have the same handler.\<close>

definition UdpSession_onTimer ::
  "udp_callbacks \<Rightarrow> byte \<Rightarrow> 'e UdpSession \<Rightarrow> ('e UdpSession \<times> udp_out list) option" where
  "UdpSession_onTimer C frameNo st =
     (if udp_current_frame st = frameNo \<and> udp_fragments st \<noteq> []
      then UdpSession_checkMissingFragments C st
      else Some (st, []))"

section \<open>Packets\<close>

text \<open>The size of the packed \<open>ImageHeader\<close>; the three numbers follow the five bytes of the base.\<close>

definition image_header_size :: nat where
  "image_header_size = 8"

definition header_FrameNumber :: "bytes \<Rightarrow> byte" where
  "header_FrameNumber bs = bs ! 5"

definition header_SequenceNumber :: "bytes \<Rightarrow> byte" where
  "header_SequenceNumber bs = bs ! 6"

definition header_MaxSequenceNumber :: "bytes \<Rightarrow> byte" where
  "header_MaxSequenceNumber bs = bs ! 7"

text \<open>
  \<open>handlePacket\<close> on the received bytes, which are at least one and at most the 2048 of the buffer.
\<close>

definition UdpSession_handlePacket ::
  "'e ssl_ops \<Rightarrow> udp_callbacks \<Rightarrow> bytes \<Rightarrow> 'e UdpSession \<Rightarrow> ('e UdpSession \<times> udp_out list) option"
where
  "UdpSession_handlePacket S C packet st =
     (if length packet < image_header_size
      then
        if header_type packet = MessageType_byte TLS_HANDSHAKE
        then (case MediaDTLS_Handshake S packet (udp_dtlsSession st) of
                (s, response) \<Rightarrow>
                  let st' = st\<lparr>udp_dtlsSession := s\<rparr> in Some (st', UdpSession_sendRaw response st'))
        else Some (st, [])
      else if header_type packet = MessageType_byte TLS_HANDSHAKE
      then (case MediaDTLS_Handshake S (drop header_size packet) (udp_dtlsSession st) of
              (s, response) \<Rightarrow>
                let st' = st\<lparr>udp_dtlsSession := s\<rparr>
                in Some (st', if response = [] then []
                              else UdpSession_sendRaw
                                     (frame_bytes (MessageType_byte TLS_HANDSHAKE) response) st'))
      else if header_type packet = MessageType_byte IMAGE
      then
        if \<not> ssl_isHandshakeDone S (udp_dtlsSession st) then Some (st, [])
        else
          map_option (\<lambda>(s, plain).
            let st' = st\<lparr>udp_dtlsSession := s\<rparr> in
            if plain \<noteq> []
            then UdpSession_handleImageFragment C (header_FrameNumber packet)
                   (header_SequenceNumber packet) (header_MaxSequenceNumber packet) plain st'
            else (st', []))
            (MediaDTLS_decrypt S (drop image_header_size packet)
               (int (length packet) - int image_header_size) (udp_dtlsSession st))
      else Some (st, []))"

text \<open>The completion of a receive without error.\<close>

definition UdpSession_onReceive ::
  "'e ssl_ops \<Rightarrow> udp_callbacks \<Rightarrow> endpoint \<Rightarrow> bytes \<Rightarrow> 'e UdpSession \<Rightarrow>
     ('e UdpSession \<times> udp_out list) option"
where
  "UdpSession_onReceive S C sender packet st =
     (if packet = [] then Some (st, [])
      else UdpSession_handlePacket S C packet
             (if ep_port (udp_server_endpoint st) = 0 then st\<lparr>udp_server_endpoint := sender\<rparr> else st))"

section \<open>Events\<close>

text \<open>
  \<open>UE_expire\<close>: the armed wait runs out and its handler is queued. \<open>UE_timer\<close>: the first queued
  handler runs.
\<close>

datatype udp_event =
    UE_receive endpoint bytes
  | UE_expire
  | UE_timer
  | UE_meta string

definition UdpSession_event ::
  "'e ssl_ops \<Rightarrow> udp_callbacks \<Rightarrow> udp_event \<Rightarrow> 'e UdpSession \<Rightarrow> ('e UdpSession \<times> udp_out list) option"
where
  "UdpSession_event S C ev st =
     (case ev of
        UE_receive sender packet \<Rightarrow> UdpSession_onReceive S C sender packet st
      | UE_expire \<Rightarrow>
          (case udp_wait st of
             None \<Rightarrow> Some (st, [])
           | Some f \<Rightarrow> Some (st\<lparr>udp_wait := None, udp_expired := udp_expired st @ [f]\<rparr>, []))
      | UE_timer \<Rightarrow>
          (case udp_expired st of
             [] \<Rightarrow> Some (st, [])
           | f # fs \<Rightarrow> UdpSession_onTimer C f (st\<lparr>udp_expired := fs\<rparr>))
      | UE_meta meta \<Rightarrow> Some (UdpSession_setExpectedMeta meta st, []))"

fun UdpSession_events ::
  "'e ssl_ops \<Rightarrow> udp_callbacks \<Rightarrow> udp_event list \<Rightarrow> 'e UdpSession \<Rightarrow> ('e UdpSession \<times> udp_out list) option"
where
  "UdpSession_events S C [] st = Some (st, [])"
| "UdpSession_events S C (ev # evs) st =
     (case UdpSession_event S C ev st of
        None \<Rightarrow> None
      | Some (st', outs) \<Rightarrow>
          map_option (\<lambda>(st'', outs'). (st'', outs @ outs')) (UdpSession_events S C evs st'))"

section \<open>Lemmas: the loop over the numbers\<close>

lemma byte_less_256: "unat m < 256" for m :: byte
  using unsigned_less [of m, where 'a = nat] by simp

lemma byte_le_Suc: "i \<le> m \<Longrightarrow> m \<noteq> 255 \<Longrightarrow> unat (i + 1) = Suc (unat i)" for i m :: byte
proof -
  assume "i \<le> m" "m \<noteq> 255"
  then have "unat i < 255"
    using byte_less_256 [of m] by (auto simp: word_le_nat_alt word_unat_eq_iff)
  then show ?thesis by (simp add: unat_word_ariths)
qed

lemma UdpSession_missing_from_ends:
  assumes "max_seq \<noteq> 255"
  shows "UdpSession_missing_from max_seq frags i missing =
    Some (missing @ filter (\<lambda>i. map_of frags i = None) (map of_nat [unat i..<Suc (unat max_seq)]))"
proof (induction "Suc (unat max_seq) - unat i" arbitrary: i missing)
  case 0
  then have "\<not> i \<le> max_seq" by (simp add: word_le_nat_alt)
  with 0 show ?case by (subst UdpSession_missing_from.simps) simp
next
  case (Suc n)
  then have le: "i \<le> max_seq" by (simp add: word_le_nat_alt)
  note next_nat = byte_le_Suc [OF le assms]
  have upt: "[unat i..<Suc (unat max_seq)] = unat i # [Suc (unat i)..<Suc (unat max_seq)]"
    using Suc.hyps(2) by (intro upt_conv_Cons) simp
  have n: "n = Suc (unat max_seq) - unat (i + 1)"
    using Suc.hyps(2) next_nat by simp
  show ?case
    unfolding upt by (subst UdpSession_missing_from.simps)
      (simp add: le Suc.hyps(1) [OF n] next_nat)
qed

lemma UdpSession_missing_from_loops:
  "UdpSession_missing_from 255 frags i missing = None"
proof -
  have "max_seq \<noteq> 255" if "UdpSession_missing_from max_seq frags i missing = Some y"
    for max_seq :: byte and i missing y
  proof (rule UdpSession_missing_from.raw_induct [where P = "\<lambda>m f i ms y. m \<noteq> 255", OF _ that])
    fix r frags missing y and max_seq i :: byte
    assume IH: "\<And>max_seq frags i missing y. r max_seq frags i missing = Some y \<Longrightarrow> max_seq \<noteq> 255"
      and body: "(if i \<le> max_seq then r max_seq frags (i + 1)
             (if map_of frags i = None then missing @ [i] else missing) else Some missing) = Some y"
    show "max_seq \<noteq> 255"
    proof (cases "i \<le> max_seq")
      case True
      with body IH show ?thesis by simp
    next
      case False
      have "i \<le> 255" for i :: byte
        using byte_less_256 [of i] by (simp add: word_le_nat_alt)
      with False show ?thesis by auto
    qed
  qed
  then show ?thesis by (cases "UdpSession_missing_from 255 frags i missing") auto
qed

section \<open>Lemmas: reassembly\<close>

text \<open>The fragments of one frame, one after the other.\<close>

fun UdpSession_arrivals ::
  "udp_callbacks \<Rightarrow> byte \<Rightarrow> byte \<Rightarrow> (byte \<times> bytes) list \<Rightarrow> 'e UdpSession \<Rightarrow> 'e UdpSession \<times> udp_out list"
where
  "UdpSession_arrivals C frameNo maxSeqNo [] st = (st, [])"
| "UdpSession_arrivals C frameNo maxSeqNo ((seqNo, data) # fs) st =
     (case UdpSession_handleImageFragment C frameNo seqNo maxSeqNo data st of
        (st', outs) \<Rightarrow>
          (case UdpSession_arrivals C frameNo maxSeqNo fs st' of (st'', outs') \<Rightarrow> (st'', outs @ outs')))"

lemma UdpSession_arrivals_append:
  "UdpSession_arrivals C frameNo maxSeqNo (fs @ gs) st =
     (case UdpSession_arrivals C frameNo maxSeqNo fs st of
        (st', outs) \<Rightarrow>
          (case UdpSession_arrivals C frameNo maxSeqNo gs st' of (st'', outs') \<Rightarrow> (st'', outs @ outs')))"
  by (induction fs arbitrary: st) (auto split: prod.splits)

lemma byte_atMost: "{..m} = of_nat ` {..unat m}" for m :: byte
proof -
  have "x \<in> of_nat ` {..unat m}" if "unat x \<le> unat m" for x
    using that by (intro image_eqI [where x = "unat x"]) auto
  then show ?thesis
    by (auto simp: word_le_nat_alt unat_of_nat intro: order_trans [OF mod_less_eq_dividend])
qed

lemma card_byte_atMost: "card {..m} = Suc (unat m)" for m :: byte
proof -
  have "n mod 256 = n" if "n \<le> unat m" for n
    using that byte_less_256 [of m] by simp
  then have "inj_on (of_nat :: nat \<Rightarrow> byte) {..unat m}"
    by (intro inj_onI) (auto simp: word_unat_eq_iff unat_of_nat)
  then show ?thesis by (simp add: byte_atMost card_image)
qed

text \<open>The fragments so far belong to one image, whose parts are given by \<open>f\<close>.\<close>

definition UdpSession_collecting ::
  "byte \<Rightarrow> byte \<Rightarrow> (byte \<Rightarrow> bytes) \<Rightarrow> byte set \<Rightarrow> 'e UdpSession \<Rightarrow> bool" where
  "UdpSession_collecting frameNo maxSeqNo f seen st \<longleftrightarrow>
     udp_current_frame st = frameNo \<and> distinct (map fst (udp_fragments st)) \<and>
     fst ` set (udp_fragments st) = seen \<and> seen \<subseteq> {..maxSeqNo} \<and>
     (\<forall>i\<in>seen. map_of (udp_fragments st) i = Some (f i))"

lemma UdpSession_collecting_length:
  assumes "UdpSession_collecting frameNo maxSeqNo f seen st"
  shows "length (udp_fragments st) = card seen"
  using assms distinct_card [of "map fst (udp_fragments st)"] by (auto simp: UdpSession_collecting_def)

lemma UdpSession_fragment_step:
  assumes "UdpSession_collecting frameNo maxSeqNo f seen st" "s \<le> maxSeqNo" "insert s seen \<noteq> {..maxSeqNo}"
  shows "\<exists>st'. UdpSession_handleImageFragment C frameNo s maxSeqNo (f s) st = (st', []) \<and>
    UdpSession_collecting frameNo maxSeqNo f (insert s seen) st' \<and>
    udp_expected_meta st' = udp_expected_meta st \<and> udp_expected_max_seq st' = udp_expected_max_seq st \<and>
    udp_wait st' = udp_wait st \<and> udp_expired st' = udp_expired st"
proof (cases "s \<in> seen")
  case True
  with assms(1) show ?thesis
    by (auto simp: UdpSession_collecting_def UdpSession_handleImageFragment_def
        UdpSession_new_frame_def insert_absorb Let_def)
next
  case False
  let ?st = "st\<lparr>udp_fragments := (s, f s) # udp_fragments st\<rparr>"
  have new: "UdpSession_collecting frameNo maxSeqNo f (insert s seen) ?st"
    using assms(1,2) False by (auto simp: UdpSession_collecting_def)
  have "insert s seen \<subset> {..maxSeqNo}"
    using assms by (auto simp: UdpSession_collecting_def)
  then have "length (udp_fragments ?st) < Suc (unat maxSeqNo)"
    unfolding UdpSession_collecting_length [OF new] card_byte_atMost [symmetric]
    by (intro psubset_card_mono) auto
  moreover have "map_of (udp_fragments st) s = None"
    using assms(1) False by (simp add: UdpSession_collecting_def map_of_eq_None_iff)
  ultimately show ?thesis
    using new assms(1)
    by (auto simp: UdpSession_handleImageFragment_def UdpSession_new_frame_def Let_def
        UdpSession_collecting_def)
qed

lemma UdpSession_arrivals_collect:
  assumes "UdpSession_collecting frameNo maxSeqNo f seen st"
    "set seqs \<subseteq> {..maxSeqNo}" "seen \<union> set seqs \<noteq> {..maxSeqNo}"
  shows "\<exists>st'. UdpSession_arrivals C frameNo maxSeqNo (map (\<lambda>i. (i, f i)) seqs) st = (st', []) \<and>
    UdpSession_collecting frameNo maxSeqNo f (seen \<union> set seqs) st' \<and>
    udp_expected_meta st' = udp_expected_meta st \<and> udp_expected_max_seq st' = udp_expected_max_seq st \<and>
    udp_wait st' = udp_wait st \<and> udp_expired st' = udp_expired st"
  using assms
proof (induction seqs arbitrary: seen st)
  case Nil
  then show ?case by simp
next
  case (Cons s seqs)
  have ne: "insert s seen \<noteq> {..maxSeqNo}"
  proof
    assume all: "insert s seen = {..maxSeqNo}"
    then have "seen \<union> set (s # seqs) = {..maxSeqNo} \<union> set seqs" by auto
    with Cons.prems(2,3) show False by auto
  qed
  obtain st1 where "UdpSession_handleImageFragment C frameNo s maxSeqNo (f s) st = (st1, [])"
    "UdpSession_collecting frameNo maxSeqNo f (insert s seen) st1"
    "udp_expected_meta st1 = udp_expected_meta st" "udp_expected_max_seq st1 = udp_expected_max_seq st"
    "udp_wait st1 = udp_wait st" "udp_expired st1 = udp_expired st"
    using UdpSession_fragment_step [OF Cons.prems(1) _ ne] Cons.prems(2) by auto
  with Cons.IH [of "insert s seen" st1] Cons.prems(2,3) show ?case by auto
qed

lemma UdpSession_last_fragment:
  assumes "UdpSession_collecting frameNo maxSeqNo f seen st" "s \<notin> seen" "insert s seen = {..maxSeqNo}"
  shows "UdpSession_handleImageFragment C frameNo s maxSeqNo (f s) st =
    (st\<lparr>udp_fragments := [], udp_wait := None\<rparr>,
     (if uc_onComplete C
      then [UDP_onComplete (concat (map (\<lambda>n. f (of_nat n)) [0..<Suc (unat maxSeqNo)])) (udp_expected_meta st)]
      else []) @
     (if uc_sendControl C then [UDP_sendControl receive_true] else []))"
proof -
  let ?frags = "(s, f s) # udp_fragments st"
  have "card (insert s seen) = Suc (unat maxSeqNo)"
    by (simp only: assms(3) card_byte_atMost)
  then have len: "length ?frags = unat maxSeqNo + 1"
    using UdpSession_collecting_length [OF assms(1)] assms(1,2)
    by (auto simp: UdpSession_collecting_def card_insert_if)
  have "UdpSession_fragment ?frags (of_nat n) = f (of_nat n)" if "n \<le> unat maxSeqNo" for n
  proof -
    have "(of_nat n :: byte) \<in> insert s seen"
      unfolding assms(3) using that by (auto simp: byte_atMost)
    then consider "of_nat n = s" | "of_nat n \<noteq> s" "of_nat n \<in> seen" by auto
    then show ?thesis
    proof cases
      case 2
      with assms(1) have "map_of (udp_fragments st) (of_nat n) = Some (f (of_nat n))"
        by (simp only: UdpSession_collecting_def)
      with 2 show ?thesis by (simp add: UdpSession_fragment_def)
    qed (simp add: UdpSession_fragment_def)
  qed
  then have image: "UdpSession_complete_image maxSeqNo ?frags =
      concat (map (\<lambda>n. f (of_nat n)) [0..<Suc (unat maxSeqNo)])"
    unfolding UdpSession_complete_image_def by (intro arg_cong [where f = concat] map_cong) auto
  have "map_of (udp_fragments st) s = None" "udp_current_frame st = frameNo"
    using assms(1,2) by (auto simp: UdpSession_collecting_def map_of_eq_None_iff)
  with len image show ?thesis
    by (simp add: UdpSession_handleImageFragment_def UdpSession_new_frame_def Let_def)
qed

lemma UdpSession_arrivals_fresh:
  "fs \<noteq> [] \<Longrightarrow> UdpSession_arrivals C frameNo maxSeqNo fs st =
     UdpSession_arrivals C frameNo maxSeqNo fs (UdpSession_new_frame frameNo maxSeqNo st)"
  by (cases fs) (auto simp: UdpSession_handleImageFragment_def UdpSession_new_frame_def)

lemma UdpSession_collecting_new:
  "udp_current_frame st \<noteq> frameNo \<or> udp_fragments st = [] \<Longrightarrow>
     UdpSession_collecting frameNo maxSeqNo f {} (UdpSession_new_frame frameNo maxSeqNo st)"
  by (auto simp: UdpSession_collecting_def UdpSession_new_frame_def)

lemma UdpSession_new_frame_meta [simp]:
  "udp_expected_meta (UdpSession_new_frame frameNo maxSeqNo st) = udp_expected_meta st"
  by (simp add: UdpSession_new_frame_def)

text \<open>The last missing numbers, in any order, complete the image.\<close>

lemma UdpSession_arrivals_complete:
  assumes "UdpSession_collecting frameNo maxSeqNo f seen st"
    "seen \<union> set (seqs @ [l]) = {..maxSeqNo}" "l \<notin> seen" "l \<notin> set seqs"
  shows "\<exists>st'. UdpSession_arrivals C frameNo maxSeqNo (map (\<lambda>i. (i, f i)) (seqs @ [l])) st =
    (st', (if uc_onComplete C
       then [UDP_onComplete (concat (map (\<lambda>n. f (of_nat n)) [0..<Suc (unat maxSeqNo)])) (udp_expected_meta st)]
       else []) @
     (if uc_sendControl C then [UDP_sendControl receive_true] else [])) \<and>
    udp_current_frame st' = frameNo \<and> udp_fragments st' = [] \<and> udp_wait st' = None"
proof -
  have l: "l \<in> {..maxSeqNo}" and sub: "set seqs \<subseteq> {..maxSeqNo}"
    unfolding assms(2) [symmetric] by auto
  have "seen \<union> set seqs \<noteq> {..maxSeqNo}"
    using l assms(3,4) by auto
  then obtain st1 where
    st1: "UdpSession_arrivals C frameNo maxSeqNo (map (\<lambda>i. (i, f i)) seqs) st = (st1, [])"
      "UdpSession_collecting frameNo maxSeqNo f (seen \<union> set seqs) st1"
      "udp_expected_meta st1 = udp_expected_meta st"
    using UdpSession_arrivals_collect [OF assms(1) sub] by blast
  have "insert l (seen \<union> set seqs) = {..maxSeqNo}"
    unfolding assms(2) [symmetric] by auto
  from UdpSession_last_fragment [OF st1(2) _ this, of C] st1 assms(3,4) show ?thesis
    by (auto simp: UdpSession_arrivals_append UdpSession_collecting_def)
qed

text \<open>
  The association list is a map: whatever happens its keys stay distinct, so its length is the
  \<open>size()\<close> of the \<open>std::map\<close>, and there are at most 256 fragments.
\<close>

definition UdpSession_inv :: "'e UdpSession \<Rightarrow> bool" where
  "UdpSession_inv st \<longleftrightarrow> distinct (map fst (udp_fragments st))"

lemma UdpSession_new_inv [inv_intros]: "UdpSession_inv (UdpSession_new dtls)"
  by (simp add: UdpSession_inv_def UdpSession_new_def)

lemma UdpSession_handleImageFragment_inv [inv_intros]:
  "UdpSession_inv st \<Longrightarrow> UdpSession_inv (fst (UdpSession_handleImageFragment C frameNo seqNo maxSeqNo data st))"
  by (simp add: UdpSession_inv_def UdpSession_handleImageFragment_def UdpSession_new_frame_def Let_def
      map_of_eq_None_iff)

lemma UdpSession_event_inv:
  assumes "UdpSession_event S C ev st = Some (st', outs)" "UdpSession_inv st"
  shows "UdpSession_inv st'"
proof -
  have fragment: "UdpSession_inv st2"
    if "UdpSession_handleImageFragment C f s m data st1 = (st2, outs)" "UdpSession_inv st1"
    for f s m data st1 st2 outs
    using UdpSession_handleImageFragment_inv [OF that(2), of C f s m data] that(1) by simp
  have packet: "UdpSession_inv st2"
    if "UdpSession_handlePacket S C bs st1 = Some (st2, outs)" "UdpSession_inv st1" for bs st1 st2 outs
    using that by (auto simp: UdpSession_handlePacket_def UdpSession_inv_def Let_def
        split: if_splits prod.splits dest: fragment [unfolded UdpSession_inv_def])
  have timer: "UdpSession_inv st2"
    if "UdpSession_onTimer C f st1 = Some (st2, outs)" "UdpSession_inv st1" for f st1 st2 outs
    using that by (auto simp: UdpSession_onTimer_def UdpSession_checkMissingFragments_def
        UdpSession_inv_def split: if_splits)
  show ?thesis
    using assms
    by (cases ev)
      (auto simp: UdpSession_event_def UdpSession_onReceive_def UdpSession_setExpectedMeta_def
        UdpSession_inv_def split: if_splits option.splits list.splits
        dest!: packet [unfolded UdpSession_inv_def] timer [unfolded UdpSession_inv_def])
qed

lemma UdpSession_events_inv:
  "UdpSession_events S C evs st = Some (st', outs) \<Longrightarrow> UdpSession_inv st \<Longrightarrow> UdpSession_inv st'"
  by (induction evs arbitrary: st outs)
    (auto split: option.splits dest: UdpSession_event_inv)

section \<open>Properties\<close>

text \<open>
  An image comes back together: when the last missing fragment of a frame arrives,
  after the others in any order and with any duplicates, the session hands over the image, which
  is the fragments in the order of their numbers, with the expected metadata, and confirms it,
  once and not before; it is then empty.
\<close>

theorem UdpSession_reassembles:
  assumes "udp_current_frame st \<noteq> frameNo \<or> udp_fragments st = []"
    and "set (seqs @ [l]) = {..maxSeqNo}" "l \<notin> set seqs"
    and "uc_onComplete C" "uc_sendControl C"
  shows "\<exists>st'. UdpSession_arrivals C frameNo maxSeqNo (map (\<lambda>i. (i, f i)) (seqs @ [l])) st =
    (st', [UDP_onComplete (concat (map (\<lambda>n. f (of_nat n)) [0..<Suc (unat maxSeqNo)])) (udp_expected_meta st),
           UDP_sendControl receive_true]) \<and>
    udp_current_frame st' = frameNo \<and> udp_fragments st' = [] \<and> udp_wait st' = None"
proof -
  have "{} \<union> set (seqs @ [l]) = {..maxSeqNo}" using assms(2) by simp
  from UdpSession_arrivals_complete [OF UdpSession_collecting_new [OF assms(1)] this, of C] assms(3-5)
  show ?thesis
    by (subst UdpSession_arrivals_fresh) simp_all
qed

theorem UdpSession_reassembles_witness:
  "\<exists>st'. UdpSession_arrivals \<lparr>uc_onComplete = True, uc_sendControl = True\<rparr> 7 1
     (map (\<lambda>i. (i, [i + 40])) ([1, 1] @ [0])) (UdpSession_new None :: loop_engine UdpSession) =
   (st', [UDP_onComplete [40, 41] '''', UDP_sendControl receive_true])"
proof -
  have "{..1 :: byte} = {0, 1}"
    using byte_atMost [of 1] by (auto simp: atMost_Suc)
  then have "\<exists>st'. UdpSession_arrivals \<lparr>uc_onComplete = True, uc_sendControl = True\<rparr> 7 1
     (map (\<lambda>i. (i, [i + 40])) ([1, 1] @ [0])) (UdpSession_new None :: loop_engine UdpSession) =
   (st', [UDP_onComplete (concat (map (\<lambda>n. [of_nat n + 40]) [0..<Suc (unat (1 :: byte))]))
            (udp_expected_meta (UdpSession_new None :: loop_engine UdpSession)),
          UDP_sendControl receive_true]) \<and> udp_current_frame st' = 7 \<and> udp_fragments st' = [] \<and> udp_wait st' = None"
    by (intro UdpSession_reassembles) (auto simp: UdpSession_new_def)
  then show ?thesis by (auto simp: UdpSession_new_def upt_rec)
qed

text \<open>
  Claim C8. Lost fragments are recovered. The first fragment of a frame with a new number arms the
  wait; if some of the at most 255 fragments have arrived when the wait runs out and its handler
  runs, the session asks for exactly the numbers that are missing, in order, arms a new wait, and
  delivers the image once they are sent again. No handler of an earlier wait is queued at the start.
\<close>

theorem UdpSession_recovers_lost_fragments:
  assumes "udp_current_frame st \<noteq> frameNo" "udp_expired st = []" "maxSeqNo \<noteq> 255"
    and "seqs \<noteq> []" "set seqs \<subset> {..maxSeqNo}" "uc_onComplete C" "uc_sendControl C"
    and "missing = filter (\<lambda>i. i \<notin> set seqs) (map of_nat [0..<Suc (unat maxSeqNo)])"
  shows "\<exists>st1 st2 st3.
    UdpSession_arrivals C frameNo maxSeqNo (map (\<lambda>i. (i, f i)) seqs) st = (st1, []) \<and>
    UdpSession_events S C [UE_expire, UE_timer] st1 =
      Some (st2, [UDP_sendControl (missing_request frameNo missing)]) \<and>
    udp_wait st2 = Some frameNo \<and>
    UdpSession_arrivals C frameNo maxSeqNo (map (\<lambda>i. (i, f i)) missing) st2 =
      (st3, [UDP_onComplete (concat (map (\<lambda>n. f (of_nat n)) [0..<Suc (unat maxSeqNo)])) (udp_expected_meta st),
             UDP_sendControl receive_true])"
proof -
  have seqs: "set seqs \<subseteq> {..maxSeqNo}" "{} \<union> set seqs \<noteq> {..maxSeqNo}" using assms(5) by auto
  have "UdpSession_collecting frameNo maxSeqNo f {} (UdpSession_new_frame frameNo maxSeqNo st)"
    using assms(1) by (intro UdpSession_collecting_new) simp
  then obtain st1 where "UdpSession_arrivals C frameNo maxSeqNo (map (\<lambda>i. (i, f i)) seqs)
        (UdpSession_new_frame frameNo maxSeqNo st) = (st1, [])"
    and col: "UdpSession_collecting frameNo maxSeqNo f (set seqs) st1"
    and meta: "udp_expected_meta st1 = udp_expected_meta st"
    and max: "udp_expected_max_seq st1 = maxSeqNo" and wait: "udp_wait st1 = Some frameNo" "udp_expired st1 = []"
    using UdpSession_arrivals_collect [OF _ seqs, of frameNo f _ C] assms(1,2)
    by (fastforce simp: UdpSession_new_frame_def)
  then have st1: "UdpSession_arrivals C frameNo maxSeqNo (map (\<lambda>i. (i, f i)) seqs) st = (st1, [])"
    using assms(4) by (subst UdpSession_arrivals_fresh) auto
  have frags: "udp_current_frame st1 = frameNo" "udp_fragments st1 \<noteq> []"
      "\<And>i. map_of (udp_fragments st1) i = None \<longleftrightarrow> i \<notin> set seqs"
    using col assms(4) by (auto simp: UdpSession_collecting_def map_of_eq_None_iff)
  have missing_set: "set missing = {..maxSeqNo} - set seqs"
    unfolding assms(8) byte_atMost by (auto simp: atMost_upto lessThan_Suc_atMost)
  then have "missing \<noteq> []" using assms(5) by auto
  have "inj_on (of_nat :: nat \<Rightarrow> byte) {0..<Suc (unat maxSeqNo)}"
    using byte_less_256 [of maxSeqNo] by (auto simp: word_unat_eq_iff unat_of_nat intro!: inj_onI)
  then have "distinct missing"
    unfolding assms(8) by (intro distinct_filter) (simp only: distinct_map distinct_upt set_upt simp_thms)
  with \<open>missing \<noteq> []\<close> obtain ms l where ms: "missing = ms @ [l]" "l \<notin> set ms"
    by (cases missing rule: rev_cases) auto
  let ?st2 = "st1\<lparr>udp_wait := Some frameNo\<rparr>"
  have queued: "UdpSession_event S C UE_expire st1 = Some (st1\<lparr>udp_wait := None, udp_expired := [frameNo]\<rparr>, [])"
    by (simp add: UdpSession_event_def wait)
  have handled: "UdpSession_event S C UE_timer (st1\<lparr>udp_wait := None, udp_expired := [frameNo]\<rparr>) =
      Some (?st2, [UDP_sendControl (missing_request frameNo missing)])"
    using frags max assms(3,7,8) wait(2) \<open>missing \<noteq> []\<close>
    by (cases st1) (simp add: UdpSession_event_def UdpSession_onTimer_def UdpSession_checkMissingFragments_def
        UdpSession_missing_from_ends)
  have timer: "UdpSession_events S C [UE_expire, UE_timer] st1 =
      Some (?st2, [UDP_sendControl (missing_request frameNo missing)])"
    by (simp add: queued handled)
  have "UdpSession_collecting frameNo maxSeqNo f (set seqs) ?st2"
    using col by (simp add: UdpSession_collecting_def)
  moreover have "set seqs \<union> set (ms @ [l]) = {..maxSeqNo}" "l \<notin> set seqs"
    using missing_set seqs(1) unfolding ms(1) by auto
  ultimately obtain st3 where "UdpSession_arrivals C frameNo maxSeqNo (map (\<lambda>i. (i, f i)) missing) ?st2 =
      (st3, [UDP_onComplete (concat (map (\<lambda>n. f (of_nat n)) [0..<Suc (unat maxSeqNo)])) (udp_expected_meta ?st2),
             UDP_sendControl receive_true])"
    using UdpSession_arrivals_complete [of frameNo maxSeqNo f "set seqs" ?st2 ms l C] ms(2) assms(6,7)
    unfolding ms(1) by auto
  with st1 timer meta show ?thesis by auto
qed

theorem UdpSession_recovers_lost_fragments_witness:
  "\<exists>st1 st2.
    UdpSession_arrivals \<lparr>uc_onComplete = True, uc_sendControl = True\<rparr> 7 2 (map (\<lambda>i. (i, [i])) [1])
      (UdpSession_new None :: loop_engine UdpSession) = (st1, []) \<and>
    UdpSession_events loop_ops \<lparr>uc_onComplete = True, uc_sendControl = True\<rparr> [UE_expire, UE_timer] st1 =
      Some (st2, [UDP_sendControl ''{\"frame_number\":7,\"missing_sequence\":[0,2]}''])"
proof -
  have request: "missing_request 7 (filter (\<lambda>i. i \<notin> set [1]) (map of_nat [0..<Suc (unat (2 :: byte))])) =
      ''{\"frame_number\":7,\"missing_sequence\":[0,2]}''"
    by (simp add: missing_request_def upt_rec show_nat.simps digit_char_def) code_simp
  have "set [1] \<subset> {..2 :: byte}"
  proof -
    have "(0 :: byte) \<notin> set [1]" "0 \<in> {..2 :: byte}" "set [1] \<subseteq> {..2 :: byte}"
      by (simp_all add: word_le_nat_alt)
    then show ?thesis by blast
  qed
  from UdpSession_recovers_lost_fragments [where C = "\<lparr>uc_onComplete = True, uc_sendControl = True\<rparr>"
      and st = "UdpSession_new None :: loop_engine UdpSession" and frameNo = 7 and f = "\<lambda>i. [i]"
      and S = loop_ops, OF _ _ _ _ this _ _ refl]
  show ?thesis unfolding request by (fastforce simp: UdpSession_new_def simp del: UdpSession_events.simps)
qed

text \<open>
  Claim C21. A frame of 256 fragments hangs the session: the handler of a wait does not return
  exactly if it finds fragments of its frame while the highest number is 255, since its loop
  counts in eight bits.
\<close>

theorem UdpSession_timer_hangs_iff:
  "UdpSession_onTimer C frameNo st = None \<longleftrightarrow>
     udp_current_frame st = frameNo \<and> udp_fragments st \<noteq> [] \<and> udp_expected_max_seq st = 255"
  by (cases "udp_expected_max_seq st = 255")
    (simp_all add: UdpSession_onTimer_def UdpSession_checkMissingFragments_def
      UdpSession_missing_from_loops UdpSession_missing_from_ends)

end
