(* ===== verification/Core.thy ===== *)
theory Core
  imports CameraStore DeviceStore ServerStatus CameraGrid DeviceModel Alarm AiImageModel UserModel
   
begin

text \<open>
  Core.hpp and Core.cpp: the wiring of the program. A signal of the network bridge becomes jobs
  of the thread pool, a job updates the stores and posts calls to the event loop of the user
  interface, and a call updates a model. The system is a state with the stores, the models, the
  jobs that wait and the calls that are posted, and a step relation: a signal, any waiting job
  (the pool has many threads, so jobs overtake each other), the first posted call (the event
  loop is a queue), or a call of the user. A job is one step: the stores lock their methods, but
  another job may run between two methods that one job calls, which the model leaves out.
  Videos and the network service are not part of this state.
\<close>

section \<open>State\<close>

datatype Core_signal =
    SIG_cameraListReceived string
  | SIG_deviceStatusReceived string
  | SIG_pendingListReceived string
  | SIG_metaResultReceived string
  | SIG_aiResultReceived string
  | SIG_imageDataReceived bytes string
  | SIG_logoutRequested

datatype Core_job =
    JOB_cameraStore string
  | JOB_deviceStore_camera string
  | JOB_deviceStore_available string
  | JOB_serverStatusStore string
  | JOB_meta string
  | JOB_alarm string
  | JOB_personCount string
  | JOB_image bytes string

datatype Core_call =
    CALL_cameraModel_onStoreUpdated "CameraData list"
  | CALL_deviceModel_onStoreUpdated "DeviceIntegrated list"
  | CALL_serverStatus_onStoreUpdated ServerStatusData
  | CALL_userModel_onPendingListReceived string
  | CALL_cameraModel_updateSensorInfo string DeviceInfo
  | CALL_alarmController_onAlarm AlarmEvent
  | CALL_aiImageModel_onImageReceived AiImageEvent

record Core =
  core_cameraStore :: CameraStore
  core_deviceStore :: DeviceStore
  core_serverStatusStore :: ServerStatusStore
  core_cameraModel :: CameraModel
  core_deviceModel :: DeviceModel
  core_serverStatus :: ServerStatusModel
  core_userModel :: UserModel
  core_alarmController :: AlarmController
  core_aiImageModel :: AiImageModel
  core_jobs :: "Core_job list"
  core_calls :: "Core_call list"
  core_aborted :: bool  \<comment> \<open>an exception left a thread of the pool\<close>

definition Core_init :: Core where
  "Core_init =
     \<lparr>core_cameraStore = CameraStore_init, core_deviceStore = [],
      core_serverStatusStore = ServerStatusStore_init, core_cameraModel = CameraModel_init,
      core_deviceModel = DeviceModel_init, core_serverStatus = ServerStatusModel_init,
      core_userModel = UserModel_init, core_alarmController = AlarmController_init,
      core_aiImageModel = [], core_jobs = [], core_calls = [], core_aborted = False\<rparr>"

definition Core_submit :: "Core_job list \<Rightarrow> Core \<Rightarrow> Core" where
  "Core_submit jobs c = c\<lparr>core_jobs := core_jobs c @ jobs\<rparr>"

definition Core_post :: "Core_call list \<Rightarrow> Core \<Rightarrow> Core" where
  "Core_post calls c = c\<lparr>core_calls := core_calls c @ calls\<rparr>"

section \<open>Signals\<close>

text \<open>The logout clears the models that are connected to it, in the order of the connections.\<close>

definition Core_logout :: "Core \<Rightarrow> Core" where
  "Core_logout c =
     c\<lparr>core_userModel := UserModel_clearAll (core_userModel c),
       core_cameraModel := CameraModel_clearAll (core_cameraModel c),
       core_deviceModel := DeviceModel_clearAll (core_deviceModel c),
       core_alarmController := AlarmController_clearAll (core_alarmController c),
       core_aiImageModel := AiImageModel_clearAll (core_aiImageModel c)\<rparr>"

fun Core_onSignal :: "Core_signal \<Rightarrow> Core \<Rightarrow> Core" where
  "Core_onSignal (SIG_cameraListReceived json) c =
     Core_submit [JOB_cameraStore json, JOB_deviceStore_camera json] c"
| "Core_onSignal (SIG_deviceStatusReceived json) c =
     Core_submit [JOB_deviceStore_available json, JOB_serverStatusStore json] c"
| "Core_onSignal (SIG_pendingListReceived json) c =
     Core_post [CALL_userModel_onPendingListReceived json] c"
| "Core_onSignal (SIG_metaResultReceived json) c = Core_submit [JOB_meta json] c"
| "Core_onSignal (SIG_aiResultReceived json) c = Core_submit [JOB_alarm json, JOB_personCount json] c"
| "Core_onSignal (SIG_imageDataReceived data meta) c = Core_submit [JOB_image data meta] c"
| "Core_onSignal SIG_logoutRequested c = Core_logout c"

section \<open>Jobs\<close>

text \<open>
  \<open>bindStoreToModel\<close>: the update of a store and the call its callback posts. The pool does not
  catch what leaves a task of \<open>submitTask\<close>.
\<close>

definition Core_bind :: "exn + 'd option \<Rightarrow> ('d \<Rightarrow> Core_call) \<Rightarrow> Core \<Rightarrow> Core" where
  "Core_bind outcome call c =
     (case outcome of
        Inl _ \<Rightarrow> c\<lparr>core_aborted := True\<rparr>
      | Inr None \<Rightarrow> c
      | Inr (Some data) \<Rightarrow> Core_post [call data] c)"

text \<open>The cameras whose id starts with the ip: \<open>cam.cameraId.rfind(ip, 0) == 0\<close>.\<close>

definition Core_matching :: "string \<Rightarrow> CameraStore \<Rightarrow> string list" where
  "Core_matching ip st = filter (\<lambda>cid. starts_with cid ip) (map cd_cameraId (CameraStore_snapshot st))"

text \<open>What the META job reads: the ip and the last reading of the batch. An exception ends the job.\<close>

definition Core_meta_reading :: "'j json_ops \<Rightarrow> string \<Rightarrow> exn + (string \<times> DeviceInfo) option" where
  "Core_meta_reading J json =
     (let parsed = j_parse J json in
      if \<not> j_is_object J parsed then Inr None
      else bindE (j_string J parsed ''ip'' '''') (\<lambda>ip.
        if ip = '''' then Inr None
        else if j_contains J parsed ''sensor_batch'' \<and> j_is_array J (j_at J parsed ''sensor_batch'') \<and>
            j_elems J (j_at J parsed ''sensor_batch'') \<noteq> []
        then
          let latest = last (j_elems J (j_at J parsed ''sensor_batch'')) in
          bindE (j_double J latest ''hum'' 0) (\<lambda>h.
          bindE (j_double J latest ''light'' 0) (\<lambda>l.
          bindE (j_double J latest ''tilt'' 0) (\<lambda>ti.
          bindE (j_double J latest ''tmp'' 0) (\<lambda>tm.
            Inr (Some (ip, \<lparr>hum = h, light = l, tilt = ti, tmp = tm\<rparr>))))))
        else Inr None))"

definition Core_meta :: "'j json_ops \<Rightarrow> string \<Rightarrow> CameraStore \<Rightarrow> CameraStore \<times> Core_call list" where
  "Core_meta J json st =
     (case Core_meta_reading J json of
        Inr (Some (ip, info)) \<Rightarrow>
          (fold (\<lambda>cid st. CameraStore_updateDeviceInfo cid info st) (Core_matching ip st) st,
           map (\<lambda>cid. CALL_cameraModel_updateSensorInfo cid info) (Core_matching ip st))
      | _ \<Rightarrow> (st, []))"

definition Core_person_reading :: "'j json_ops \<Rightarrow> string \<Rightarrow> exn + (string \<times> int) option" where
  "Core_person_reading J json =
     (let parsed = j_parse J json in
      if \<not> j_is_object J parsed then Inr None
      else bindE (j_string J parsed ''ip'' '''') (\<lambda>ip.
        if ip = '''' then Inr None
        else if j_contains J parsed ''person_count''
        then bindE (j_int J parsed ''person_count'' 0) (\<lambda>n. Inr (Some (ip, n)))
        else Inr None))"

definition Core_person :: "'j json_ops \<Rightarrow> string \<Rightarrow> CameraStore \<Rightarrow> CameraStore" where
  "Core_person J json st =
     (case Core_person_reading J json of
        Inr (Some (ip, n)) \<Rightarrow>
          fold (\<lambda>cid st. CameraStore_updateAiInfo cid (AiInfo_default\<lparr>ai_personCount := [n]\<rparr>) st)
            (Core_matching ip st) st
      | _ \<Rightarrow> st)"

text \<open>
  The IMAGE job. \<open>base64\<close> is the encoder of Qt. The loop moves the text into the first call, so
  the later calls get an empty text.
\<close>

definition Core_image_event ::
  "string \<Rightarrow> int \<Rightarrow> int \<Rightarrow> int \<Rightarrow> int \<Rightarrow> string \<Rightarrow> string \<Rightarrow> AiImageEvent" where
  "Core_image_event deviceName trackId frameIndex totalFrames timestamp b64 cid =
     \<lparr>ev_cameraId = cid, ev_deviceName = deviceName, ev_trackId = trackId,
      ev_frameIndex = frameIndex, ev_totalFrames = totalFrames, ev_timestamp = timestamp,
      ev_base64Image = b64\<rparr>"

fun Core_image_calls :: "(string \<Rightarrow> string \<Rightarrow> AiImageEvent) \<Rightarrow> string \<Rightarrow> string list \<Rightarrow> Core_call list" where
  "Core_image_calls event base64 [] = []"
| "Core_image_calls event base64 (cid # cids) =
     CALL_aiImageModel_onImageReceived (event base64 cid) # Core_image_calls event '''' cids"

definition Core_image_ids :: "string \<Rightarrow> CameraStore \<Rightarrow> string list" where
  "Core_image_ids ip st =
     (let matchedIds = Core_matching ip st in if matchedIds = [] then [ip @ ''/0''] else matchedIds)"

definition Core_image ::
  "'j json_ops \<Rightarrow> (bytes \<Rightarrow> string) \<Rightarrow> bytes \<Rightarrow> string \<Rightarrow> CameraStore \<Rightarrow> exn + Core_call list" where
  "Core_image J toBase64 data meta st =
     bindE (j_parse_throw J meta) (\<lambda>parsed.
     bindE (j_string J parsed ''ip'' '''') (\<lambda>ip.
       if ip = '''' then Inr []
       else
         bindE (j_string J parsed ''device_id'' '''') (\<lambda>deviceName.
         bindE (j_int J parsed ''track_id'' 0) (\<lambda>trackId.
         bindE (j_int J parsed ''frame_index'' 0) (\<lambda>frameIndex.
         bindE (j_int J parsed ''total_frames'' 0) (\<lambda>totalFrames.
         bindE (j_int J parsed ''timestamp_ms'' 0) (\<lambda>timestamp.
           Inr (Core_image_calls (Core_image_event deviceName trackId frameIndex totalFrames timestamp)
                  (''data:image/jpeg;base64,'' @ toBase64 data) (Core_image_ids ip st)))))))))"

text \<open>\<open>now\<close> is the clock when the job runs.\<close>

fun Core_runJob :: "'j json_ops \<Rightarrow> (bytes \<Rightarrow> string) \<Rightarrow> int \<Rightarrow> Core_job \<Rightarrow> Core \<Rightarrow> Core" where
  "Core_runJob J toBase64 now (JOB_cameraStore json) c =
     (case CameraStore_updateFromJson J json (core_cameraStore c) of
        (st, r) \<Rightarrow> Core_bind r CALL_cameraModel_onStoreUpdated (c\<lparr>core_cameraStore := st\<rparr>))"
| "Core_runJob J toBase64 now (JOB_deviceStore_camera json) c =
     (case DeviceStore_updateFromCameraJson J json (core_deviceStore c) of
        (st, r) \<Rightarrow> Core_bind r CALL_deviceModel_onStoreUpdated (c\<lparr>core_deviceStore := st\<rparr>))"
| "Core_runJob J toBase64 now (JOB_deviceStore_available json) c =
     (case DeviceStore_updateFromAvailableJson J now json (core_deviceStore c) of
        (st, r) \<Rightarrow> Core_bind r CALL_deviceModel_onStoreUpdated (c\<lparr>core_deviceStore := st\<rparr>))"
| "Core_runJob J toBase64 now (JOB_serverStatusStore json) c =
     (case ServerStatusStore_updateFromJson J now json (core_serverStatusStore c) of
        (st, r) \<Rightarrow> Core_bind r CALL_serverStatus_onStoreUpdated (c\<lparr>core_serverStatusStore := st\<rparr>))"
| "Core_runJob J toBase64 now (JOB_meta json) c =
     (case Core_meta J json (core_cameraStore c) of
        (st, calls) \<Rightarrow> Core_post calls (c\<lparr>core_cameraStore := st\<rparr>))"
| "Core_runJob J toBase64 now (JOB_alarm json) c =
     (case AlarmDispatcher_job J json of
        Inr (Some ev) \<Rightarrow> Core_post [CALL_alarmController_onAlarm ev] c
      | _ \<Rightarrow> c)"
| "Core_runJob J toBase64 now (JOB_personCount json) c =
     c\<lparr>core_cameraStore := Core_person J json (core_cameraStore c)\<rparr>"
| "Core_runJob J toBase64 now (JOB_image data meta) c =
     (case Core_image J toBase64 data meta (core_cameraStore c) of
        Inl _ \<Rightarrow> c
      | Inr calls \<Rightarrow> Core_post calls c)"

section \<open>Calls\<close>

text \<open>\<open>order\<close> is the order in which the hash of the camera model is iterated.\<close>

fun Core_runCall ::
  "'q qt_ops \<Rightarrow> (string \<times> int) list \<Rightarrow> (string list \<Rightarrow> string list) \<Rightarrow> int \<Rightarrow> Core_call \<Rightarrow> Core \<Rightarrow> Core"
where
  "Core_runCall Q tbl order now (CALL_cameraModel_onStoreUpdated data) c =
     c\<lparr>core_cameraModel := CameraModel_onStoreUpdated order tbl data (core_cameraModel c)\<rparr>"
| "Core_runCall Q tbl order now (CALL_deviceModel_onStoreUpdated data) c =
     c\<lparr>core_deviceModel := DeviceModel_onStoreUpdated data (core_deviceModel c)\<rparr>"
| "Core_runCall Q tbl order now (CALL_serverStatus_onStoreUpdated data) c =
     c\<lparr>core_serverStatus := ServerStatusModel_onStoreUpdated data (core_serverStatus c)\<rparr>"
| "Core_runCall Q tbl order now (CALL_userModel_onPendingListReceived json) c =
     c\<lparr>core_userModel := UserModel_onPendingListReceived Q json (core_userModel c)\<rparr>"
| "Core_runCall Q tbl order now (CALL_cameraModel_updateSensorInfo cid info) c =
     c\<lparr>core_cameraModel :=
         CameraModel_updateSensorInfo cid (hum info) (light info) (tilt info) (tmp info) (core_cameraModel c)\<rparr>"
| "Core_runCall Q tbl order now (CALL_alarmController_onAlarm ev) c =
     c\<lparr>core_alarmController := AlarmController_onAlarm now ev (core_alarmController c)\<rparr>"
| "Core_runCall Q tbl order now (CALL_aiImageModel_onImageReceived ev) c =
     c\<lparr>core_aiImageModel := AiImageModel_receive (core_aiImageModel c) ev\<rparr>"

section \<open>Steps\<close>

text \<open>The calls of the user interface on the models of this state.\<close>

fun Core_user_op :: "CameraModel_op \<Rightarrow> bool" where
  "Core_user_op (CMO_onStoreUpdated order snapshot) = False"
| "Core_user_op (CMO_updateSensorInfo cid h l ti tm) = False"
| "Core_user_op _ = True"

inductive Core_step ::
  "'j json_ops \<Rightarrow> 'q qt_ops \<Rightarrow> (bytes \<Rightarrow> string) \<Rightarrow> (string \<times> int) list \<Rightarrow> Core \<Rightarrow> Core \<Rightarrow> bool"
  for J Q toBase64 tbl
where
  signal: "\<not> core_aborted c \<Longrightarrow> Core_step J Q toBase64 tbl c (Core_onSignal sig c)"
| job: "\<not> core_aborted c \<Longrightarrow> core_jobs c = js @ j # js' \<Longrightarrow>
     Core_step J Q toBase64 tbl c (Core_runJob J toBase64 now j (c\<lparr>core_jobs := js @ js'\<rparr>))"
| call: "\<not> core_aborted c \<Longrightarrow> core_calls c = call # calls \<Longrightarrow> (\<And>ks. set (order ks) = set ks) \<Longrightarrow>
     Core_step J Q toBase64 tbl c (Core_runCall Q tbl order now call (c\<lparr>core_calls := calls\<rparr>))"
| user_grid: "\<not> core_aborted c \<Longrightarrow> Core_user_op x \<Longrightarrow>
     Core_step J Q toBase64 tbl c
       (c\<lparr>core_cameraModel := CameraModel_step tbl (core_cameraModel c) x\<rparr>)"
| user_alarm: "\<not> core_aborted c \<Longrightarrow>
     Core_step J Q toBase64 tbl c
       (c\<lparr>core_alarmController := AlarmController_dismiss k (core_alarmController c)\<rparr>)"

inductive_cases Core_stepE: "Core_step J Q toBase64 tbl c c'"

inductive Core_reachable ::
  "'j json_ops \<Rightarrow> 'q qt_ops \<Rightarrow> (bytes \<Rightarrow> string) \<Rightarrow> (string \<times> int) list \<Rightarrow> Core \<Rightarrow> bool"
  for J Q toBase64 tbl
where
  start: "Core_reachable J Q toBase64 tbl Core_init"
| step: "Core_reachable J Q toBase64 tbl c \<Longrightarrow> Core_step J Q toBase64 tbl c c' \<Longrightarrow>
     Core_reachable J Q toBase64 tbl c'"

section \<open>Lemmas: the cameras of the grid\<close>

definition CameraModel_ids :: "CameraModel \<Rightarrow> string set" where
  "CameraModel_ids m = ce_cameraId ` set (cm_cameras m)"

lemma CameraModel_ids_status: "CameraModel_ids m = fst ` CameraEntry_status ` set (cm_cameras m)"
  by (simp add: CameraModel_ids_def CameraEntry_status_def image_image)

lemma CameraModel_split_ids:
  "CameraModel_ids (fst (CameraModel_splitSlotAtIndex row n d auto m)) = CameraModel_ids m"
  by (simp add: CameraModel_ids_status CameraModel_splitSlotAtIndex_status)

lemma CameraModel_auto_ids:
  "CameraModel_ids (fst (CameraModel_applyAutoSplitForSlot tbl slotId m)) = CameraModel_ids m"
  by (simp add: CameraModel_ids_status CameraModel_applyAutoSplitForSlot_status)

lemma CameraModel_merge_ids:
  "CameraModel_ids (fst (CameraModel_mergeGroupByIndex row m)) \<subseteq> CameraModel_ids m"
proof (cases rule: CameraModel_mergeGroupByIndex_cases [of row m])
  case (merged us first vs g)
  then show ?thesis
    using CameraModel_mergeGroupByIndex_closed [OF merged]
    by (auto simp: CameraModel_ids_def CameraModel_merged_def Let_def)
qed simp

lemma CameraModel_swap_ids: "CameraModel_ids (CameraModel_swapSlots i j m) \<subseteq> CameraModel_ids m"
  by (auto simp: CameraModel_ids_def CameraModel_swapSlots_def CameraEntry_take_content_def Let_def
      dest!: set_update_subset_insert [THEN subsetD])

lemma CameraModel_setOnline_ids: "CameraModel_ids (CameraModel_setOnline i b m) \<subseteq> CameraModel_ids m"
  by (auto simp: CameraModel_ids_def CameraModel_setOnline_def Let_def
      dest!: set_update_subset_insert [THEN subsetD])

lemma CameraModel_setData_ids:
  "CameraModel_ids (fst (CameraModel_setData f g index v role m)) \<subseteq> CameraModel_ids m"
  by (auto simp: CameraModel_ids_def CameraModel_setData_def Let_def split: option.splits CameraRole.splits
      dest!: set_update_subset_insert [THEN subsetD])

lemma CameraModel_sensor_ids [simp]:
  "CameraModel_ids (CameraModel_updateSensorInfo cid h l ti tm m) = CameraModel_ids m"
proof -
  have same: "ce_cameraId ` set (map (\<lambda>e. if ce_cameraId e = cid then e\<lparr>ce_deviceInfo := g e\<rparr> else e) es) =
      ce_cameraId ` set es" for g es
    by (induction es) auto
  show ?thesis
    unfolding CameraModel_ids_def CameraModel_updateSensorInfo_def Let_def
    by (simp add: same del: set_map)
qed

lemma CameraModel_snapshot_ids:
  assumes "\<And>ks. set (order ks) = set ks"
  shows "CameraModel_ids (CameraModel_onStoreUpdated order tbl snapshot m) \<subseteq>
    CameraModel_ids m \<union> (cd_cameraId ` set snapshot - {''''})"
  using CameraModel_onStoreUpdated_rows(1) [of order snapshot tbl m] assms
    CameraModel_keys_byCid [of snapshot]
  by (auto simp: CameraModel_ids_def CameraModel_keys_def)

lemma CameraModel_clear_ids [simp]: "CameraModel_ids (CameraModel_clearAll m) = {}"
  by (simp add: CameraModel_ids_def CameraModel_clearAll_def Let_def)

text \<open>A call of the user never puts another camera on the grid.\<close>

lemma CameraModel_user_ids:
  assumes "Core_user_op x"
  shows "CameraModel_ids (CameraModel_step tbl m x) \<subseteq> CameraModel_ids m"
  using assms
  by (cases x)
    (simp_all add: CameraModel_splitSlot_def CameraModel_mergeSlots_def Let_def CameraModel_split_ids
      CameraModel_auto_ids CameraModel_merge_ids CameraModel_swap_ids CameraModel_setOnline_ids
      CameraModel_setData_ids)

section \<open>The invariant of the system\<close>

text \<open>The cameras a posted call will put on the grid.\<close>

fun Core_call_ids :: "Core_call \<Rightarrow> string set" where
  "Core_call_ids (CALL_cameraModel_onStoreUpdated data) = cd_cameraId ` set data"
| "Core_call_ids _ = {}"

text \<open>
  Every camera on the grid, or on the way to it, has an entry in the table of the store, so the
  URL provider of the video manager finds it; and every store and model is in order.
\<close>

definition Core_known :: "Core \<Rightarrow> bool" where
  "Core_known c \<longleftrightarrow>
     CameraModel_ids (core_cameraModel c) \<subseteq> dom (cst_table (core_cameraStore c)) - {''''} \<and>
     (\<forall>call \<in> set (core_calls c). Core_call_ids call \<subseteq> dom (cst_table (core_cameraStore c)))"

definition Core_inv :: "Core \<Rightarrow> bool" where
  "Core_inv c \<longleftrightarrow> Core_known c \<and>
     CameraStore_inv (core_cameraStore c) \<and> DeviceStore_inv (core_deviceStore c) \<and>
     CameraModel_inv (core_cameraModel c) \<and> AlarmController_inv (core_alarmController c)"

lemma Core_init_inv [inv_intros]: "Core_inv Core_init"
  using camera_store.init_inv device_store.init_inv camera_model.init_inv alarm_controller.init_inv
  by (simp add: Core_inv_def Core_known_def Core_init_def CameraModel_ids_def CameraModel_init_def)

lemma Core_post_inv [inv_intros]:
  assumes "Core_inv c" "\<And>call. call \<in> set calls \<Longrightarrow> Core_call_ids call \<subseteq> dom (cst_table (core_cameraStore c))"
  shows "Core_inv (Core_post calls c)"
  using assms by (auto simp: Core_inv_def Core_known_def Core_post_def)

lemma Core_bind_inv [inv_intros]:
  assumes "Core_inv c"
    and "\<And>data. outcome = Inr (Some data) \<Longrightarrow> Core_call_ids (call data) \<subseteq> dom (cst_table (core_cameraStore c))"
  shows "Core_inv (Core_bind outcome call c)"
proof -
  have "Core_inv (c\<lparr>core_aborted := True\<rparr>)"
    using assms(1) by (simp add: Core_inv_def Core_known_def)
  moreover have "Core_inv (Core_post [call data] c)" if "outcome = Inr (Some data)" for data
    using assms that by (intro Core_post_inv) auto
  ultimately show ?thesis
    using assms(1) by (auto simp: Core_bind_def split: sum.splits option.splits)
qed

text \<open>The table of the camera store only grows.\<close>

lemma CameraStore_update_grows:
  "dom (cst_table st) \<subseteq> dom (cst_table (fst (CameraStore_updateFromJson J json st)))"
  using CameraStore_items_dom [of st J "j_elems J (j_parse J json)" "[]"]
  by (auto simp: CameraStore_updateFromJson_def Let_def split: prod.splits sum.splits)

lemma CameraStore_update_snapshot_known:
  assumes "CameraStore_inv st" "CameraStore_updateFromJson J json st = (st', Inr (Some data))"
  shows "cd_cameraId ` set data \<subseteq> dom (cst_table st')"
proof -
  have "cst_data st' = data"
    using assms(2) by (auto simp: CameraStore_updateFromJson_def Let_def split: if_splits prod.splits sum.splits)
  then show ?thesis
    using CameraStore_updateFromJson_inv [OF assms(1), of J json] assms(2)
    by (auto simp: CameraStore_inv_def)
qed

lemma fold_updates:
  assumes "\<And>cid st. CameraStore_inv st \<Longrightarrow> CameraStore_inv (f cid st)"
    and "\<And>cid st. dom (cst_table st) \<subseteq> dom (cst_table (f cid st))" "CameraStore_inv st"
  shows "CameraStore_inv (fold f cids st) \<and> dom (cst_table st) \<subseteq> dom (cst_table (fold f cids st))"
  using assms(3)
proof (induction cids arbitrary: st)
  case (Cons cid cids)
  then show ?case using assms(1,2) [of st cid] by fastforce
qed simp

lemma Core_meta_inv:
  assumes "CameraStore_inv st"
  shows "CameraStore_inv (fst (Core_meta J json st)) \<and>
    dom (cst_table st) \<subseteq> dom (cst_table (fst (Core_meta J json st)))"
proof -
  have "CameraStore_inv (CameraStore_updateDeviceInfo cid info st)" if "CameraStore_inv st" for cid info st
    using CameraStore_step_inv [OF that, of J "CS_updateDeviceInfo cid info"] by simp
  then have "CameraStore_inv (fold (\<lambda>cid. CameraStore_updateDeviceInfo cid info) cids st) \<and>
      dom (cst_table st) \<subseteq> dom (cst_table (fold (\<lambda>cid. CameraStore_updateDeviceInfo cid info) cids st))"
    for info cids
    by (intro fold_updates assms) (auto simp: CameraStore_updateDeviceInfo_def)
  with assms show ?thesis
    by (auto simp: Core_meta_def split: sum.splits option.splits)
qed

lemma Core_person_inv:
  assumes "CameraStore_inv st"
  shows "CameraStore_inv (Core_person J json st) \<and> dom (cst_table st) \<subseteq> dom (cst_table (Core_person J json st))"
proof -
  have "CameraStore_inv (CameraStore_updateAiInfo cid info st)" if "CameraStore_inv st" for cid info st
    using CameraStore_step_inv [OF that, of J "CS_updateAiInfo cid info"] by simp
  then have "CameraStore_inv (fold (\<lambda>cid. CameraStore_updateAiInfo cid info) cids st) \<and>
      dom (cst_table st) \<subseteq> dom (cst_table (fold (\<lambda>cid. CameraStore_updateAiInfo cid info) cids st))"
    for info cids
    by (intro fold_updates assms) (auto simp: CameraStore_updateAiInfo_def)
  with assms show ?thesis
    by (auto simp: Core_person_def split: sum.splits option.splits)
qed

text \<open>A new camera store that knows at least the cameras of the old one.\<close>

lemma Core_store_inv:
  assumes "Core_inv c" "CameraStore_inv st" "dom (cst_table (core_cameraStore c)) \<subseteq> dom (cst_table st)"
  shows "Core_inv (c\<lparr>core_cameraStore := st\<rparr>)"
  using assms by (auto simp: Core_inv_def Core_known_def; blast)

lemma Core_image_calls_ids: "call \<in> set (Core_image_calls event b cids) \<Longrightarrow> Core_call_ids call = {}"
  by (induction cids arbitrary: b) auto

lemma Core_jobs_inv [simp]: "Core_inv (c\<lparr>core_jobs := js\<rparr>) \<longleftrightarrow> Core_inv c"
  by (simp add: Core_inv_def Core_known_def)

lemma Core_device_inv:
  "Core_inv c \<Longrightarrow> DeviceStore_inv devices \<Longrightarrow> Core_inv (c\<lparr>core_deviceStore := devices\<rparr>)"
  by (simp add: Core_inv_def Core_known_def)

lemma Core_server_inv: "Core_inv c \<Longrightarrow> Core_inv (c\<lparr>core_serverStatusStore := st\<rparr>)"
  by (simp add: Core_inv_def Core_known_def)

lemma Core_runJob_inv:
  assumes "Core_inv c"
  shows "Core_inv (Core_runJob J toBase64 now j c)"
proof (cases j)
  case (JOB_cameraStore json)
  obtain st r where u: "CameraStore_updateFromJson J json (core_cameraStore c) = (st, r)" by fastforce
  have "Core_inv (c\<lparr>core_cameraStore := st\<rparr>)"
    using assms CameraStore_updateFromJson_inv [of "core_cameraStore c" J json]
      CameraStore_update_grows [of "core_cameraStore c" J json] u
    by (intro Core_store_inv) (auto simp: Core_inv_def)
  moreover have "cd_cameraId ` set data \<subseteq> dom (cst_table st)" if "r = Inr (Some data)" for data
    using CameraStore_update_snapshot_known [of "core_cameraStore c" J json st data] assms u that
    by (simp add: Core_inv_def)
  ultimately show ?thesis
    using JOB_cameraStore u by (simp add: Core_bind_inv)
next
  case (JOB_deviceStore_camera json)
  have "DeviceStore_inv (fst (DeviceStore_updateFromCameraJson J json (core_deviceStore c)))"
    using assms by (intro DeviceStore_camera_inv) (simp add: Core_inv_def)
  with JOB_deviceStore_camera assms show ?thesis
    by (auto simp: Core_device_inv intro!: Core_bind_inv split: prod.splits)
next
  case (JOB_deviceStore_available json)
  have "DeviceStore_inv (fst (DeviceStore_updateFromAvailableJson J now json (core_deviceStore c)))"
    using assms by (intro DeviceStore_available_inv) (simp add: Core_inv_def)
  with JOB_deviceStore_available assms show ?thesis
    by (auto simp: Core_device_inv intro!: Core_bind_inv split: prod.splits)
next
  case (JOB_serverStatusStore json)
  with assms show ?thesis
    by (auto simp: Core_server_inv intro!: Core_bind_inv split: prod.splits)
next
  case (JOB_meta json)
  have "Core_inv (c\<lparr>core_cameraStore := fst (Core_meta J json (core_cameraStore c))\<rparr>)"
    using Core_meta_inv [of "core_cameraStore c" J json] assms by (intro Core_store_inv) (auto simp: Core_inv_def)
  moreover have "Core_call_ids call = {}" if "call \<in> set (snd (Core_meta J json (core_cameraStore c)))" for call
    using that by (auto simp: Core_meta_def split: sum.splits option.splits)
  ultimately show ?thesis
    using JOB_meta by (auto intro!: Core_post_inv split: prod.splits)
next
  case (JOB_alarm json)
  with assms show ?thesis by (auto intro!: Core_post_inv split: sum.splits option.splits)
next
  case (JOB_personCount json)
  with assms Core_person_inv [of "core_cameraStore c" J json] show ?thesis
    by (auto simp: Core_inv_def [of c] intro: Core_store_inv)
next
  case (JOB_image data meta)
  have "Core_call_ids call = {}"
    if "Core_image J toBase64 data meta (core_cameraStore c) = Inr calls" "call \<in> set calls" for calls call
    using that Core_image_calls_ids
    by (auto simp: Core_image_def bindE_Inr_iff Let_def split: if_splits)
  with JOB_image assms show ?thesis by (auto intro!: Core_post_inv split: sum.splits)
qed

lemma Core_model_inv:
  assumes "Core_inv c" "CameraModel_inv m"
    "CameraModel_ids m \<subseteq> dom (cst_table (core_cameraStore c)) - {''''}"
  shows "Core_inv (c\<lparr>core_cameraModel := m\<rparr>)"
  using assms by (simp add: Core_inv_def Core_known_def)

lemma Core_runCall_inv:
  assumes "Core_inv c" "core_calls c = call # calls" "\<And>ks. set (order ks) = set ks"
  shows "Core_inv (Core_runCall Q tbl order now call (c\<lparr>core_calls := calls\<rparr>))"
proof -
  have c: "Core_inv (c\<lparr>core_calls := calls\<rparr>)"
    using assms(1,2) by (simp add: Core_inv_def Core_known_def)
  have m: "CameraModel_inv (core_cameraModel c)"
      "CameraModel_ids (core_cameraModel c) \<subseteq> dom (cst_table (core_cameraStore c)) - {''''}"
      "Core_call_ids call \<subseteq> dom (cst_table (core_cameraStore c))"
    using assms(1,2) by (simp_all add: Core_inv_def Core_known_def)
  show ?thesis
  proof (cases call)
    case (CALL_cameraModel_onStoreUpdated data)
    have "CameraModel_ids (CameraModel_onStoreUpdated order tbl data (core_cameraModel c)) \<subseteq>
        dom (cst_table (core_cameraStore c)) - {''''}"
      using CameraModel_snapshot_ids [OF assms(3), of tbl data "core_cameraModel c"] m(2)
        m(3) [unfolded CALL_cameraModel_onStoreUpdated Core_call_ids.simps] by blast
    with CALL_cameraModel_onStoreUpdated c m(1) show ?thesis
      by (simp add: Core_model_inv CameraModel_onStoreUpdated_inv)
  next
    case (CALL_cameraModel_updateSensorInfo cid info)
    with c m show ?thesis by (simp add: Core_model_inv CameraModel_updateSensorInfo_inv)
  next
    case (CALL_alarmController_onAlarm ev)
    with c alarm_controller.step_inv [of "core_alarmController c" "AL_onAlarm now ev"] show ?thesis
      by (simp add: Core_inv_def Core_known_def)
  qed (use c in \<open>simp_all add: Core_inv_def Core_known_def\<close>)
qed

lemma Core_onSignal_inv:
  assumes "Core_inv c"
  shows "Core_inv (Core_onSignal sig c)"
proof (cases sig)
  case SIG_logoutRequested
  have "AlarmController_inv (AlarmController_clearAll (core_alarmController c))"
      "CameraModel_inv (CameraModel_clearAll (core_cameraModel c))"
    using assms alarm_controller.step_inv [of "core_alarmController c" AL_clearAll]
    by (simp_all add: Core_inv_def CameraModel_clearAll_inv)
  with SIG_logoutRequested assms show ?thesis
    by (simp add: Core_logout_def Core_inv_def Core_known_def)
qed (use assms in \<open>auto simp: Core_submit_def intro!: Core_post_inv\<close>)

lemma Core_step_inv:
  assumes "Core_step J Q toBase64 tbl c c'" "Core_inv c"
  shows "Core_inv c'"
  using assms(1)
proof cases
  case (job js j js' now)
  then show ?thesis using assms(2) by (simp add: Core_runJob_inv)
next
  case (call call calls order now)
  then show ?thesis using assms(2) by (simp add: Core_runCall_inv)
next
  case (user_grid x)
  have "CameraModel_ids (CameraModel_step tbl (core_cameraModel c) x) \<subseteq>
      dom (cst_table (core_cameraStore c)) - {''''}"
    using assms(2)
    by (intro order_trans [OF CameraModel_user_ids [OF user_grid(3)]]) (simp add: Core_inv_def Core_known_def)
  with user_grid assms(2) show ?thesis
    by (auto intro!: Core_model_inv CameraModel_step_inv simp: Core_inv_def [of c])
next
  case (user_alarm k)
  then show ?thesis
    using assms(2) alarm_controller.step_inv [of "core_alarmController c" "AL_dismiss k"]
    by (simp add: Core_inv_def Core_known_def)
qed (use assms(2) in \<open>simp add: Core_onSignal_inv\<close>)

lemma Core_reachable_inv: "Core_reachable J Q toBase64 tbl c \<Longrightarrow> Core_inv c"
  by (induction rule: Core_reachable.induct) (auto intro: Core_init_inv Core_step_inv)

section \<open>Properties\<close>

lemma Core_matching_ids: "Core_matching ip st = filter (\<lambda>cid. prefix ip cid) (map cd_cameraId (cst_data st))"
proof -
  have "map cd_cameraId (CameraStore_snapshot st) = map cd_cameraId (cst_data st)"
    by (simp add: CameraStore_snapshot_def comp_def cong: map_cong split: option.splits)
  then show ?thesis by (simp add: Core_matching_def starts_with_def)
qed

lemma fold_updateDeviceInfo_entry:
  "CameraStore_entry (fold (\<lambda>cid st. CameraStore_updateDeviceInfo cid info st) cids st) cid =
     (if cid \<in> set cids then (CameraStore_entry st cid)\<lparr>cs_deviceInfo := info\<rparr> else CameraStore_entry st cid)"
  by (induction cids arbitrary: st) (auto simp: CameraStore_updateDeviceInfo_def CameraStore_entry_def)

text \<open>
  Claim C9. In every state the program can reach, in whatever order packets, jobs of the pool,
  calls of the event loop and calls of the user come, every camera on the grid has a non-empty
  id and an entry in the table of the store, so the video manager always gets its URL; at most
  twenty alarms are shown, and no device keeps more than sixty readings.
\<close>

theorem Core_grid_cameras_known:
  assumes "Core_reachable J Q toBase64 tbl c"
  shows "list_all (\<lambda>e. ce_cameraId e \<noteq> '''' \<and> cst_table (core_cameraStore c) (ce_cameraId e) \<noteq> None)
      (cm_cameras (core_cameraModel c)) \<and>
    length (ac_alarms (core_alarmController c)) \<le> 20 \<and>
    list_all (\<lambda>d. length (d_history d) \<le> 60) (core_deviceStore c)"
proof -
  have inv: "Core_inv c" by (rule Core_reachable_inv [OF assms])
  then have "ce_cameraId ` set (cm_cameras (core_cameraModel c)) \<subseteq>
      dom (cst_table (core_cameraStore c)) - {''''}"
    by (simp add: Core_inv_def Core_known_def CameraModel_ids_def)
  then have "list_all (\<lambda>e. ce_cameraId e \<noteq> '''' \<and> cst_table (core_cameraStore c) (ce_cameraId e) \<noteq> None)
      (cm_cameras (core_cameraModel c))"
    unfolding list_all_iff by blast
  with inv show ?thesis
    by (auto simp: Core_inv_def AlarmController_inv_def kMaxAlarms_def DeviceStore_inv_def
        MAX_HISTORY_def list_all_iff)
qed

definition core_example_json :: "jv json_ops" where
  "core_example_json = jv_ops [(''cameras'', JArr [JObj [(''ip'', JStr ''192.168.0.17'')]]),
     (''meta'', JObj [(''ip'', JStr ''192.168.0.1''), (''sensor_batch'', JArr [JObj [(''hum'', JFloat 40)]])]),
     (''two cameras'', JArr [JObj [(''ip'', JStr ''192.168.0.17'')], JObj [(''ip'', JStr ''192.168.0.17'')]]),
     (''image'', JObj [(''ip'', JStr ''192.168.0.17'')])]"

definition core_example_qt :: "unit qt_ops" where
  "core_example_qt = \<lparr>q_document = (\<lambda>_. None), q_value = (\<lambda>_ _. ()), q_toBool = (\<lambda>_. False),
     q_toArray = (\<lambda>_. []), q_toObject = (\<lambda>_. ()), q_toString = (\<lambda>_. ''''), q_isoDate = (\<lambda>_. None),
     q_plainDate = (\<lambda>_. None)\<rparr>"

theorem Core_grid_cameras_known_witness:
  "\<exists>c :: Core. map ce_cameraId (cm_cameras (core_cameraModel c)) = [''192.168.0.17/0''] \<and>
     list_all (\<lambda>e. ce_cameraId e \<noteq> '''' \<and> cst_table (core_cameraStore c) (ce_cameraId e) \<noteq> None)
       (cm_cameras (core_cameraModel c))"
proof -
  let ?J = core_example_json and ?Q = core_example_qt and ?b = "\<lambda>_. ''''" and ?tbl = "[]"
  define c1 where "c1 = Core_onSignal (SIG_cameraListReceived ''cameras'') Core_init"
  define c2 where "c2 = Core_runJob ?J ?b 0 (JOB_cameraStore ''cameras'')
    (c1\<lparr>core_jobs := [] @ [JOB_deviceStore_camera ''cameras'']\<rparr>)"
  define call where "call = hd (core_calls c2)"
  define c3 where "c3 = Core_runCall ?Q ?tbl id 0 call (c2\<lparr>core_calls := []\<rparr>)"
  have "Core_step ?J ?Q ?b ?tbl Core_init c1"
    unfolding c1_def by (intro Core_step.signal) (simp add: Core_init_def)
  moreover have "Core_step ?J ?Q ?b ?tbl c1 c2"
    unfolding c2_def by (intro Core_step.job) (simp_all add: c1_def Core_submit_def Core_init_def)
  moreover have "core_calls c2 = [call] \<and> \<not> core_aborted c2"
    unfolding call_def c2_def c1_def by code_simp
  then have "Core_step ?J ?Q ?b ?tbl c2 c3"
    unfolding c3_def by (intro Core_step.call) simp_all
  ultimately have reach: "Core_reachable ?J ?Q ?b ?tbl c3"
    by (metis Core_reachable.intros)
  have "map ce_cameraId (cm_cameras (core_cameraModel c3)) = [''192.168.0.17/0'']"
    unfolding c3_def call_def c2_def c1_def by code_simp
  then show ?thesis
    using Core_grid_cameras_known [OF reach] by (intro exI [where x = c3] conjI) (assumption, elim conjE)
qed

text \<open>
  A META packet sets the reading of exactly the cameras in the list whose id has the
  ip of the packet as a prefix, in the store and in the calls to the grid, and leaves everything
  else of the store. The test is a prefix test: a packet of 192.168.0.1 also hits the camera
  192.168.0.17/0.
\<close>

theorem Core_meta_updates_matching:
  assumes "Core_meta_reading J json = Inr (Some (ip, info))"
  shows "CameraStore_entry (fst (Core_meta J json st)) cid =
      (if cid \<in> cd_cameraId ` set (cst_data st) \<and> prefix ip cid
       then (CameraStore_entry st cid)\<lparr>cs_deviceInfo := info\<rparr> else CameraStore_entry st cid) \<and>
    snd (Core_meta J json st) =
      map (\<lambda>cid. CALL_cameraModel_updateSensorInfo cid info)
        (filter (prefix ip) (map cd_cameraId (cst_data st)))"
  using assms by (auto simp: Core_meta_def fold_updateDeviceInfo_entry Core_matching_ids)

theorem Core_meta_updates_matching_witness:
  "hum (cs_deviceInfo (CameraStore_entry (fst (Core_meta core_example_json ''meta''
      (fst (CameraStore_updateFromJson core_example_json ''cameras'' CameraStore_init)))) ''192.168.0.17/0'')) = 40"
proof -
  let ?st = "fst (CameraStore_updateFromJson core_example_json ''cameras'' CameraStore_init)"
  have reading: "Core_meta_reading core_example_json ''meta'' =
      Inr (Some (''192.168.0.1'', \<lparr>hum = 40, light = 0, tilt = 0, tmp = 0\<rparr>))"
    by code_simp
  have ids: "map cd_cameraId (cst_data ?st) = [''192.168.0.17/0'']" by code_simp
  define st where "st = ?st"
  have "''192.168.0.17/0'' \<in> cd_cameraId ` set (cst_data st)"
    unfolding st_def set_map [symmetric] ids by (simp only: list.set insertI1)
  with Core_meta_updates_matching [OF reading, of st "''192.168.0.17/0''"]
  show ?thesis unfolding st_def [symmetric] by simp
qed

text \<open>
  Of the cameras an image is for, only the first gets it: the call for the first one
  carries the encoded image, the calls for the others an empty text.
\<close>

theorem Core_image_reaches_first_only:
  assumes "Core_image J toBase64 data meta st = Inr calls" "calls \<noteq> []"
  shows "\<exists>ev evs. calls = map CALL_aiImageModel_onImageReceived (ev # evs) \<and>
    ev_base64Image ev = ''data:image/jpeg;base64,'' @ toBase64 data \<and>
    list_all (\<lambda>ev'. ev_base64Image ev' = '''' \<and> ev_timestamp ev' = ev_timestamp ev) evs \<and>
    (\<exists>ip. map ev_cameraId (ev # evs) = Core_image_ids ip st)"
proof -
  obtain deviceName trackId frameIndex totalFrames timestamp ip where calls:
      "calls = Core_image_calls (Core_image_event deviceName trackId frameIndex totalFrames timestamp)
         (''data:image/jpeg;base64,'' @ toBase64 data) (Core_image_ids ip st)"
    using assms by (auto simp: Core_image_def bindE_Inr_iff split: if_splits)
  define ids where "ids = Core_image_ids ip st"
  then have "ids \<noteq> []" by (simp add: Core_image_ids_def Let_def)
  then obtain cid cids where ids: "ids = cid # cids" by (cases ids) auto
  let ?event = "Core_image_event deviceName trackId frameIndex totalFrames timestamp"
  have "Core_image_calls e b xs = map CALL_aiImageModel_onImageReceived (map (e b) xs)" if "b = ''''" for e b xs
    using that by (induction xs) simp_all
  then have "calls = map CALL_aiImageModel_onImageReceived
      (?event (''data:image/jpeg;base64,'' @ toBase64 data) cid # map (?event '''') cids)"
    unfolding calls ids_def [symmetric] ids by simp
  moreover have "map ev_cameraId (?event b cid # map (?event '''') cids) = ids" for b
    by (simp add: ids Core_image_event_def comp_def)
  ultimately show ?thesis
    unfolding ids_def
    by (intro exI [of _ "?event (''data:image/jpeg;base64,'' @ toBase64 data) cid"] exI [of _ "map (?event '''') cids"]
        conjI) (auto simp: Core_image_event_def list_all_iff)
qed

theorem Core_image_reaches_first_only_witness:
  "\<exists>(ev :: AiImageEvent) (evs :: AiImageEvent list). evs \<noteq> [] \<and> ev_base64Image ev = ''data:image/jpeg;base64,/9j/'' \<and>
     list_all (\<lambda>ev'. ev_base64Image ev' = '''' \<and> ev_timestamp ev' = ev_timestamp ev) evs"
proof -
  let ?st = "fst (CameraStore_updateFromJson core_example_json ''two cameras'' CameraStore_init)"
  define calls where "calls =
    (case Core_image core_example_json (\<lambda>_. ''/9j/'') [255] ''image'' ?st of Inl _ \<Rightarrow> [] | Inr calls \<Rightarrow> calls)"
  have two: "length calls = 2" unfolding calls_def by code_simp
  then have calls: "Core_image core_example_json (\<lambda>_. ''/9j/'') [255] ''image'' ?st = Inr calls" "calls \<noteq> []"
    unfolding calls_def by (auto split: sum.splits)
  from Core_image_reaches_first_only [OF this] obtain ev evs where
      "calls = map CALL_aiImageModel_onImageReceived (ev # evs)"
      "ev_base64Image ev = ''data:image/jpeg;base64,'' @ ''/9j/''"
      "list_all (\<lambda>ev'. ev_base64Image ev' = '''' \<and> ev_timestamp ev' = ev_timestamp ev) evs"
    by blast
  with two show ?thesis
    by (intro exI [of _ ev] exI [of _ evs]) auto
qed

end
