(* ===== verification/Video.thy ===== *)
theory Video
  imports CameraModel
begin

text \<open>
  Src/Network/Video.hpp and Video.cpp (the stream of one camera: start, stop, the limit of frames
  per second) and Qt/Back/Services/VideoStream.hpp and VideoStream.cpp: the worker that copies
  decoded frames, the manager with one worker per camera, and the bridge that shows the worker of
  a slot. A running stream is the URL it was started with, and a decoded frame is two planes of
  bytes with their strides; the decoding thread is in VideoDecode. QVideoFrame is not modelled.
\<close>

section \<open>The stream of a camera\<close>

record Video =
  vid_thread :: "string option"  \<comment> \<open>the URL of the decoding thread, if one runs\<close>
  vid_fpsLimitMs :: int
  vid_lastFrameTime :: int  \<comment> \<open>in nanoseconds of the steady clock\<close>

definition Video_new :: Video where
  "Video_new = \<lparr>vid_thread = None, vid_fpsLimitMs = 33, vid_lastFrameTime = 0\<rparr>"

definition Video_setFpsLimit :: "int \<Rightarrow> Video \<Rightarrow> Video" where
  "Video_setFpsLimit fps v = v\<lparr>vid_fpsLimitMs := (if 0 < fps then 1000 div fps else 33)\<rparr>"

definition Video_stopStream :: "Video \<Rightarrow> Video" where
  "Video_stopStream v = v\<lparr>vid_thread := None\<rparr>"

definition Video_startStream :: "string \<Rightarrow> int \<Rightarrow> Video \<Rightarrow> Video" where
  "Video_startStream url fpsLimit v =
     (if url = [] then v
      else
        let v1 = Video_stopStream v;
            v2 = (if 0 < fpsLimit then v1\<lparr>vid_fpsLimitMs := 1000 div fpsLimit\<rparr>
                  else v1\<lparr>vid_fpsLimitMs := 33\<rparr>)
        in v2\<lparr>vid_thread := Some url\<rparr>)"

text \<open>
  The throttle in front of the callback: whether the frame decoded at \<open>now\<close> is shown. The clock
  does not go back, so the conversion to milliseconds rounds down.
\<close>

definition Video_throttle :: "int \<Rightarrow> Video \<Rightarrow> Video \<times> bool" where
  "Video_throttle now v =
     (let elapsedMs = (now - vid_lastFrameTime v) div 1000000
      in if elapsedMs < vid_fpsLimitMs v then (v, False) else (v\<lparr>vid_lastFrameTime := now\<rparr>, True))"

text \<open>The times of the frames that are shown, of those that are decoded.\<close>

fun Video_shown :: "int list \<Rightarrow> Video \<Rightarrow> int list" where
  "Video_shown [] v = []"
| "Video_shown (now # ts) v =
     (case Video_throttle now v of
        (v', True) \<Rightarrow> now # Video_shown ts v'
      | (v', False) \<Rightarrow> Video_shown ts v')"

section \<open>Copying a frame\<close>

text \<open>\<open>std::memcpy(dst + off, src, n)\<close> on a buffer that has the room.\<close>

definition memcpy_at :: "nat \<Rightarrow> bytes \<Rightarrow> bytes \<Rightarrow> bytes" where
  "memcpy_at off chunk dst = take off dst @ chunk @ drop (off + length chunk) dst"

text \<open>
  One plane of \<open>rows\<close> rows of \<open>w\<close> bytes: in one piece when the rows are adjacent in the source,
  row by row otherwise.
\<close>

definition VideoWorker_copyPlane :: "nat \<Rightarrow> nat \<Rightarrow> nat \<Rightarrow> nat \<Rightarrow> bytes \<Rightarrow> bytes \<Rightarrow> bytes" where
  "VideoWorker_copyPlane w sz rows stride src dst =
     (if stride = w then memcpy_at 0 (take sz src) dst
      else foldl (\<lambda>dst i. memcpy_at (i * w) (take w (drop (i * stride) src)) dst) dst [0..<rows])"

record FramePayload =
  fp_dataY :: "bytes option"
  fp_dataUV :: "bytes option"
  fp_width :: int
  fp_height :: int
  fp_strideY :: nat
  fp_strideUV :: nat

text \<open>
  \<open>onFrameReady\<close>: the planes of the new frame. \<open>alloc w h\<close> is what mapping a new NV12 frame gives,
  \<open>None\<close> where it fails.
\<close>

definition VideoWorker_onFrameReady ::
  "(nat \<Rightarrow> nat \<Rightarrow> (bytes \<times> bytes) option) \<Rightarrow> FramePayload \<Rightarrow> (bytes \<times> bytes) option" where
  "VideoWorker_onFrameReady alloc payload =
     (case (fp_dataY payload, fp_dataUV payload) of
        (Some dataY, Some dataUV) \<Rightarrow>
          if fp_width payload \<le> 0 \<or> fp_height payload \<le> 0 then None
          else
            let w = nat (fp_width payload); h = nat (fp_height payload) in
            (case alloc w h of
               None \<Rightarrow> None
             | Some (bits0, bits1) \<Rightarrow>
                 Some (VideoWorker_copyPlane w (w * h) h (fp_strideY payload) dataY bits0,
                       VideoWorker_copyPlane w (w * h div 2) (h div 2) (fp_strideUV payload) dataUV bits1))
      | _ \<Rightarrow> None)"

section \<open>The manager of the workers\<close>

text \<open>
  \<open>vw_object\<close> identifies the object, since a worker that is deleted may be created anew. The
  latest frame is \<open>None\<close> while the \<open>QVideoFrame\<close> is not valid.
\<close>

record VideoWorker =
  vw_object :: nat
  vw_cameraId :: string
  vw_connectionString :: string
  vw_fpsLimit :: int
  vw_video :: Video
  vw_frameSeq :: "64 word"
  vw_latestFrame :: "(bytes \<times> bytes) option"

definition VideoWorker_new :: "nat \<Rightarrow> string \<Rightarrow> VideoWorker" where
  "VideoWorker_new obj cameraId =
     \<lparr>vw_object = obj, vw_cameraId = cameraId, vw_connectionString = '''', vw_fpsLimit = 30,
      vw_video = Video_new, vw_frameSeq = 0, vw_latestFrame = None\<rparr>"

text \<open>
  A decoded frame that the throttle let pass reaches the callback. It stores the copy under the
  spin lock, and counts it afterwards: two steps, between which the timer of a stream may run.\<close>

definition VideoWorker_store :: "bytes \<times> bytes \<Rightarrow> VideoWorker \<Rightarrow> VideoWorker" where
  "VideoWorker_store frame w = w\<lparr>vw_latestFrame := Some frame\<rparr>"

definition VideoWorker_count :: "VideoWorker \<Rightarrow> VideoWorker" where
  "VideoWorker_count w = w\<lparr>vw_frameSeq := vw_frameSeq w + 1\<rparr>"

definition VideoWorker_setConnectionString :: "string \<Rightarrow> VideoWorker \<Rightarrow> VideoWorker" where
  "VideoWorker_setConnectionString url w = w\<lparr>vw_connectionString := url\<rparr>"

definition VideoWorker_setFpsLimit :: "int \<Rightarrow> VideoWorker \<Rightarrow> VideoWorker" where
  "VideoWorker_setFpsLimit fps w =
     w\<lparr>vw_fpsLimit := fps, vw_video := Video_setFpsLimit fps (vw_video w)\<rparr>"

definition VideoWorker_startStream :: "VideoWorker \<Rightarrow> VideoWorker" where
  "VideoWorker_startStream w =
     (if vw_connectionString w = '''' then w
      else w\<lparr>vw_video := Video_startStream (vw_connectionString w) (vw_fpsLimit w) (vw_video w)\<rparr>)"

definition VideoWorker_stopStream :: "VideoWorker \<Rightarrow> VideoWorker" where
  "VideoWorker_stopStream w = w\<lparr>vw_video := Video_stopStream (vw_video w)\<rparr>"

text \<open>\<open>vm_registered\<close> lists the \<open>workerRegistered\<close> signals in order.\<close>

record VideoManager =
  vm_workers :: "string \<rightharpoonup> VideoWorker"
  vm_slots :: "int \<rightharpoonup> string"
  vm_objects :: nat
  vm_registered :: "string list"

definition VideoManager_init :: VideoManager where
  "VideoManager_init = \<lparr>vm_workers = Map.empty, vm_slots = Map.empty, vm_objects = 0, vm_registered = []\<rparr>"

text \<open>The two providers, where they are set.\<close>

record video_providers =
  vp_url :: "(string \<Rightarrow> string) option"
  vp_fps :: "int option"

definition VideoManager_configure :: "video_providers \<Rightarrow> string \<Rightarrow> VideoWorker \<Rightarrow> VideoWorker" where
  "VideoManager_configure P cameraId w =
     (let w1 = (case vp_url P of None \<Rightarrow> w | Some url \<Rightarrow> VideoWorker_setConnectionString (url cameraId) w)
      in case vp_fps P of None \<Rightarrow> w1 | Some fps \<Rightarrow> VideoWorker_setFpsLimit fps w1)"

definition VideoManager_create :: "video_providers \<Rightarrow> string \<Rightarrow> VideoManager \<Rightarrow> VideoManager" where
  "VideoManager_create P cameraId vm =
     (let w = VideoManager_configure P cameraId (VideoWorker_new (vm_objects vm) cameraId)
      in vm\<lparr>vm_workers := (vm_workers vm)(cameraId \<mapsto> VideoWorker_startStream w),
            vm_objects := vm_objects vm + 1,
            vm_registered := vm_registered vm @ [cameraId]\<rparr>)"

definition VideoManager_getWorker :: "VideoManager \<Rightarrow> string \<Rightarrow> VideoWorker option" where
  "VideoManager_getWorker vm cameraId = vm_workers vm cameraId"

definition VideoManager_hasSlot :: "VideoManager \<Rightarrow> int \<Rightarrow> bool" where
  "VideoManager_hasSlot vm slotId \<longleftrightarrow> vm_slots vm slotId \<noteq> None"

definition VideoManager_slotCameraId :: "VideoManager \<Rightarrow> int \<Rightarrow> string" where
  "VideoManager_slotCameraId vm slotId = (case vm_slots vm slotId of None \<Rightarrow> '''' | Some cid \<Rightarrow> cid)"

definition VideoManager_getWorkerBySlot :: "VideoManager \<Rightarrow> int \<Rightarrow> VideoWorker option" where
  "VideoManager_getWorkerBySlot vm slotId = VideoManager_getWorker vm (VideoManager_slotCameraId vm slotId)"

text \<open>Deleting a worker ends its stream.\<close>

definition VideoManager_clearAll :: "VideoManager \<Rightarrow> VideoManager" where
  "VideoManager_clearAll vm = vm\<lparr>vm_workers := Map.empty, vm_slots := Map.empty\<rparr>"

definition VideoManager_register :: "video_providers \<Rightarrow> string \<Rightarrow> VideoManager \<Rightarrow> VideoManager" where
  "VideoManager_register P cameraId vm =
     (if cameraId = '''' \<or> vm_workers vm cameraId \<noteq> None then vm else VideoManager_create P cameraId vm)"

definition VideoManager_registerSlots ::
  "video_providers \<Rightarrow> SlotInfo list \<Rightarrow> VideoManager \<Rightarrow> VideoManager" where
  "VideoManager_registerSlots P slots vm =
     (let vm1 = vm\<lparr>vm_slots := foldl (\<lambda>m si. m(si_slotId si \<mapsto> si_cameraId si)) Map.empty slots\<rparr>
      in foldl (\<lambda>vm si. VideoManager_register P (si_cameraId si) vm) vm1 slots)"

definition VideoManager_registerCameraIds ::
  "video_providers \<Rightarrow> string list \<Rightarrow> VideoManager \<Rightarrow> VideoManager" where
  "VideoManager_registerCameraIds P cameraIds vm =
     foldl (\<lambda>vm cid. VideoManager_register P cid vm) vm cameraIds"

definition VideoManager_restartWorker ::
  "video_providers \<Rightarrow> string \<Rightarrow> VideoManager \<Rightarrow> VideoManager" where
  "VideoManager_restartWorker P cameraId vm =
     (case vm_workers vm cameraId of
        None \<Rightarrow> if cameraId = '''' then vm else VideoManager_create P cameraId vm
      | Some w \<Rightarrow>
          let w1 = VideoManager_configure P cameraId (VideoWorker_stopStream w)
          in vm\<lparr>vm_workers := (vm_workers vm)(cameraId \<mapsto> VideoWorker_startStream w1),
                vm_registered := vm_registered vm @ [cameraId]\<rparr>)"

definition VideoManager_setFpsLimit :: "int \<Rightarrow> VideoManager \<Rightarrow> VideoManager" where
  "VideoManager_setFpsLimit fps vm =
     vm\<lparr>vm_workers := (\<lambda>cid. map_option (VideoWorker_setFpsLimit fps) (vm_workers vm cid))\<rparr>"

section \<open>The stream of a card\<close>

text \<open>
  A \<open>QPointer\<close> to a worker is the key and the identity of the object: it is null once the worker
  of the key is another one or gone. \<open>vs_listening\<close> says that \<open>onWorkerRegistered\<close> is connected.
\<close>

record VideoStream =
  vs_slotId :: int
  vs_cameraId :: string
  vs_worker :: "(string \<times> nat) option"
  vs_lastSeq :: "64 word"
  vs_listening :: bool
  vs_sink :: bool

definition VideoStream_new :: VideoStream where
  "VideoStream_new = \<lparr>vs_slotId = -1, vs_cameraId = '''', vs_worker = None, vs_lastSeq = 0,
     vs_listening = False, vs_sink = False\<rparr>"

definition VideoStream_deref :: "VideoManager \<Rightarrow> VideoStream \<Rightarrow> VideoWorker option" where
  "VideoStream_deref vm vs =
     (case vs_worker vs of
        None \<Rightarrow> None
      | Some (cid, obj) \<Rightarrow>
          (case vm_workers vm cid of
             None \<Rightarrow> None
           | Some w \<Rightarrow> if vw_object w = obj then Some w else None))"

definition VideoStream_pointer :: "VideoWorker option \<Rightarrow> (string \<times> nat) option" where
  "VideoStream_pointer = map_option (\<lambda>w. (vw_cameraId w, vw_object w))"

definition VideoStream_setVideoSink :: "bool \<Rightarrow> VideoStream \<Rightarrow> VideoStream" where
  "VideoStream_setVideoSink sink vs = vs\<lparr>vs_sink := sink\<rparr>"

definition VideoStream_target :: "VideoManager \<Rightarrow> VideoStream \<Rightarrow> VideoWorker option" where
  "VideoStream_target vm vs =
     (if 0 \<le> vs_slotId vs then
        (case VideoManager_getWorkerBySlot vm (vs_slotId vs) of
           Some w \<Rightarrow> Some w
         | None \<Rightarrow> if vs_cameraId vs = '''' then None else VideoManager_getWorker vm (vs_cameraId vs))
      else if vs_cameraId vs = '''' then None
      else VideoManager_getWorker vm (vs_cameraId vs))"

definition VideoStream_tryAttach :: "VideoManager option \<Rightarrow> VideoStream \<Rightarrow> VideoStream" where
  "VideoStream_tryAttach videoManager vs =
     (case videoManager of
        None \<Rightarrow> vs
      | Some vm \<Rightarrow>
          let newWorker = VideoStream_pointer (VideoStream_target vm vs) in
          if newWorker = VideoStream_pointer (VideoStream_deref vm vs) then vs
          else
            let vs1 = vs\<lparr>vs_worker := newWorker, vs_lastSeq := 0\<rparr>
            in if newWorker = None then vs1\<lparr>vs_listening := True\<rparr> else vs1)"

definition VideoStream_setSlotId :: "VideoManager option \<Rightarrow> int \<Rightarrow> VideoStream \<Rightarrow> VideoStream" where
  "VideoStream_setSlotId videoManager i vs =
     (if vs_slotId vs = i then vs else VideoStream_tryAttach videoManager (vs\<lparr>vs_slotId := i\<rparr>))"

definition VideoStream_setCameraId :: "VideoManager option \<Rightarrow> string \<Rightarrow> VideoStream \<Rightarrow> VideoStream" where
  "VideoStream_setCameraId videoManager i vs =
     (if vs_cameraId vs = i then vs else VideoStream_tryAttach videoManager (vs\<lparr>vs_cameraId := i\<rparr>))"

definition VideoStream_onWorkerRegistered ::
  "VideoManager option \<Rightarrow> string \<Rightarrow> VideoStream \<Rightarrow> VideoStream" where
  "VideoStream_onWorkerRegistered videoManager i vs =
     (case videoManager of
        None \<Rightarrow> vs
      | Some vm \<Rightarrow>
          let isTarget = (if 0 \<le> vs_slotId vs then VideoManager_slotCameraId vm (vs_slotId vs) = i
                          else vs_cameraId vs = i)
          in if isTarget then VideoStream_tryAttach videoManager (vs\<lparr>vs_listening := False\<rparr>) else vs)"

text \<open>The signal \<open>workerRegistered\<close> reaches a stream that is connected to it.\<close>

definition VideoStream_signal :: "VideoManager option \<Rightarrow> string \<Rightarrow> VideoStream \<Rightarrow> VideoStream" where
  "VideoStream_signal videoManager i vs =
     (if vs_listening vs then VideoStream_onWorkerRegistered videoManager i vs else vs)"

text \<open>
  The timer of the stream reads the counter of the worker and, if it went on, the latest frame:
  two steps as well. The first gives the new state and whether the second follows, the second the
  frame handed to the sink.\<close>

definition VideoStream_readSeq :: "VideoManager \<Rightarrow> VideoStream \<Rightarrow> VideoStream \<times> bool" where
  "VideoStream_readSeq vm vs =
     (case VideoStream_deref vm vs of
        None \<Rightarrow> (vs, False)
      | Some w \<Rightarrow>
          if \<not> vs_sink vs then (vs, False)
          else if vs_lastSeq vs < vw_frameSeq w
          then (vs\<lparr>vs_lastSeq := vw_frameSeq w\<rparr>, True)
          else (vs, False))"

definition VideoStream_readFrame :: "VideoManager \<Rightarrow> VideoStream \<Rightarrow> (bytes \<times> bytes) option" where
  "VideoStream_readFrame vm vs =
     (case VideoStream_deref vm vs of None \<Rightarrow> None | Some w \<Rightarrow> vw_latestFrame w)"

section \<open>Calls in any order\<close>

datatype VideoManager_op =
    VMO_registerSlots "SlotInfo list"
  | VMO_registerCameraIds "string list"
  | VMO_restartWorker string
  | VMO_setFpsLimit int
  | VMO_clearAll

fun VideoManager_step :: "video_providers \<Rightarrow> VideoManager \<Rightarrow> VideoManager_op \<Rightarrow> VideoManager" where
  "VideoManager_step P vm (VMO_registerSlots slots) = VideoManager_registerSlots P slots vm"
| "VideoManager_step P vm (VMO_registerCameraIds cids) = VideoManager_registerCameraIds P cids vm"
| "VideoManager_step P vm (VMO_restartWorker cid) = VideoManager_restartWorker P cid vm"
| "VideoManager_step P vm (VMO_setFpsLimit fps) = VideoManager_setFpsLimit fps vm"
| "VideoManager_step P vm VMO_clearAll = VideoManager_clearAll vm"

text \<open>
  A worker is stored under its own camera, streams the URL it is connected to, and its object is
  one that was created.
\<close>

definition VideoWorker_ok :: "VideoWorker \<Rightarrow> bool" where
  "VideoWorker_ok w \<longleftrightarrow>
     vid_thread (vw_video w) =
       (if vw_connectionString w = '''' then None else Some (vw_connectionString w)) \<and>
     vid_fpsLimitMs (vw_video w) = (if 0 < vw_fpsLimit w then 1000 div vw_fpsLimit w else 33)"

definition VideoManager_inv :: "VideoManager \<Rightarrow> bool" where
  "VideoManager_inv vm \<longleftrightarrow>
     (\<forall>cid w. vm_workers vm cid = Some w \<longrightarrow>
        cid \<noteq> '''' \<and> vw_cameraId w = cid \<and> vw_object w < vm_objects vm \<and> VideoWorker_ok w)"

lemma VideoManager_invD:
  "VideoManager_inv vm \<Longrightarrow> vm_workers vm cid = Some w \<Longrightarrow>
     cid \<noteq> '''' \<and> vw_cameraId w = cid \<and> vw_object w < vm_objects vm \<and> VideoWorker_ok w"
  by (simp add: VideoManager_inv_def)

named_theorems video_defs \<open>the operations of a stream and its worker\<close>

lemmas video_operations [video_defs] =
  Video_new_def Video_setFpsLimit_def Video_stopStream_def Video_startStream_def
  VideoWorker_new_def VideoWorker_setConnectionString_def VideoWorker_setFpsLimit_def
  VideoWorker_startStream_def VideoWorker_stopStream_def VideoManager_configure_def

lemma VideoManager_inv_init [inv_intros]: "VideoManager_inv VideoManager_init"
  by (simp add: VideoManager_inv_def VideoManager_init_def)

text \<open>Configuring a stopped worker and starting it gives a worker that streams its URL.\<close>

lemma configure_start_ok:
  assumes "vid_thread (vw_video w) = None"
    and "vid_fpsLimitMs (vw_video w) = (if 0 < vw_fpsLimit w then 1000 div vw_fpsLimit w else 33)"
  shows "VideoWorker_ok (VideoWorker_startStream (VideoManager_configure P cid w))"
  using assms by (auto simp: VideoWorker_ok_def video_defs Let_def split: option.splits)

lemma configure_start_identity [simp]:
  "vw_object (VideoWorker_startStream (VideoManager_configure P cid w)) = vw_object w"
  "vw_cameraId (VideoWorker_startStream (VideoManager_configure P cid w)) = vw_cameraId w"
  by (auto simp: video_defs Let_def split: option.splits)

lemma VideoManager_create_inv [inv_intros]:
  assumes "VideoManager_inv vm" "cid \<noteq> ''''"
  shows "VideoManager_inv (VideoManager_create P cid vm)"
proof -
  have "VideoWorker_ok (VideoWorker_startStream
      (VideoManager_configure P cid (VideoWorker_new (vm_objects vm) cid)))"
    by (rule configure_start_ok) (simp_all add: VideoWorker_new_def Video_new_def)
  with assms show ?thesis
    by (auto simp: VideoManager_inv_def VideoManager_create_def Let_def VideoWorker_new_def less_Suc_eq)
qed

lemma VideoManager_register_inv [inv_intros]:
  "VideoManager_inv vm \<Longrightarrow> VideoManager_inv (VideoManager_register P cid vm)"
  by (simp add: VideoManager_register_def VideoManager_create_inv)

lemma VideoManager_registerSlots_inv [inv_intros]:
  assumes "VideoManager_inv vm"
  shows "VideoManager_inv (VideoManager_registerSlots P slots vm)"
proof -
  have "VideoManager_inv (foldl (\<lambda>vm si. VideoManager_register P (si_cameraId si) vm) vm' sis)"
    if "VideoManager_inv vm'" for vm' sis
    using that by (induction sis arbitrary: vm') (auto intro: inv_intros)
  moreover have "VideoManager_inv (vm\<lparr>vm_slots := ss\<rparr>)" for ss
    using assms by (simp add: VideoManager_inv_def)
  ultimately show ?thesis
    unfolding VideoManager_registerSlots_def Let_def by iprover
qed

lemma VideoManager_registerCameraIds_inv [inv_intros]:
  "VideoManager_inv vm \<Longrightarrow> VideoManager_inv (VideoManager_registerCameraIds P cids vm)"
  unfolding VideoManager_registerCameraIds_def
  by (induction cids arbitrary: vm) (auto intro: inv_intros)

lemma VideoManager_restartWorker_inv [inv_intros]:
  assumes "VideoManager_inv vm"
  shows "VideoManager_inv (VideoManager_restartWorker P cid vm)"
proof (cases "vm_workers vm cid")
  case None
  with assms show ?thesis
    by (simp add: VideoManager_restartWorker_def VideoManager_create_inv)
next
  case (Some w)
  note w = VideoManager_invD [OF assms Some]
  then have "VideoWorker_ok (VideoWorker_startStream
      (VideoManager_configure P cid (VideoWorker_stopStream w)))"
    by (intro configure_start_ok)
      (simp_all add: VideoWorker_ok_def VideoWorker_stopStream_def Video_stopStream_def)
  with w Some assms show ?thesis
    by (auto simp: VideoManager_inv_def VideoManager_restartWorker_def Let_def VideoWorker_stopStream_def)
qed

lemma VideoManager_setFpsLimit_inv [inv_intros]:
  "VideoManager_inv vm \<Longrightarrow> VideoManager_inv (VideoManager_setFpsLimit fps vm)"
  by (force simp: VideoManager_inv_def VideoManager_setFpsLimit_def VideoWorker_ok_def
      VideoWorker_setFpsLimit_def Video_setFpsLimit_def)

lemma VideoManager_clearAll_inv [inv_intros]: "VideoManager_inv (VideoManager_clearAll vm)"
  by (simp add: VideoManager_inv_def VideoManager_clearAll_def)

interpretation video_manager: op_system VideoManager_init "VideoManager_step P" VideoManager_inv for P
proof
  show "VideoManager_inv (VideoManager_step P vm x)" if "VideoManager_inv vm" for vm x
    using that by (cases x) (auto intro: inv_intros)
qed (rule inv_intros)

section \<open>Every card has its worker\<close>

text \<open>Registering keeps the workers there are, and the slots.\<close>

lemma VideoManager_register_workers:
  "vm_workers vm \<subseteq>\<^sub>m vm_workers (VideoManager_register P cid vm)"
  by (auto simp: map_le_def VideoManager_register_def VideoManager_create_def Let_def)

lemma VideoManager_register_slots [simp]:
  "vm_slots (VideoManager_register P cid vm) = vm_slots vm"
  by (simp add: VideoManager_register_def VideoManager_create_def Let_def)

lemma VideoManager_register_known:
  "cid \<noteq> '''' \<Longrightarrow> cid \<in> dom (vm_workers (VideoManager_register P cid vm))"
  by (simp add: VideoManager_register_def VideoManager_create_def Let_def dom_def)

lemma register_all:
  "vm_slots (foldl (\<lambda>vm si. VideoManager_register P (si_cameraId si) vm) vm sis) = vm_slots vm \<and>
   vm_workers vm \<subseteq>\<^sub>m vm_workers (foldl (\<lambda>vm si. VideoManager_register P (si_cameraId si) vm) vm sis)"
proof (induction sis arbitrary: vm)
  case (Cons si sis)
  show ?case
    using Cons.IH [of "VideoManager_register P (si_cameraId si) vm"]
      VideoManager_register_workers [of vm P "si_cameraId si"]
    by (auto intro: map_le_trans)
qed simp

lemma register_all_known:
  assumes "si \<in> set sis" "si_cameraId si \<noteq> ''''"
  shows "si_cameraId si \<in> dom (vm_workers
    (foldl (\<lambda>vm si. VideoManager_register P (si_cameraId si) vm) vm sis))"
proof -
  from assms(1) obtain us vs where sis: "sis = us @ si # vs" by (auto simp: in_set_conv_decomp)
  let ?vm = "foldl (\<lambda>vm si. VideoManager_register P (si_cameraId si) vm) vm us"
  show ?thesis
    using VideoManager_register_known [OF assms(2), of P ?vm]
      register_all [THEN conjunct2, of "VideoManager_register P (si_cameraId si) ?vm" P vs]
    by (auto simp: sis dest: map_le_implies_dom_le)
qed

lemma insert_slots_lookup:
  "distinct (map si_slotId sis) \<Longrightarrow> si \<in> set sis \<Longrightarrow>
     foldl (\<lambda>m si. m(si_slotId si \<mapsto> si_cameraId si)) M sis (si_slotId si) = Some (si_cameraId si)"
proof (induction sis arbitrary: M)
  case (Cons x sis)
  have keep: "foldl (\<lambda>m si. m(si_slotId si \<mapsto> si_cameraId si)) M' ys k = M' k"
    if "k \<notin> si_slotId ` set ys" for M' ys k
    using that by (induction ys arbitrary: M') auto
  from Cons show ?case by (auto simp: keep simp del: fun_upd_apply simp: fun_upd_same)
qed simp

lemma registerSlots_worker:
  fixes P
  assumes "VideoManager_inv vm" "distinct (map si_slotId sis)" "si \<in> set sis" "si_cameraId si \<noteq> ''''"
  defines "vm' \<equiv> VideoManager_registerSlots P sis vm"
  shows "\<exists>w. VideoManager_getWorkerBySlot vm' (si_slotId si) = Some w \<and>
    vw_cameraId w = si_cameraId si \<and> VideoWorker_ok w"
proof -
  have "vm_slots vm' (si_slotId si) = Some (si_cameraId si)"
    unfolding vm'_def VideoManager_registerSlots_def Let_def
    by (simp add: register_all insert_slots_lookup assms)
  moreover have "si_cameraId si \<in> dom (vm_workers vm')"
    unfolding vm'_def VideoManager_registerSlots_def Let_def
    by (rule register_all_known [OF assms(3,4)])
  moreover have "VideoManager_inv vm'"
    unfolding vm'_def by (rule VideoManager_registerSlots_inv [OF assms(1)])
  ultimately show ?thesis
    by (auto simp: VideoManager_getWorkerBySlot_def VideoManager_getWorker_def
        VideoManager_slotCameraId_def dest: VideoManager_invD)
qed

section \<open>Frames in order\<close>

text \<open>
  One worker and the stream attached to it, in two threads that take their steps in any order: the
  decoding thread stores and counts the frames that are to come, the timer reads the counter and
  the frame. \<open>vr_stored\<close>: a frame is stored and not yet counted. \<open>vr_reading\<close>: the timer has read
  the counter and not yet the frame. \<open>vr_shown\<close> collects what the sink is given.
\<close>

record video_run =
  vr_manager :: VideoManager
  vr_stream :: VideoStream
  vr_frames :: "FramePayload list"
  vr_stored :: bool
  vr_reading :: bool
  vr_shown :: "(bytes \<times> bytes) list"

definition video_run_init :: "VideoManager \<Rightarrow> VideoStream \<Rightarrow> FramePayload list \<Rightarrow> video_run" where
  "video_run_init vm vs payloads =
     \<lparr>vr_manager = vm, vr_stream = vs, vr_frames = payloads, vr_stored = False, vr_reading = False, vr_shown = []\<rparr>"

definition worker_update :: "string \<Rightarrow> (VideoWorker \<Rightarrow> VideoWorker) \<Rightarrow> VideoManager \<Rightarrow> VideoManager" where
  "worker_update cid f vm = vm\<lparr>vm_workers := (vm_workers vm)(cid := map_option f (vm_workers vm cid))\<rparr>"

datatype video_thread = VT_decoder | VT_timer

fun Video_step :: "(nat \<Rightarrow> nat \<Rightarrow> (bytes \<times> bytes) option) \<Rightarrow> string \<Rightarrow> video_run \<Rightarrow> video_thread \<Rightarrow> video_run" where
  "Video_step alloc cid r VT_decoder =
     (if vr_stored r
      then r\<lparr>vr_manager := worker_update cid VideoWorker_count (vr_manager r), vr_stored := False\<rparr>
      else
        (case vr_frames r of
           [] \<Rightarrow> r
         | payload # payloads \<Rightarrow>
             (case VideoWorker_onFrameReady alloc payload of
                None \<Rightarrow> r\<lparr>vr_frames := payloads\<rparr>
              | Some frame \<Rightarrow>
                  r\<lparr>vr_frames := payloads, vr_stored := True,
                    vr_manager := worker_update cid (VideoWorker_store frame) (vr_manager r)\<rparr>)))"
| "Video_step alloc cid r VT_timer =
     (if vr_reading r
      then r\<lparr>vr_reading := False,
             vr_shown := vr_shown r @
               (case VideoStream_readFrame (vr_manager r) (vr_stream r) of None \<Rightarrow> [] | Some f \<Rightarrow> [f])\<rparr>
      else (case VideoStream_readSeq (vr_manager r) (vr_stream r) of
              (vs, due) \<Rightarrow> r\<lparr>vr_stream := vs, vr_reading := due\<rparr>))"

abbreviation video_frames :: "(nat \<Rightarrow> nat \<Rightarrow> (bytes \<times> bytes) option) \<Rightarrow> FramePayload list \<Rightarrow> (bytes \<times> bytes) list" where
  "video_frames alloc \<equiv> List.map_filter (VideoWorker_onFrameReady alloc)"

text \<open>
  What holds when the first \<open>n\<close> of the frames \<open>fs\<close> are stored. The counter is the number of those
  that are counted, modulo $2^{64}$; the stream has read the counter \<open>k\<close>, and has shown the frames
  of \<open>idx\<close>. How often the frame that is stored last can have been shown depends on \<open>k\<close>.
\<close>

definition shows_left :: "nat \<Rightarrow> nat \<Rightarrow> nat" where
  "shows_left n k = (if k = n then 2 else if Suc k = n then 1 else 0)"

definition video_run_inv ::
  "(nat \<Rightarrow> nat \<Rightarrow> (bytes \<times> bytes) option) \<Rightarrow> string \<Rightarrow> nat \<Rightarrow> (bytes \<times> bytes) list \<Rightarrow> nat \<Rightarrow> nat \<Rightarrow>
     nat list \<Rightarrow> VideoWorker \<Rightarrow> video_run \<Rightarrow> bool"
where
  "video_run_inv alloc cid obj fs n k idx w r \<longleftrightarrow>
     vs_worker (vr_stream r) = Some (cid, obj) \<and> vm_workers (vr_manager r) cid = Some w \<and> vw_object w = obj \<and>
     n \<le> length fs \<and> drop n fs = video_frames alloc (vr_frames r) \<and>
     (0 < n \<longrightarrow> vw_latestFrame w = Some (fs ! (n - 1))) \<and> (vr_stored r \<longrightarrow> 0 < n) \<and>
     vw_frameSeq w = of_nat (n - (if vr_stored r then 1 else 0)) \<and>
     k \<le> n - (if vr_stored r then 1 else 0) \<and> vs_lastSeq (vr_stream r) = of_nat k \<and>
     (vr_reading r \<longrightarrow> 0 < k) \<and>
     vr_shown r = map ((!) fs) idx \<and> sorted idx \<and> (\<forall>i \<in> set idx. i < n) \<and> (\<forall>i. count_list idx i \<le> 3) \<and>
     (0 < n \<longrightarrow> count_list idx (n - 1) + (if vr_reading r then 1 else 0) \<le> 1 + shows_left n k)"

lemma worker_update_simps [simp]:
  "vm_workers (worker_update cid f vm) cid = map_option f (vm_workers vm cid)"
  by (simp add: worker_update_def)

lemma count_list_fresh: "\<forall>i \<in> set idx. i < n \<Longrightarrow> count_list idx n = (0 :: nat)" for idx :: "nat list"
  by (induction idx) auto

lemma Video_step_decoder:
  assumes "video_run_inv alloc cid obj fs n k idx w r"
  shows "\<exists>n' w'. video_run_inv alloc cid obj fs n' k idx w' (Video_step alloc cid r VT_decoder)"
proof (cases "vr_stored r")
  case True
  with assms have "video_run_inv alloc cid obj fs n k idx (VideoWorker_count w) (Video_step alloc cid r VT_decoder)"
    by (auto simp: video_run_inv_def VideoWorker_count_def of_nat_diff)
  then show ?thesis by blast
next
  case False
  show ?thesis
  proof (cases "vr_frames r")
    case Nil
    with False assms show ?thesis by (auto intro!: exI [of _ n] exI [of _ w])
  next
    case (Cons p ps)
    show ?thesis
    proof (cases "VideoWorker_onFrameReady alloc p")
      case None
      with False Cons assms have "video_run_inv alloc cid obj fs n k idx w (Video_step alloc cid r VT_decoder)"
        by (auto simp: video_run_inv_def map_filter_simps)
      then show ?thesis by blast
    next
      case (Some f)
      from assms Cons Some have rest: "drop n fs = f # video_frames alloc ps"
        by (simp add: video_run_inv_def map_filter_simps)
      then have n: "n < length fs" "fs ! n = f" "drop (Suc n) fs = video_frames alloc ps"
        by (cases "n < length fs"; simp add: Cons_nth_drop_Suc [symmetric])+
      have fresh: "count_list idx n = 0" and below: "\<forall>i \<in> set idx. i < Suc n"
        using assms by (auto simp: video_run_inv_def intro!: count_list_fresh)
      from False Cons Some assms n fresh below
      have "video_run_inv alloc cid obj fs (Suc n) k idx (VideoWorker_store f w) (Video_step alloc cid r VT_decoder)"
        by (simp add: video_run_inv_def VideoWorker_store_def)
      then show ?thesis by blast
    qed
  qed
qed

lemma Video_step_timer:
  assumes "video_run_inv alloc cid obj fs n k idx w r"
  shows "\<exists>k' idx'. video_run_inv alloc cid obj fs n k' idx' w (Video_step alloc cid r VT_timer)"
proof -
  have deref: "VideoStream_deref (vr_manager r) (vr_stream r) = Some w"
    using assms by (auto simp: video_run_inv_def VideoStream_deref_def)
  show ?thesis
  proof (cases "vr_reading r")
    case True
    with assms have n: "0 < n" "vw_latestFrame w = Some (fs ! (n - 1))" "count_list idx (n - 1) \<le> shows_left n k"
      and idx: "sorted idx" "\<forall>i \<in> set idx. i < n" "\<forall>i. count_list idx i \<le> 3"
      by (auto simp: video_run_inv_def)
    then have "sorted (idx @ [n - 1])" "\<forall>i \<in> set (idx @ [n - 1]). i < n"
      by (auto simp: sorted_append)
    moreover have "\<forall>i. count_list (idx @ [n - 1]) i \<le> 3"
      using n(3) idx(3) by (auto simp: shows_left_def split: if_splits)
    ultimately have "video_run_inv alloc cid obj fs n k (idx @ [n - 1]) w (Video_step alloc cid r VT_timer)"
      using True assms n by (simp add: video_run_inv_def VideoStream_readFrame_def deref)
    then show ?thesis by blast
  next
    case False
    let ?c = "n - (if vr_stored r then 1 else 0)"
    show ?thesis
    proof (cases "vs_sink (vr_stream r) \<and> vs_lastSeq (vr_stream r) < vw_frameSeq w")
      case True
      with assms have less: "k < ?c"
        by (cases "k = ?c") (auto simp: video_run_inv_def)
      then have n: "0 < n" by simp
      from assms n False have "count_list idx (n - 1) \<le> 1 + shows_left n k" by (simp add: video_run_inv_def)
      with less have "count_list idx (n - 1) + 1 \<le> 1 + shows_left n ?c"
        by (auto simp: shows_left_def split: if_splits)
      with True False less assms
      have "video_run_inv alloc cid obj fs n ?c idx w (Video_step alloc cid r VT_timer)"
        by (simp add: video_run_inv_def VideoStream_readSeq_def deref)
      then show ?thesis by blast
    next
      case no: False
      with False assms have "Video_step alloc cid r VT_timer = r"
        by (auto simp: VideoStream_readSeq_def deref)
      with assms show ?thesis by auto
    qed
  qed
qed

lemma Video_steps:
  assumes "video_run_inv alloc cid obj fs n k idx w r"
  shows "\<exists>n k idx w. video_run_inv alloc cid obj fs n k idx w (foldl (Video_step alloc cid) r schedule)"
  using assms
proof (induction schedule arbitrary: n k idx w r)
  case (Cons t schedule)
  have "\<exists>n k idx w. video_run_inv alloc cid obj fs n k idx w (Video_step alloc cid r t)"
    using Video_step_decoder [OF Cons.prems] Video_step_timer [OF Cons.prems] by (cases t) blast+
  with Cons.IH show ?case by auto
qed auto

section \<open>Copied planes\<close>

lemma length_memcpy_at [simp]:
  "off + length chunk \<le> length dst \<Longrightarrow> length (memcpy_at off chunk dst) = length dst"
  by (simp add: memcpy_at_def)

lemma nth_memcpy_at:
  "off + length chunk \<le> length dst \<Longrightarrow> i < length dst \<Longrightarrow>
     memcpy_at off chunk dst ! i =
       (if off \<le> i \<and> i < off + length chunk then chunk ! (i - off) else dst ! i)"
  by (auto simp: memcpy_at_def nth_append min_def)

text \<open>A row starts inside the plane and is all there.\<close>

lemma row_inside: "y < rows \<Longrightarrow> w \<le> stride \<Longrightarrow> stride * (rows - 1) + w \<le> n \<Longrightarrow> y * stride + w \<le> (n::nat)"
  by (metis Suc_diff_1 add_le_mono1 gr_implies_not0 le_trans less_Suc_eq_le mult.commute
      mult_le_mono1 neq0_conv)

lemma copy_rows:
  fixes w stride n :: nat
  assumes "w \<le> stride" "length dst = w * rows" "stride * (rows - 1) + w \<le> length src" "n \<le> rows"
  defines "r \<equiv> foldl (\<lambda>dst i. memcpy_at (i * w) (take w (drop (i * stride) src)) dst) dst [0..<n]"
  shows "length r = w * rows \<and> (\<forall>y < n. \<forall>x < w. r ! (y * w + x) = src ! (y * stride + x))"
  using assms(4) unfolding r_def
proof (induction n)
  case (Suc n)
  let ?d = "foldl (\<lambda>dst i. memcpy_at (i * w) (take w (drop (i * stride) src)) dst) dst [0..<n]"
  let ?c = "take w (drop (n * stride) src)"
  from Suc have n: "n < rows" by simp
  from row_inside [OF n assms(1,3)] have c: "length ?c = w" by simp
  have "(n + 1) * w \<le> rows * w" using n by (intro mult_le_mono1) simp
  then have room: "n * w + w \<le> length ?d" using Suc by (simp add: mult.commute)
  have "memcpy_at (n * w) ?c ?d ! (y * w + x) = src ! (y * stride + x)" if "y < Suc n" "x < w" for y x
  proof -
    have "y * w \<le> n * w" using that by (intro mult_le_mono1) simp
    then have inside: "y * w + x < length ?d" using room that by linarith
    show ?thesis
    proof (cases "y = n")
      case True
      with that c room inside row_inside [OF n assms(1,3)] show ?thesis
        by (subst nth_memcpy_at) simp_all
    next
      case False
      with that have y: "y < n" by simp
      then have "(y + 1) * w \<le> n * w" by (intro mult_le_mono1) simp
      with that(2) have "y * w + x < n * w" by simp
      with c room inside y that Suc show ?thesis
        by (subst nth_memcpy_at) simp_all
    qed
  qed
  with c room Suc show ?case by simp
qed (simp add: assms)

lemma copyPlane_correct:
  assumes "w \<le> stride" "length dst = w * rows" "stride * (rows - 1) + w \<le> length src"
  defines "r \<equiv> VideoWorker_copyPlane w (w * rows) rows stride src dst"
  shows "length r = w * rows \<and> (\<forall>y < rows. \<forall>x < w. r ! (y * w + x) = src ! (y * stride + x))"
proof (cases "stride = w")
  case False
  then show ?thesis
    using copy_rows [OF assms(1-3), of rows] by (simp add: r_def VideoWorker_copyPlane_def)
next
  case True
  show ?thesis
  proof (cases "rows = 0")
    case True
    with assms(2) show ?thesis by (simp add: r_def VideoWorker_copyPlane_def memcpy_at_def)
  next
    case False
    then have size: "w * rows \<le> length src"
      using assms(3) True by (cases rows) auto
    have "y * w + x < w * rows" if "y < rows" "x < w" for y x
    proof -
      have "(y + 1) * w \<le> rows * w" using that by (intro mult_le_mono1) simp
      with that show ?thesis by (simp add: mult.commute)
    qed
    with size True assms(2) show ?thesis
      by (simp add: r_def VideoWorker_copyPlane_def memcpy_at_def mult.commute)
  qed
qed

section \<open>The times of the frames that are shown\<close>

fun spaced :: "int \<Rightarrow> int list \<Rightarrow> bool" where
  "spaced d (s # t # ts) \<longleftrightarrow> d \<le> t - s \<and> spaced d (t # ts)"
| "spaced d _ \<longleftrightarrow> True"

lemma Video_shown_spaced:
  "spaced (vid_fpsLimitMs v * 1000000) (vid_lastFrameTime v # Video_shown ts v)"
proof (induction ts arbitrary: v)
  case (Cons now ts)
  show ?case
  proof (cases "(now - vid_lastFrameTime v) div 1000000 < vid_fpsLimitMs v")
    case True
    with Cons show ?thesis by (simp add: Video_throttle_def)
  next
    case False
    then have "vid_fpsLimitMs v * 1000000 \<le> now - vid_lastFrameTime v" by simp
    with False Cons [of "v\<lparr>vid_lastFrameTime := now\<rparr>"] show ?thesis
      by (simp add: Video_throttle_def)
  qed
qed simp

section \<open>Properties\<close>

text \<open>
  The slots of the camera model and the workers of the streams fit together. Whatever
  calls the camera model and the video manager have seen, once the manager has registered the
  slots the model announces, every card of a camera finds a worker by its slot: the worker of its
  own camera, which streams the URL it was configured with, or does not run where that URL is
  empty. The slots are announced by the model and the workers keyed by camera, so this needs the
  slots of the model to be distinct and the manager to store every worker under its own camera.\<close>

theorem VideoManager_cards_have_workers:
  fixes ops :: "CameraModel_op list" and vops :: "VideoManager_op list"
  assumes "cam \<in> set (cm_cameras (foldl (CameraModel_step tbl) CameraModel_init ops))"
    and "ce_cameraId cam \<noteq> ''''"
  shows "\<exists>w. VideoManager_getWorkerBySlot
      (VideoManager_registerSlots P
        (map CameraModel_slotInfo (cm_cameras (foldl (CameraModel_step tbl) CameraModel_init ops)))
        (foldl (VideoManager_step P) VideoManager_init vops)) (ce_slotId cam) = Some w \<and>
    vw_cameraId w = ce_cameraId cam \<and>
    vid_thread (vw_video w) =
      (if vw_connectionString w = '''' then None else Some (vw_connectionString w))"
proof -
  let ?m = "foldl (CameraModel_step tbl) CameraModel_init ops"
  have "distinct (map si_slotId (map CameraModel_slotInfo (cm_cameras ?m)))"
    using camera_model.run_inv [of tbl ops]
    by (simp add: CameraModel_inv_def comp_def CameraModel_slotInfo_def)
  from registerSlots_worker [OF video_manager.run_inv [of P vops] this, of "CameraModel_slotInfo cam" P]
  show ?thesis
    using assms by (auto simp: CameraModel_slotInfo_def VideoWorker_ok_def)
qed

text \<open>
  What a stream shows are frames of its camera, in their order, whatever the schedule of the
  decoding thread and the timer, and although the counter wraps around. One frame may be shown up
  to three times.\<close>

theorem VideoStream_shows_in_order:
  assumes "vm_workers vm cid = Some w" "vw_frameSeq w = 0"
    and "vs_worker vs = Some (cid, vw_object w)" "vs_lastSeq vs = 0"
  shows "\<exists>idx. vr_shown (foldl (Video_step alloc cid) (video_run_init vm vs payloads) schedule) =
      map ((!) (video_frames alloc payloads)) idx \<and>
    sorted idx \<and> (\<forall>i \<in> set idx. i < length (video_frames alloc payloads)) \<and> (\<forall>i. count_list idx i \<le> 3)"
proof -
  have "video_run_inv alloc cid (vw_object w) (video_frames alloc payloads) 0 0 [] w (video_run_init vm vs payloads)"
    using assms by (simp add: video_run_inv_def video_run_init_def)
  from Video_steps [OF this, of schedule] show ?thesis
    unfolding video_run_inv_def by fastforce
qed

text \<open>
  A frame can be shown twice, with nothing new in between: the timer runs after the frame is stored
  and before it is counted.\<close>

lemma Video_frame_shown_twice:
  "vr_shown (foldl (Video_step (\<lambda>w h. Some (replicate (w * h) 0, replicate (w * h div 2) 0)) cid)
     (video_run_init
       (VideoManager_init\<lparr>vm_workers := [cid \<mapsto> VideoWorker_new 0 cid]\<rparr>)
       (VideoStream_new\<lparr>vs_worker := Some (cid, 0), vs_sink := True\<rparr>)
       (map (\<lambda>b. \<lparr>fp_dataY = Some [b, b], fp_dataUV = Some [b], fp_width = 1, fp_height = 2,
                   fp_strideY = 1, fp_strideUV = 1\<rparr>) [1, 2]))
     [VT_decoder, VT_decoder, VT_decoder, VT_timer, VT_timer, VT_decoder, VT_timer, VT_timer]) =
   [([2, 2], [2]), ([2, 2], [2])]"
  by (simp add: video_run_init_def VideoWorker_onFrameReady_def VideoWorker_copyPlane_def memcpy_at_def
      VideoStream_readSeq_def VideoStream_deref_def VideoStream_readFrame_def worker_update_def
      VideoWorker_store_def VideoWorker_count_def VideoWorker_new_def VideoStream_new_def)

text \<open>
  Claim C22. The callback copies the picture, on both branches, in one piece or row by row, for any
  padding of the rows of the decoder, if the height is even and the planes of the new frame have
  exactly as many bytes as the picture has, so no padding of their own: in the frame it returns,
  byte \<open>x\<close> of row \<open>y\<close> of either plane is byte \<open>x\<close> of row \<open>y\<close> of the decoded plane, and the planes
  keep their size. The code does not ask a frame for the length of its rows; with other planes the
  picture is skewed.\<close>

theorem VideoWorker_copies_planes:
  assumes payload: "fp_dataY p = Some Y" "fp_dataUV p = Some UV"
      "fp_width p = int w" "fp_height p = int (2 * h)" "0 < w" "0 < h"
    and strides: "w \<le> fp_strideY p" "w \<le> fp_strideUV p"
    and decoded: "fp_strideY p * (2 * h - 1) + w \<le> length Y" "fp_strideUV p * (h - 1) + w \<le> length UV"
    and frame: "alloc w (2 * h) = Some (bitsY, bitsUV)" "length bitsY = w * (2 * h)" "length bitsUV = w * h"
  shows "\<exists>Y' UV'. VideoWorker_onFrameReady alloc p = Some (Y', UV') \<and>
    length Y' = w * (2 * h) \<and> length UV' = w * h \<and>
    (\<forall>y < 2 * h. \<forall>x < w. Y' ! (y * w + x) = Y ! (y * fp_strideY p + x)) \<and>
    (\<forall>y < h. \<forall>x < w. UV' ! (y * w + x) = UV ! (y * fp_strideUV p + x))"
proof -
  have half: "w * (2 * h) div 2 = w * h" by simp
  have "VideoWorker_onFrameReady alloc p =
      Some (VideoWorker_copyPlane w (w * (2 * h)) (2 * h) (fp_strideY p) Y bitsY,
            VideoWorker_copyPlane w (w * h) h (fp_strideUV p) UV bitsUV)"
    unfolding VideoWorker_onFrameReady_def payload Let_def using payload(5,6)
    by (simp add: frame(1) half nat_mult_distrib del: mult_2)
  with copyPlane_correct [OF strides(1) frame(2) decoded(1)] copyPlane_correct [OF strides(2) frame(3) decoded(2)]
  show ?thesis by simp
qed

text \<open>
  The throttle: a stream that is started with a limit of \<open>fps\<close> frames per second shows
  no two frames at a distance of less than the whole milliseconds of $1000 / fps$, and none that
  early after the last frame of the stream before, whatever the times at which frames are
  decoded.\<close>

theorem Video_frames_spaced:
  assumes "url \<noteq> ''''" "0 < fps"
  shows "spaced ((1000 div fps) * 1000000)
    (vid_lastFrameTime v # Video_shown ts (Video_startStream url fps v))"
proof -
  let ?v = "Video_startStream url fps v"
  have "vid_fpsLimitMs ?v = 1000 div fps" "vid_lastFrameTime ?v = vid_lastFrameTime v"
    using assms by (simp_all add: Video_startStream_def Video_stopStream_def Let_def)
  with Video_shown_spaced [of ?v ts] show ?thesis by simp
qed

text \<open>
  Where the code attaches a stream, the stream is attached to the worker of its slot, and else of
  its camera.\<close>

lemma VideoStream_attach_target:
  assumes "VideoManager_inv vm"
  shows "VideoStream_pointer (VideoStream_deref vm (VideoStream_tryAttach (Some vm) vs)) =
    VideoStream_pointer (VideoStream_target vm vs)"
proof -
  have known: "vm_workers vm (vw_cameraId w) = Some w" if "VideoStream_target vm vs = Some w" for w
    using that assms
    by (auto simp: VideoStream_target_def VideoManager_getWorkerBySlot_def VideoManager_getWorker_def
        dest: VideoManager_invD split: if_splits option.splits)
  have deref: "VideoStream_deref vm (vs'\<lparr>vs_worker := VideoStream_pointer (VideoStream_target vm vs)\<rparr>) =
      VideoStream_target vm vs" for vs' :: VideoStream
    by (cases "VideoStream_target vm vs")
      (simp_all add: VideoStream_deref_def VideoStream_pointer_def known)
  have ignored: "VideoStream_deref vm (vs'\<lparr>vs_lastSeq := n\<rparr>) = VideoStream_deref vm vs'"
    "VideoStream_deref vm (vs'\<lparr>vs_listening := b\<rparr>) = VideoStream_deref vm vs'" for vs' :: VideoStream and n b
    by (simp_all add: VideoStream_deref_def)
  have none: "VideoStream_deref vm (vs'\<lparr>vs_worker := None\<rparr>) = None" "VideoStream_pointer None = None"
    for vs' :: VideoStream
    by (simp_all add: VideoStream_deref_def VideoStream_pointer_def)
  show ?thesis
    using deref [of vs] none by (auto simp: VideoStream_tryAttach_def Let_def deref ignored)
qed

text \<open>
  A stream that is made for a slot before the worker of the slot is registered never
  gets to listen for it: no worker is what it already had, and only a change connects it. It
  stays unattached at every later registration, that of its own worker included.\<close>

theorem VideoStream_fresh_misses_worker:
  assumes "VideoManager_getWorkerBySlot vm i = None"
  shows "vs_worker (foldl (\<lambda>vs (vm', cid). VideoStream_signal (Some vm') cid vs)
    (VideoStream_setSlotId (Some vm) i VideoStream_new) signals) = None"
proof -
  have fresh: "VideoStream_setSlotId (Some vm) i VideoStream_new = VideoStream_new\<lparr>vs_slotId := i\<rparr>"
    using assms
    by (auto simp: VideoStream_setSlotId_def VideoStream_tryAttach_def VideoStream_target_def
        VideoStream_new_def VideoStream_pointer_def VideoStream_deref_def Let_def)
  have deaf: "foldl (\<lambda>vs (vm', cid). VideoStream_signal (Some vm') cid vs) vs signals = vs"
    if "\<not> vs_listening vs" for vs
    using that by (induction signals) (auto simp: VideoStream_signal_def)
  show ?thesis
    by (subst fresh, subst deaf) (simp_all add: VideoStream_new_def)
qed

section \<open>Instances\<close>

definition example_providers :: video_providers where
  "example_providers = \<lparr>vp_url = Some (\<lambda>cid. ''rtsp://'' @ cid), vp_fps = Some 15\<rparr>"

definition example_slots :: "SlotInfo list" where
  "example_slots = [\<lparr>si_slotId = 0, si_cameraId = ''c1''\<rparr>, \<lparr>si_slotId = 1, si_cameraId = ''c2''\<rparr>]"

definition example_camera :: CameraData where
  "example_camera = \<lparr>cd_title = ''cam'', cd_cameraType = ''HANWHA'', cd_isOnline = True,
     cd_cameraId = ''c1'', cd_deviceInfo = DeviceInfo_default\<rparr>"

theorem VideoManager_cards_have_workers_witness:
  "\<exists>w. VideoManager_getWorkerBySlot
      (VideoManager_registerSlots example_providers [\<lparr>si_slotId = 0, si_cameraId = ''c1''\<rparr>]
        VideoManager_init) 0 = Some w \<and> vw_cameraId w = ''c1''"
proof -
  let ?ops = "[CMO_onStoreUpdated id [example_camera]]"
  have cams: "cm_cameras (foldl (CameraModel_step []) CameraModel_init ?ops) =
      [CameraModel_newEntry 0 ''c1'' example_camera]"
    by code_simp
  show ?thesis
    using VideoManager_cards_have_workers [of "CameraModel_newEntry 0 ''c1'' example_camera" "[]" ?ops
        example_providers "[]"]
    unfolding cams by (auto simp: CameraModel_newEntry_def CameraEntry_default_def CameraModel_slotInfo_def)
qed

definition example_frame :: FramePayload where
  "example_frame = \<lparr>fp_dataY = Some [1, 2, 0, 3, 4, 0], fp_dataUV = Some [5, 6, 0],
     fp_width = 2, fp_height = 2, fp_strideY = 3, fp_strideUV = 3\<rparr>"

definition example_alloc :: "nat \<Rightarrow> nat \<Rightarrow> (bytes \<times> bytes) option" where
  "example_alloc w h = Some (replicate (w * h) 0, replicate (w * h div 2) 0)"

theorem VideoStream_shows_in_order_witness:
  "\<exists>idx. vr_shown (foldl (Video_step example_alloc ''c2'')
     (video_run_init (VideoManager_registerSlots example_providers example_slots VideoManager_init)
       (VideoStream_new\<lparr>vs_worker := Some (''c2'', 1), vs_sink := True\<rparr>) [example_frame])
     [VT_timer, VT_decoder, VT_decoder, VT_timer, VT_timer, VT_timer]) =
   map ((!) (video_frames example_alloc [example_frame])) idx \<and> sorted idx"
proof -
  let ?vm = "VideoManager_registerSlots example_providers example_slots VideoManager_init"
  let ?vs = "VideoStream_new\<lparr>vs_worker := Some (''c2'', 1), vs_sink := True\<rparr>"
  have "map_option (\<lambda>w. (vw_frameSeq w, vw_object w)) (vm_workers ?vm ''c2'') = Some (0, 1)"
    by code_simp
  then obtain w where "vm_workers ?vm ''c2'' = Some w" "vw_frameSeq w = 0" "vw_object w = 1"
    by auto
  moreover from this have "vs_worker ?vs = Some (''c2'', vw_object w)" "vs_lastSeq ?vs = 0"
    by (simp_all add: VideoStream_new_def)
  ultimately show ?thesis
    using VideoStream_shows_in_order by blast
qed

theorem VideoWorker_copies_planes_witness:
  "\<exists>Y' UV'. VideoWorker_onFrameReady example_alloc example_frame = Some (Y', UV') \<and>
     Y' ! 3 = 4 \<and> UV' ! 1 = 6"
proof -
  have copied: "\<exists>Y' UV'. VideoWorker_onFrameReady example_alloc example_frame = Some (Y', UV') \<and>
      length Y' = 2 * (2 * 1) \<and> length UV' = 2 * 1 \<and>
      (\<forall>y < 2 * 1. \<forall>x < 2. Y' ! (y * 2 + x) = [1, 2, 0, 3, 4, 0] ! (y * fp_strideY example_frame + x)) \<and>
      (\<forall>y < 1. \<forall>x < 2. UV' ! (y * 2 + x) = [5, 6, 0] ! (y * fp_strideUV example_frame + x))"
    by (rule VideoWorker_copies_planes [where w = 2 and h = 1 and bitsY = "replicate 4 0" and
          bitsUV = "replicate 2 0"])
      (simp_all add: example_frame_def example_alloc_def)
  have strides: "fp_strideY example_frame = 3" "fp_strideUV example_frame = 3"
    by (simp_all add: example_frame_def)
  from copied obtain Y' UV' where out: "VideoWorker_onFrameReady example_alloc example_frame = Some (Y', UV')"
    and Y: "\<forall>y < 2 * 1. \<forall>x < 2. Y' ! (y * 2 + x) = [1, 2, 0, 3, 4, 0] ! (y * 3 + x)"
    and UV: "\<forall>y < 1. \<forall>x < 2. UV' ! (y * 2 + x) = [5, 6, 0] ! (y * 3 + x)"
    unfolding strides by blast
  show ?thesis
    using out Y [rule_format, of 1 1] UV [rule_format, of 0 1] by simp
qed

theorem Video_frames_spaced_witness:
  "spaced 66000000 (0 # Video_shown [70000000, 80000000, 140000000]
     (Video_startStream ''rtsp://c1'' 15 Video_new))"
  using Video_frames_spaced [of "''rtsp://c1''" 15 Video_new "[70000000, 80000000, 140000000]"]
  by (simp add: Video_new_def)

theorem VideoStream_fresh_misses_worker_witness:
  "let vm = VideoManager_registerSlots example_providers example_slots VideoManager_init
   in VideoManager_getWorkerBySlot vm 0 \<noteq> None \<and>
     vs_worker (VideoStream_signal (Some vm) ''c1''
       (VideoStream_setSlotId (Some VideoManager_init) 0 VideoStream_new)) = None"
proof -
  let ?vm = "VideoManager_registerSlots example_providers example_slots VideoManager_init"
  have "map_option vw_cameraId (VideoManager_getWorkerBySlot ?vm 0) = Some ''c1''"
    by code_simp
  then have "VideoManager_getWorkerBySlot ?vm 0 \<noteq> None" by auto
  moreover have "VideoManager_getWorkerBySlot VideoManager_init 0 = None"
    by (simp add: VideoManager_getWorkerBySlot_def VideoManager_getWorker_def VideoManager_init_def)
  ultimately show ?thesis
    using VideoStream_fresh_misses_worker [of VideoManager_init 0 "[(?vm, ''c1'')]"]
    by simp
qed

end
