(* ===== verification/NetworkBridge.thy ===== *)
theory NetworkBridge
  imports Core TlsChannel "HOL-Library.List_Lexorder" "HOL-Library.Char_ord"
begin

text \<open>
  Qt/Back/Services/NetworkBridge.hpp and NetworkBridge.cpp, and the interface of
  Src/Network/INetworkService.hpp it calls: the texts of the requests, the debounced state of the
  devices, and the callbacks of the network turned into signals of the event loop. The calls of
  the service are recorded in order.
\<close>

section \<open>Texts of requests\<close>

abbreviation dquote :: char where "dquote \<equiv> CHR 0x22"
abbreviation backslash :: char where "backslash \<equiv> CHR 0x5C"

fun buildJson_loop :: "(string \<times> string) list \<Rightarrow> bool \<Rightarrow> string \<Rightarrow> string" where
  "buildJson_loop [] first s = s"
| "buildJson_loop ((k, v) # pairs) first s =
     (if v = '''' then buildJson_loop pairs first s
      else
        let s1 = (if first then s else s @ '','');
            s2 = s1 @ [dquote] @ k @ [dquote, CHR '':'', dquote] @ v @ [dquote]
        in buildJson_loop pairs False s2)"

definition buildJson :: "(string \<times> string) list \<Rightarrow> string" where
  "buildJson pairs = buildJson_loop pairs True ''{'' @ ''}''"

section \<open>State and calls of the service\<close>

datatype service_call =
    SV_connect string string string  \<comment> \<open>host, port, and the purpose the callbacks capture\<close>
  | SV_disconnect
  | SV_send byte string

record DeviceState =
  ds_motor :: string
  ds_ir :: string
  ds_heater :: string

definition DeviceState_default :: DeviceState where
  "DeviceState_default = \<lparr>ds_motor = '''', ds_ir = '''', ds_heater = ''''\<rparr>"

text \<open>A \<open>QMap\<close>: an association list in the order of its keys.\<close>

fun qmap_put :: "'k::linorder \<Rightarrow> 'v \<Rightarrow> ('k \<times> 'v) list \<Rightarrow> ('k \<times> 'v) list" where
  "qmap_put k v [] = [(k, v)]"
| "qmap_put k v ((k', v') # m) =
     (if k = k' then (k, v) # m
      else if k < k' then (k, v) # (k', v') # m
      else (k', v') # qmap_put k v m)"

record NetworkBridge =
  nb_pendingStates :: "(string \<times> DeviceState) list"
  nb_timer :: bool  \<comment> \<open>the debounce timer runs\<close>
  nb_calls :: "service_call list"

definition NetworkBridge_init :: NetworkBridge where
  "NetworkBridge_init = \<lparr>nb_pendingStates = [], nb_timer = False, nb_calls = []\<rparr>"

definition NetworkBridge_call :: "service_call \<Rightarrow> NetworkBridge \<Rightarrow> NetworkBridge" where
  "NetworkBridge_call x b = b\<lparr>nb_calls := nb_calls b @ [x]\<rparr>"

section \<open>Requests\<close>

definition NetworkBridge_connectToServer :: "string \<Rightarrow> string \<Rightarrow> string \<Rightarrow> NetworkBridge \<Rightarrow> NetworkBridge" where
  "NetworkBridge_connectToServer host port purpose = NetworkBridge_call (SV_connect host port purpose)"

definition NetworkBridge_disconnect :: "NetworkBridge \<Rightarrow> NetworkBridge" where
  "NetworkBridge_disconnect = NetworkBridge_call SV_disconnect"

definition NetworkBridge_sendLogin :: "string \<Rightarrow> string \<Rightarrow> NetworkBridge \<Rightarrow> NetworkBridge" where
  "NetworkBridge_sendLogin i pw =
     NetworkBridge_call (SV_send 0x01 (buildJson [(''id'', i), (''pw'', pw)]))"

definition NetworkBridge_sendSignup :: "string \<Rightarrow> string \<Rightarrow> string \<Rightarrow> NetworkBridge \<Rightarrow> NetworkBridge" where
  "NetworkBridge_sendSignup i email pw =
     NetworkBridge_call (SV_send 0x08 (buildJson
       [(''action'', ''register''), (''id'', i), (''email'', email), (''pw'', pw)]))"

definition NetworkBridge_sendListPending :: "NetworkBridge \<Rightarrow> NetworkBridge" where
  "NetworkBridge_sendListPending =
     NetworkBridge_call (SV_send 0x08
       (''{'' @ [dquote] @ ''action'' @ [dquote, CHR '':'', dquote] @ ''list_pending'' @ [dquote] @ ''}''))"

definition NetworkBridge_sendApprove :: "string \<Rightarrow> NetworkBridge \<Rightarrow> NetworkBridge" where
  "NetworkBridge_sendApprove targetId =
     NetworkBridge_call (SV_send 0x08 (buildJson [(''action'', ''approve''), (''target_id'', targetId)]))"

definition NetworkBridge_isAction :: "string \<Rightarrow> string \<Rightarrow> string \<Rightarrow> bool" where
  "NetworkBridge_isAction motor ir heater \<longleftrightarrow>
     (motor \<noteq> '''' \<and> motor \<noteq> ''auto'' \<and> motor \<noteq> ''unauto'') \<or>
     (ir = ''on'' \<or> ir = ''off'') \<or> (heater = ''on'' \<or> heater = ''off'')"

definition NetworkBridge_deviceBody :: "string \<Rightarrow> string \<Rightarrow> string \<Rightarrow> string \<Rightarrow> string" where
  "NetworkBridge_deviceBody ip motor ir heater =
     buildJson [(''device'', ip), (''motor'', motor), (''ir'', ir), (''heater'', heater)]"

text \<open>The pending state of the device: what the call changes, and whether it changes anything.\<close>

definition NetworkBridge_pend :: "string \<Rightarrow> string \<Rightarrow> string \<Rightarrow> DeviceState \<Rightarrow> DeviceState \<times> bool" where
  "NetworkBridge_pend motor ir heater st =
     (let (st1, u1) = (if motor = '''' then (st, False)
                       else if motor \<noteq> ''auto'' \<and> motor \<noteq> ''unauto'' then (st, False)
                       else (st\<lparr>ds_motor := motor\<rparr>, True));
          (st2, u2) = (if ir = '''' then (st1, u1) else (st1\<lparr>ds_ir := ir\<rparr>, True))
      in if heater = '''' then (st2, u2) else (st2\<lparr>ds_heater := heater\<rparr>, True))"

definition NetworkBridge_sendDevice ::
  "string \<Rightarrow> string \<Rightarrow> string \<Rightarrow> string \<Rightarrow> NetworkBridge \<Rightarrow> NetworkBridge" where
  "NetworkBridge_sendDevice deviceIp motor ir heater b =
     (if deviceIp = '''' then b
      else
        let b1 = (if NetworkBridge_isAction motor ir heater
                  then NetworkBridge_call (SV_send 0x04 (NetworkBridge_deviceBody deviceIp motor ir heater)) b
                  else b);
            st = (case map_of (nb_pendingStates b1) deviceIp of None \<Rightarrow> DeviceState_default | Some st \<Rightarrow> st);
            (st', updated) = NetworkBridge_pend motor ir heater st;
            b2 = b1\<lparr>nb_pendingStates := qmap_put deviceIp st' (nb_pendingStates b1)\<rparr>
        in if updated then b2\<lparr>nb_timer := True\<rparr> else b2)"

fun NetworkBridge_pendingMessages :: "(string \<times> DeviceState) list \<Rightarrow> service_call list" where
  "NetworkBridge_pendingMessages [] = []"
| "NetworkBridge_pendingMessages ((ip, st) # pending) =
     (if ds_motor st = '''' \<and> ds_ir st = '''' \<and> ds_heater st = '''' then NetworkBridge_pendingMessages pending
      else SV_send 0x04 (NetworkBridge_deviceBody ip (ds_motor st) (ds_ir st) (ds_heater st)) #
        NetworkBridge_pendingMessages pending)"

definition NetworkBridge_processPendingStates :: "NetworkBridge \<Rightarrow> NetworkBridge" where
  "NetworkBridge_processPendingStates b =
     b\<lparr>nb_calls := nb_calls b @ NetworkBridge_pendingMessages (nb_pendingStates b), nb_pendingStates := []\<rparr>"

text \<open>The single shot timer stops when it fires.\<close>

definition NetworkBridge_timeout :: "NetworkBridge \<Rightarrow> NetworkBridge" where
  "NetworkBridge_timeout b = NetworkBridge_processPendingStates (b\<lparr>nb_timer := False\<rparr>)"

section \<open>Callbacks to signals\<close>

datatype BridgeSignal =
    BS_connectedForLogin
  | BS_connectedForSignup
  | BS_loginSuccess string string
  | BS_loginFailed string
  | BS_signupFailed string
  | BS_cameraListReceived string
  | BS_deviceStatusReceived string
  | BS_aiResultReceived string
  | BS_metaResultReceived string
  | BS_imageMetaReceived string
  | BS_imageDataReceived bytes string
  | BS_pendingListReceived string

text \<open>\<open>QJsonObject::contains\<close>, beside the calls of Qt that the user model makes.\<close>

record 'q qt_object_ops = "'q qt_ops" +
  q_contains :: "'q \<Rightarrow> string \<Rightarrow> bool"

definition NetworkBridge_onConnected :: "string \<Rightarrow> BridgeSignal list" where
  "NetworkBridge_onConnected purpose =
     (if purpose = ''login'' then [BS_connectedForLogin]
      else if purpose = ''signup'' then [BS_connectedForSignup] else [])"

definition NetworkBridge_onLoginResult :: "('q, 'm) qt_object_ops_scheme \<Rightarrow> string \<Rightarrow> BridgeSignal list" where
  "NetworkBridge_onLoginResult Q s =
     (case q_document Q s of
        None \<Rightarrow> []
      | Some obj \<Rightarrow>
          if q_toBool Q (q_value Q obj ''success'')
          then [BS_loginSuccess (q_toString Q (q_value Q obj ''state'')) (q_toString Q (q_value Q obj ''username''))]
          else [BS_loginFailed (q_toString Q (q_value Q obj ''message''))])"

text \<open>An empty object, where the text is none, has no members: its strings are empty.\<close>

definition NetworkBridge_onLoginFail ::
  "('q, 'm) qt_object_ops_scheme \<Rightarrow> string \<Rightarrow> string \<Rightarrow> BridgeSignal list" where
  "NetworkBridge_onLoginFail Q purpose s =
     (let str = (\<lambda>k. case q_document Q s of None \<Rightarrow> '''' | Some obj \<Rightarrow> q_toString Q (q_value Q obj k));
          has = (\<lambda>k. case q_document Q s of None \<Rightarrow> False | Some obj \<Rightarrow> q_contains Q obj k);
          msg0 = (if has ''error'' then str ''error'' else str ''message'');
          msg = (if msg0 = '''' then s else msg0);
          ctx = str ''context''
      in if ctx = ''login'' then [BS_loginFailed msg]
         else if ctx = ''signup'' then [BS_signupFailed msg]
         else if purpose = ''login'' then [BS_loginFailed msg]
         else [BS_signupFailed msg])"

definition NetworkBridge_callback ::
  "('q, 'm) qt_object_ops_scheme \<Rightarrow> string \<Rightarrow> NetworkCallback \<times> string \<Rightarrow> BridgeSignal list" where
  "NetworkBridge_callback Q purpose = (\<lambda>(cb, s).
     case cb of
       onLoginResult \<Rightarrow> NetworkBridge_onLoginResult Q s
     | onLoginFail \<Rightarrow> NetworkBridge_onLoginFail Q purpose s
     | onCameraList \<Rightarrow> [BS_cameraListReceived s]
     | onDeviceStatus \<Rightarrow> [BS_deviceStatusReceived s]
     | onAiResult \<Rightarrow> [BS_aiResultReceived s]
     | onMetaResult \<Rightarrow> [BS_metaResultReceived s]
     | onImageMeta \<Rightarrow> [BS_imageMetaReceived s]
     | onAssign \<Rightarrow> [BS_pendingListReceived s])"

definition NetworkBridge_onImageData :: "bytes \<Rightarrow> string \<Rightarrow> BridgeSignal list" where
  "NetworkBridge_onImageData data meta = [BS_imageDataReceived data meta]"

text \<open>The signals Core is connected to; nothing is connected to \<open>imageMetaReceived\<close>.\<close>

fun BridgeSignal_core :: "BridgeSignal \<Rightarrow> Core_signal list" where
  "BridgeSignal_core (BS_cameraListReceived s) = [SIG_cameraListReceived s]"
| "BridgeSignal_core (BS_deviceStatusReceived s) = [SIG_deviceStatusReceived s]"
| "BridgeSignal_core (BS_aiResultReceived s) = [SIG_aiResultReceived s]"
| "BridgeSignal_core (BS_metaResultReceived s) = [SIG_metaResultReceived s]"
| "BridgeSignal_core (BS_pendingListReceived s) = [SIG_pendingListReceived s]"
| "BridgeSignal_core (BS_imageDataReceived data meta) = [SIG_imageDataReceived data meta]"
| "BridgeSignal_core _ = []"

section \<open>Reading the texts\<close>

text \<open>
  The grammar of JSON (RFC 8259) for objects whose members are strings, without escapes and white
  space, as a reader: an unescaped character of a string is neither a quote nor a backslash nor one
  of the control characters below \<open>0x20\<close>, which every reader of JSON rejects. The result has the
  members in their order. This is the specification of the texts, not code of the program.
\<close>

definition control_char :: "char \<Rightarrow> bool" where
  "control_char c \<longleftrightarrow> of_char c < (0x20 :: nat)"

fun read_chars :: "string \<Rightarrow> (string \<times> string) option" where
  "read_chars [] = None"
| "read_chars (c # cs) =
     (if c = dquote then Some ([], cs)
      else if c = backslash \<or> control_char c then None
      else map_option (\<lambda>(s, rest). (c # s, rest)) (read_chars cs))"

fun read_string :: "string \<Rightarrow> (string \<times> string) option" where
  "read_string (c # cs) = (if c = dquote then read_chars cs else None)"
| "read_string [] = None"

definition read_member :: "string \<Rightarrow> ((string \<times> string) \<times> string) option" where
  "read_member s =
     (case read_string s of
        None \<Rightarrow> None
      | Some (k, s1) \<Rightarrow>
          (case s1 of
             [] \<Rightarrow> None
           | c # s2 \<Rightarrow>
               if c = CHR '':'' then map_option (\<lambda>(v, rest). ((k, v), rest)) (read_string s2) else None))"

lemma read_chars_shorter: "read_chars cs = Some (s, rest) \<Longrightarrow> length rest < length cs"
  by (induction cs arbitrary: s rest) (fastforce split: if_splits)+

lemma read_string_shorter: "read_string cs = Some (s, rest) \<Longrightarrow> length rest < length cs"
  by (cases cs) (auto dest: read_chars_shorter split: if_splits)

lemma read_member_shorter: "read_member s = Some (m, rest) \<Longrightarrow> length rest < length s"
  by (auto simp: read_member_def dest!: read_string_shorter split: option.splits list.splits if_splits prod.splits)

function read_members :: "string \<Rightarrow> (string \<times> string) list option" where
  "read_members s =
     (case read_member s of
        None \<Rightarrow> None
      | Some (m, rest) \<Rightarrow>
          if rest = ''}'' then Some [m]
          else
            (case rest of
               [] \<Rightarrow> None
             | c # rest' \<Rightarrow> if c = CHR '','' then map_option ((#) m) (read_members rest') else None))"
  by pat_completeness auto
termination
  by (relation "measure length") (auto dest: read_member_shorter)

declare read_members.simps [simp del]

definition read_object :: "string \<Rightarrow> (string \<times> string) list option" where
  "read_object s =
     (case s of
        [] \<Rightarrow> None
      | c # s' \<Rightarrow>
          if c \<noteq> CHR ''{'' then None else if s' = ''}'' then Some [] else read_members s')"

text \<open>Texts without quotes, backslashes and control characters, which JSON has to escape.\<close>

definition plain_text :: "string \<Rightarrow> bool" where
  "plain_text s \<longleftrightarrow> list_all (\<lambda>c. c \<noteq> dquote \<and> c \<noteq> backslash \<and> \<not> control_char c) s"

definition member_text :: "string \<times> string \<Rightarrow> string" where
  "member_text kv = [dquote] @ fst kv @ [dquote, CHR '':'', dquote] @ snd kv @ [dquote]"

lemma read_chars_plain: "plain_text s \<Longrightarrow> read_chars (s @ dquote # rest) = Some (s, rest)"
  by (induction s) (auto simp: plain_text_def)

lemma read_member_text:
  "plain_text (fst kv) \<Longrightarrow> plain_text (snd kv) \<Longrightarrow> read_member (member_text kv @ rest) = Some (kv, rest)"
  by (simp add: read_member_def member_text_def read_chars_plain)

text \<open>The loop writes the members that are not empty, with commas between them.\<close>

fun members_text :: "(string \<times> string) list \<Rightarrow> string" where
  "members_text [] = ''''"
| "members_text [kv] = member_text kv"
| "members_text (kv # kvs) = member_text kv @ '','' @ members_text kvs"

lemma members_text_Cons: "members_text (kv # kvs) = member_text kv @ (if kvs = [] then '''' else '','' @ members_text kvs)"
  by (cases kvs) simp_all

abbreviation nonempty_members :: "(string \<times> string) list \<Rightarrow> (string \<times> string) list" where
  "nonempty_members \<equiv> filter (\<lambda>kv. snd kv \<noteq> '''')"

lemma buildJson_loop_members:
  "buildJson_loop pairs first s =
     s @ (if first \<or> nonempty_members pairs = [] then '''' else '','') @ members_text (nonempty_members pairs)"
  by (induction pairs first s rule: buildJson_loop.induct)
    (auto simp: Let_def members_text_Cons member_text_def)

lemma buildJson_members: "buildJson pairs = ''{'' @ members_text (nonempty_members pairs) @ ''}''"
  by (simp add: buildJson_def buildJson_loop_members)

lemma read_members_text:
  "kvs \<noteq> [] \<Longrightarrow> list_all (\<lambda>(k, v). plain_text k \<and> plain_text v) kvs \<Longrightarrow>
     read_members (members_text kvs @ ''}'') = Some kvs"
proof (induction kvs)
  case (Cons kv kvs)
  then show ?case
    by (subst read_members.simps)
      (auto simp: members_text_Cons read_member_text split_def)
qed simp

lemma members_text_hd: "kvs \<noteq> [] \<Longrightarrow> members_text kvs @ rest \<noteq> ''}''"
  by (cases kvs) (auto simp: members_text_Cons member_text_def)

lemma read_buildJson:
  assumes "list_all (\<lambda>(k, v). plain_text k \<and> plain_text v) pairs"
  shows "read_object (buildJson pairs) = Some (nonempty_members pairs)"
proof (cases "nonempty_members pairs = []")
  case True
  then show ?thesis by (simp add: buildJson_members read_object_def)
next
  case False
  moreover have "list_all (\<lambda>(k, v). plain_text k \<and> plain_text v) (nonempty_members pairs)"
    using assms by (auto simp: list_all_iff)
  ultimately show ?thesis
    using members_text_hd [OF False, of "''}''"]
    by (simp add: buildJson_members read_object_def read_members_text)
qed

section \<open>The debounced states\<close>

lemma qmap_put_map_of: "map_of (qmap_put k v m) = (map_of m)(k \<mapsto> v)"
  by (induction k v m rule: qmap_put.induct) auto

lemma qmap_put_keys: "fst ` set (qmap_put k v m) = insert k (fst ` set m)"
  by (induction k v m rule: qmap_put.induct) auto

lemma qmap_put_sorted: "sorted_wrt (<) (map fst m) \<Longrightarrow> sorted_wrt (<) (map fst (qmap_put k v m))"
proof (induction k v m rule: qmap_put.induct)
  case (2 k v k' v' m)
  then show ?case
    using qmap_put_keys [of k v m] by (auto simp: not_less_iff_gr_or_eq less_trans)
qed simp

text \<open>
  The abstract specification: of the requests for a device, the last automatic mode of the motor
  and the last state of the lamp and the heater, each empty where none was asked for.
\<close>

type_synonym device_request = "string \<times> string \<times> string \<times> string"

definition last_text :: "(device_request \<Rightarrow> string) \<Rightarrow> (string \<Rightarrow> bool) \<Rightarrow> device_request list \<Rightarrow> string" where
  "last_text f P reqs = last ('''' # filter P (map f reqs))"

definition wanted_state :: "device_request list \<Rightarrow> string \<Rightarrow> DeviceState" where
  "wanted_state reqs ip =
     (let own = filter (\<lambda>r. fst r = ip) reqs
      in \<lparr>ds_motor = last_text (fst \<circ> snd) (\<lambda>m. m = ''auto'' \<or> m = ''unauto'') own,
          ds_ir = last_text (fst \<circ> snd \<circ> snd) (\<lambda>s. s \<noteq> '''') own,
          ds_heater = last_text (snd \<circ> snd \<circ> snd) (\<lambda>s. s \<noteq> '''') own\<rparr>)"

text \<open>The request that goes out at once.\<close>

definition action_message :: "device_request \<Rightarrow> service_call list" where
  "action_message = (\<lambda>(ip, motor, ir, heater).
     if ip \<noteq> '''' \<and> NetworkBridge_isAction motor ir heater
     then [SV_send 0x04 (NetworkBridge_deviceBody ip motor ir heater)] else [])"

definition no_movement :: "device_request list \<Rightarrow> bool" where
  "no_movement reqs \<longleftrightarrow> list_all (\<lambda>(ip, motor, ir, heater). motor \<in> {'''', ''auto'', ''unauto''}) reqs"

definition state_message :: "device_request list \<Rightarrow> string \<Rightarrow> service_call list" where
  "state_message reqs ip =
     (if wanted_state reqs ip = DeviceState_default then []
      else [SV_send 0x04 (NetworkBridge_deviceBody ip (ds_motor (wanted_state reqs ip))
        (ds_ir (wanted_state reqs ip)) (ds_heater (wanted_state reqs ip)))])"

abbreviation send_devices :: "NetworkBridge \<Rightarrow> device_request list \<Rightarrow> NetworkBridge" where
  "send_devices \<equiv> foldl (\<lambda>b (ip, motor, ir, heater). NetworkBridge_sendDevice ip motor ir heater b)"

abbreviation named_devices :: "device_request list \<Rightarrow> string set" where
  "named_devices reqs \<equiv> fst ` set reqs - {''''}"

lemma last_text_snoc:
  "last_text f P (reqs @ [r]) = (if P (f r) then f r else last_text f P reqs)"
  by (simp add: last_text_def)

lemma wanted_state_snoc:
  "wanted_state (reqs @ [(ip, motor, ir, heater)]) ip' =
     (if ip = ip' then fst (NetworkBridge_pend motor ir heater (wanted_state reqs ip)) else wanted_state reqs ip')"
  by (auto simp: wanted_state_def NetworkBridge_pend_def Let_def last_text_snoc)

lemma pend_updated:
  "snd (NetworkBridge_pend motor ir heater st) \<longleftrightarrow> motor = ''auto'' \<or> motor = ''unauto'' \<or> ir \<noteq> '''' \<or> heater \<noteq> ''''"
  by (auto simp: NetworkBridge_pend_def Let_def)

lemma pend_default:
  "fst (NetworkBridge_pend motor ir heater st) = DeviceState_default \<longleftrightarrow>
     st = DeviceState_default \<and> \<not> snd (NetworkBridge_pend motor ir heater st)"
  by (cases st) (auto simp: NetworkBridge_pend_def Let_def DeviceState_default_def)

text \<open>The list of pending states holds the wanted state of every device named, by its key.\<close>

definition pending_ok :: "device_request list \<Rightarrow> NetworkBridge \<Rightarrow> NetworkBridge \<Rightarrow> bool" where
  "pending_ok reqs b0 b \<longleftrightarrow>
     sorted_wrt (<) (map fst (nb_pendingStates b)) \<and>
     map_of (nb_pendingStates b) =
       (\<lambda>ip. if ip \<in> named_devices reqs then Some (wanted_state reqs ip) else None) \<and>
     nb_calls b = nb_calls b0 @ concat (map action_message reqs) \<and>
     (nb_timer b \<longleftrightarrow> nb_timer b0 \<or> (\<exists>ip \<in> named_devices reqs. wanted_state reqs ip \<noteq> DeviceState_default))"

lemma wanted_state_unnamed: "ip \<notin> fst ` set reqs \<Longrightarrow> wanted_state reqs ip = DeviceState_default"
proof -
  assume "ip \<notin> fst ` set reqs"
  then have "filter (\<lambda>r. fst r = ip) reqs = []" by (auto simp: filter_empty_conv)
  then show ?thesis by (simp add: wanted_state_def last_text_def DeviceState_default_def)
qed

lemma sendDevice_pending:
  assumes "pending_ok reqs b0 b" "ip \<noteq> ''''"
  shows "pending_ok (reqs @ [(ip, motor, ir, heater)]) b0 (NetworkBridge_sendDevice ip motor ir heater b)"
proof -
  let ?r = "(ip, motor, ir, heater)" and ?st = "wanted_state reqs ip"
  let ?pend = "NetworkBridge_pend motor ir heater ?st"
  let ?b = "NetworkBridge_sendDevice ip motor ir heater b"
  have "(case map_of (nb_pendingStates b) ip of None \<Rightarrow> DeviceState_default | Some st \<Rightarrow> st) = ?st"
    using assms wanted_state_unnamed [of ip reqs] by (auto simp: pending_ok_def)
  then have pending: "nb_pendingStates ?b = qmap_put ip (fst ?pend) (nb_pendingStates b)"
    and timer: "nb_timer ?b \<longleftrightarrow> nb_timer b \<or> snd ?pend"
    and calls: "nb_calls ?b = nb_calls b @ action_message ?r"
    using assms(2)
    by (auto simp: NetworkBridge_sendDevice_def Let_def NetworkBridge_call_def action_message_def split_def)
  have "(\<exists>ip' \<in> named_devices (reqs @ [?r]). wanted_state (reqs @ [?r]) ip' \<noteq> DeviceState_default) \<longleftrightarrow>
      (\<exists>ip' \<in> named_devices reqs. wanted_state reqs ip' \<noteq> DeviceState_default) \<or> snd ?pend"
  proof -
    have new: "wanted_state (reqs @ [?r]) ip' \<noteq> DeviceState_default \<longleftrightarrow>
        wanted_state reqs ip' \<noteq> DeviceState_default \<or> ip' = ip \<and> snd ?pend" for ip'
      by (auto simp: wanted_state_snoc pend_default)
    have names: "named_devices (reqs @ [?r]) = insert ip (named_devices reqs)"
      using assms(2) by auto
    have "wanted_state reqs ip \<noteq> DeviceState_default \<Longrightarrow> ip \<in> named_devices reqs"
      using assms(2) wanted_state_unnamed [of ip reqs] by blast
    then show ?thesis
      unfolding new names by blast
  qed
  moreover have "map_of (qmap_put ip (fst ?pend) (nb_pendingStates b)) =
      (\<lambda>ip'. if ip' \<in> named_devices (reqs @ [?r]) then Some (wanted_state (reqs @ [?r]) ip') else None)"
    using assms by (simp add: pending_ok_def qmap_put_map_of wanted_state_snoc fun_eq_iff)
  ultimately show ?thesis
    using assms(1) by (simp add: pending_ok_def pending timer calls qmap_put_sorted)
qed

lemma send_devices_pending:
  assumes "nb_pendingStates b = []"
  shows "pending_ok reqs b (send_devices b reqs)"
proof (induction reqs rule: rev_induct)
  case Nil
  from assms show ?case by (simp add: pending_ok_def fun_eq_iff)
next
  case (snoc r reqs)
  obtain ip motor ir heater where r: "r = (ip, motor, ir, heater)" by (cases r) auto
  show ?case
  proof (cases "ip = ''''")
    case False
    with sendDevice_pending [OF snoc.IH False] show ?thesis by (simp add: r)
  next
    case True
    have "wanted_state (reqs @ [r]) ip' = wanted_state reqs ip'" if "ip' \<noteq> ''''" for ip'
      using that by (simp add: r True wanted_state_snoc)
    then show ?thesis
      using snoc.IH
      by (simp add: r True pending_ok_def NetworkBridge_sendDevice_def action_message_def fun_eq_iff)
  qed
qed

lemma pendingMessages_concat:
  "NetworkBridge_pendingMessages pending =
     concat (map (\<lambda>(ip, st). if st = DeviceState_default then []
       else [SV_send 0x04 (NetworkBridge_deviceBody ip (ds_motor st) (ds_ir st) (ds_heater st))]) pending)"
proof (induction pending rule: NetworkBridge_pendingMessages.induct)
  case (2 ip st pending)
  have "ds_motor st = '''' \<and> ds_ir st = '''' \<and> ds_heater st = '''' \<longleftrightarrow> st = DeviceState_default"
    by (cases st) (simp add: DeviceState_default_def)
  with 2 show ?case by auto
qed simp

lemma sorted_pending:
  assumes "sorted_wrt (<) (map fst m)" "map_of m = (\<lambda>k. if k \<in> A then Some (f k) else None)"
  shows "m = map (\<lambda>k. (k, f k)) (sorted_list_of_set A)"
proof -
  have distinct: "distinct (map fst m)" "sorted (map fst m)"
    using assms(1) by (simp_all add: strict_sorted_iff)
  have A: "A = set (map fst m)"
    using assms(2) dom_map_of_conv_image_fst [of m] by (auto simp: dom_def split: if_splits)
  have "sorted_list_of_set A = map fst m"
    unfolding A by (rule sorted_list_of_set.idem_if_sorted_distinct [OF distinct(2,1)])
  moreover have "snd kv = f (fst kv)" if "kv \<in> set m" for kv
    using that distinct(1) assms(2) map_of_is_SomeI [of m "fst kv" "snd kv"]
    by (auto split: if_splits)
  then have "map (\<lambda>k. (k, f k)) (map fst m) = m"
    by (auto simp: comp_def prod_eq_iff intro!: map_idI)
  ultimately show ?thesis by simp
qed

section \<open>Properties\<close>

text \<open>
  Claim C23. The texts of the requests are JSON and are read back: where neither keys nor values
  have quotes, backslashes or control characters, the grammar of JSON reads exactly the members
  with a value, in order. So the server gets the id and the password of a login as they were typed,
  if they have no such character; nothing escapes those (\<open>sendSignup_injection\<close>).\<close>

theorem buildJson_roundtrip:
  assumes "list_all (\<lambda>(k, v). plain_text k \<and> plain_text v) pairs"
  shows "read_object (buildJson pairs) = Some (filter (\<lambda>(k, v). v \<noteq> '''') pairs)"
  using read_buildJson [OF assms] by (simp add: split_def)

text \<open>
  Values are not escaped: an id with quotes puts a member of its own into the text of a
  registration, for any plain key and value, where the server reads it like one the client wrote.
  A form for new users can thus overwrite the action of the request.\<close>

theorem sendSignup_injection:
  assumes "list_all plain_text [i, k, v, email, pw]" "i \<noteq> ''''" "v \<noteq> ''''" "email \<noteq> ''''" "pw \<noteq> ''''"
  shows "\<exists>text. nb_calls (NetworkBridge_sendSignup
        (i @ [dquote, CHR '','', dquote] @ k @ [dquote, CHR '':'', dquote] @ v) email pw b) =
      nb_calls b @ [SV_send 0x08 text] \<and>
    read_object text = Some [(''action'', ''register''), (''id'', i), (k, v), (''email'', email), (''pw'', pw)]"
proof -
  let ?honest = "[(''action'', ''register''), (''id'', i), (k, v), (''email'', email), (''pw'', pw)]"
  let ?forged = "i @ [dquote, CHR '','', dquote] @ k @ [dquote, CHR '':'', dquote] @ v"
  have "buildJson [(''action'', ''register''), (''id'', ?forged), (''email'', email), (''pw'', pw)] =
      buildJson ?honest"
    using assms by (simp add: buildJson_members member_text_def)
  moreover have "read_object (buildJson ?honest) = Some ?honest"
    using assms by (subst read_buildJson) (auto simp: plain_text_def control_char_def)
  ultimately show ?thesis
    by (simp add: NetworkBridge_sendSignup_def NetworkBridge_call_def)
qed

text \<open>
  Claim C24. The debouncing of the device requests implements its specification. After a timeout,
  and any requests since then, the commands among them have gone out at once, in order, and when
  the timer fires nothing stays pending. If no request moves a motor, then one message per device
  goes out when the timer fires, in the order of the ips, with the last mode of the motor and the
  last states of lamp and heater that were asked for, and none for a device without such a state;
  the timer runs exactly when there is such a message to send, so no state is left behind. What
  follows a movement is left open: the comment at the code asks for \<open>unauto\<close>, which the code has
  as a comment only.\<close>

theorem NetworkBridge_debounce:
  fixes b0 :: NetworkBridge and reqs :: "device_request list"
  defines "b1 \<equiv> NetworkBridge_timeout b0"
  defines "b \<equiv> send_devices b1 reqs"
  shows "nb_calls b = nb_calls b1 @ concat (map action_message reqs) \<and>
    nb_pendingStates (NetworkBridge_timeout b) = [] \<and>
    (no_movement reqs \<longrightarrow>
       nb_calls (NetworkBridge_timeout b) =
         nb_calls b @ concat (map (state_message reqs) (sorted_list_of_set (named_devices reqs))) \<and>
       (nb_timer b \<longleftrightarrow> concat (map (state_message reqs) (sorted_list_of_set (named_devices reqs))) \<noteq> []))"
proof -
  have b1: "nb_pendingStates b1 = []" "\<not> nb_timer b1"
    by (simp_all add: b1_def NetworkBridge_timeout_def NetworkBridge_processPendingStates_def)
  have ok: "pending_ok reqs b1 b"
    unfolding b_def by (rule send_devices_pending [OF b1(1)])
  then have "nb_pendingStates b =
      map (\<lambda>ip. (ip, wanted_state reqs ip)) (sorted_list_of_set (named_devices reqs))"
    unfolding pending_ok_def by (intro sorted_pending) blast+
  moreover have "NetworkBridge_pendingMessages
      (map (\<lambda>ip. (ip, wanted_state reqs ip)) ips) = concat (map (state_message reqs) ips)" for ips
    by (simp add: pendingMessages_concat comp_def state_message_def cong: map_cong)
  ultimately have "NetworkBridge_pendingMessages (nb_pendingStates b) =
      concat (map (state_message reqs) (sorted_list_of_set (named_devices reqs)))"
    by simp
  moreover have "nb_calls b = nb_calls b1 @ concat (map action_message reqs)"
    and "nb_timer b \<longleftrightarrow> (\<exists>ip \<in> named_devices reqs. wanted_state reqs ip \<noteq> DeviceState_default)"
    using ok b1(2) by (simp_all add: pending_ok_def)
  moreover have "concat (map (state_message reqs) (sorted_list_of_set A)) = [] \<longleftrightarrow>
      (\<forall>ip \<in> A. wanted_state reqs ip = DeviceState_default)" if "finite A" for A
    using that by (auto simp: state_message_def split: if_splits)
  ultimately show ?thesis
    by (simp add: NetworkBridge_timeout_def NetworkBridge_processPendingStates_def)
qed

section \<open>From the connection to the jobs of Core\<close>

text \<open>All callbacks are set; the signals reach Core in the order of the event loop.\<close>

definition Core_onSignals :: "Core_signal list \<Rightarrow> Core \<Rightarrow> Core" where
  "Core_onSignals sigs c = foldl (\<lambda>c sig. Core_onSignal sig c) c sigs"

definition calls_to_core ::
  "('q, 'm) qt_object_ops_scheme \<Rightarrow> string \<Rightarrow> (NetworkCallback \<times> string) list \<Rightarrow> Core_signal list" where
  "calls_to_core Q purpose calls = concat (map BridgeSignal_core (concat (map (NetworkBridge_callback Q purpose) calls)))"

text \<open>The jobs a text of the server is for, by its type.\<close>

definition jobs_of_text :: "MessageType \<times> string \<Rightarrow> Core_job list" where
  "jobs_of_text = (\<lambda>(t, text).
     if text = '''' then []
     else case t of
       CAMERA \<Rightarrow> [JOB_cameraStore text, JOB_deviceStore_camera text]
     | DEVICE \<Rightarrow> [JOB_deviceStore_available text, JOB_serverStatusStore text]
     | AVAILABLE \<Rightarrow> [JOB_deviceStore_available text, JOB_serverStatusStore text]
     | META \<Rightarrow> [JOB_meta text]
     | AI \<Rightarrow> [JOB_alarm text, JOB_personCount text]
     | _ \<Rightarrow> [])"

definition posts_of_text :: "MessageType \<times> string \<Rightarrow> Core_call list" where
  "posts_of_text = (\<lambda>(t, text).
     if t = ASSIGN \<and> text \<noteq> '''' then [CALL_userModel_onPendingListReceived text] else [])"

lemma Core_onSignals_Cons [simp]:
  "Core_onSignals [] c = c"
  "Core_onSignals (sig # sigs) c = Core_onSignals sigs (Core_onSignal sig c)"
  by (simp_all add: Core_onSignals_def)

lemma Core_onSignals_append: "Core_onSignals (xs @ ys) c = Core_onSignals ys (Core_onSignals xs c)"
  by (simp add: Core_onSignals_def)

lemma result_signals: "concat (map BridgeSignal_core (NetworkBridge_onLoginResult Q s)) = []"
  by (auto simp: NetworkBridge_onLoginResult_def split: option.splits)

lemma fail_signals: "concat (map BridgeSignal_core (NetworkBridge_onLoginFail Q purpose s)) = []"
  by (simp add: NetworkBridge_onLoginFail_def Let_def)

lemma text_to_core:
  "Core_onSignals (calls_to_core Q purpose
      (case MessageType_callback t of None \<Rightarrow> [] | Some cb \<Rightarrow> if True \<and> text \<noteq> [] then [(cb, text)] else [])) c =
    c\<lparr>core_jobs := core_jobs c @ jobs_of_text (t, text), core_calls := core_calls c @ posts_of_text (t, text)\<rparr>"
  by (cases t)
    (simp_all add: calls_to_core_def result_signals fail_signals NetworkBridge_callback_def
      jobs_of_text_def posts_of_text_def Core_submit_def Core_post_def)

text \<open>
  Claim C2. From the socket to the thread pool. The server sends texts, each in a frame of its type
  as Protocol.hpp numbers them, in the clear or as records of a TLS connection behind its
  handshake; over TLS no frame of the handshake is among them, and texts and records are shorter
  than \<open>2 ^ 31\<close> bytes. Cut into any chunks, the frames become the jobs of Core in their order. A camera list is submitted
  once to the camera store and once to the device store, a status to the device store and the
  server status, telemetry and alarms to their jobs, a pending list is posted to the user model;
  nothing is lost, doubled or reordered, and login answers submit nothing.\<close>

theorem frames_become_jobs:
  assumes "record_reader S pt A" "carried pt A (tcp_tls st) frames"
    and "tcp_phase st = TCP_reading_header" "th_message H"
    and "concat chunks = wire_frames frames"
  shows "map_option (\<lambda>(st', outs, rest).
       (Core_onSignals (calls_to_core Q purpose (concat (map (TcpSession_dispatch (\<lambda>_. True)) outs))) c, rest))
       (TcpSession_receive S H chunks [] st) =
     Some (c\<lparr>core_jobs := core_jobs c @ concat (map (\<lambda>(t, str, payload). jobs_of_text (t, str)) frames),
             core_calls := core_calls c @ concat (map (\<lambda>(t, str, payload). posts_of_text (t, str)) frames)\<rparr>, [])"
proof (rule TcpSession_receive_carried [OF assms])
  fix st' outs
  assume receive: "TcpSession_receive S H chunks [] st = Some (st', outs, [])"
    and dispatch: "\<And>cbs. concat (map (TcpSession_dispatch cbs) outs) =
      concat (map (\<lambda>(t, str, payload). MessageProcessor_processMessage cbs (text_message (t, str))) frames)"
  have split: "calls_to_core Q purpose (xs @ ys) = calls_to_core Q purpose xs @ calls_to_core Q purpose ys" for xs ys
    by (simp add: calls_to_core_def)
  have "Core_onSignals (calls_to_core Q purpose
      (concat (map (\<lambda>(t, str, payload). MessageProcessor_processMessage (\<lambda>_. True) (text_message (t, str))) fs))) c =
      c\<lparr>core_jobs := core_jobs c @ concat (map (\<lambda>(t, str, payload). jobs_of_text (t, str)) fs),
        core_calls := core_calls c @ concat (map (\<lambda>(t, str, payload). posts_of_text (t, str)) fs)\<rparr>" for fs c
    by (induction fs arbitrary: c)
      (simp_all add: split_def split Core_onSignals_append text_message_def MessageProcessor_of_frame
        text_to_core, simp add: calls_to_core_def)
  with receive dispatch show ?thesis by simp
qed

section \<open>Instances\<close>

text \<open>The lamp is switched on, then to automatic; the timer sends the last state.\<close>

theorem NetworkBridge_debounce_witness:
  "nb_calls (NetworkBridge_timeout (send_devices (NetworkBridge_timeout NetworkBridge_init)
      [(''10.0.0.1'', '''', ''on'', ''''), (''10.0.0.1'', ''auto'', ''auto'', '''')])) =
   [SV_send 0x04 (buildJson [(''device'', ''10.0.0.1''), (''ir'', ''on'')]),
    SV_send 0x04 (buildJson [(''device'', ''10.0.0.1''), (''motor'', ''auto''), (''ir'', ''auto'')])]"
proof -
  let ?reqs = "[(''10.0.0.1'', '''', ''on'', ''''), (''10.0.0.1'', ''auto'', ''auto'', '''')]"
  have "no_movement ?reqs" by (simp add: no_movement_def)
  with NetworkBridge_debounce [of NetworkBridge_init ?reqs]
  have "nb_calls (NetworkBridge_timeout (send_devices (NetworkBridge_timeout NetworkBridge_init) ?reqs)) =
      nb_calls (NetworkBridge_timeout NetworkBridge_init) @ concat (map action_message ?reqs) @
      concat (map (state_message ?reqs) (sorted_list_of_set (named_devices ?reqs)))" by simp
  then show ?thesis
    by (simp add: NetworkBridge_timeout_def NetworkBridge_processPendingStates_def NetworkBridge_init_def
        action_message_def NetworkBridge_isAction_def state_message_def wanted_state_def last_text_def
        DeviceState_default_def NetworkBridge_deviceBody_def buildJson_def)
qed

theorem buildJson_roundtrip_witness:
  "read_object (buildJson [(''device'', ''10.0.0.1''), (''motor'', ''''), (''ir'', ''on'')]) =
   Some [(''device'', ''10.0.0.1''), (''ir'', ''on'')]"
  using buildJson_roundtrip [of "[(''device'', ''10.0.0.1''), (''motor'', ''''), (''ir'', ''on'')]"]
  by (simp add: plain_text_def control_char_def)

theorem sendSignup_injection_witness:
  "\<exists>text. nb_calls (NetworkBridge_sendSignup
        (''eve'' @ [dquote, CHR '','', dquote] @ ''action'' @ [dquote, CHR '':'', dquote] @ ''approve'')
        ''e@x'' ''pw'' NetworkBridge_init) = [SV_send 0x08 text] \<and>
     read_object text = Some [(''action'', ''register''), (''id'', ''eve''), (''action'', ''approve''),
       (''email'', ''e@x''), (''pw'', ''pw'')]"
  using sendSignup_injection [of "''eve''" "''action''" "''approve''" "''e@x''" "''pw''" NetworkBridge_init]
  by (simp add: plain_text_def control_char_def NetworkBridge_init_def)

definition bridge_example_qt :: "string qt_object_ops" where
  "bridge_example_qt =
     \<lparr>q_document = Some, q_value = (\<lambda>q k. k), q_toBool = (\<lambda>q. q = ''success''), q_toArray = (\<lambda>_. []),
      q_toObject = id, q_toString = id, q_isoDate = (\<lambda>_. None), q_plainDate = (\<lambda>_. None),
      q_contains = (\<lambda>q k. k = ''error'')\<rparr>"

text \<open>Over TLS: a camera list, a success without text and telemetry, in three chunks.\<close>

theorem frames_become_jobs_witness:
  "map_option (\<lambda>(st', outs, rest). core_jobs
       (Core_onSignals (calls_to_core bridge_example_qt ''login'' (concat (map (TcpSession_dispatch (\<lambda>_. True)) outs)))
         Core_init))
     (TcpSession_receive loop_ops \<lparr>th_message = True, th_disconnect = True, th_connected = True\<rparr>
       [[7, 2, 0], [0, 0, 91, 93, 2], [0, 0, 0, 0, 9, 1, 0, 0, 0, 49]] []
       ((TcpSession_new (Some (Some \<lparr>loop_in = [], loop_out = [], loop_done = True\<rparr>)))\<lparr>tcp_phase := TCP_reading_header\<rparr>)) =
   Some [JOB_cameraStore ''[]'', JOB_deviceStore_camera ''[]'', JOB_meta ''1'']"
proof -
  let ?st = "(TcpSession_new (Some (Some \<lparr>loop_in = [], loop_out = [], loop_done = True\<rparr>)))\<lparr>tcp_phase := TCP_reading_header\<rparr>"
  let ?H = "\<lparr>th_message = True, th_disconnect = True, th_connected = True\<rparr>"
  let ?frames = "[(CAMERA, ''[]'', [91, 93]), (SUCCESS, '''', []), (META, ''1'', [49])]"
  let ?chunks = "[[7, 2, 0], [0, 0, 91, 93, 2], [0, 0, 0, 0, 9, 1, 0, 0, 0, 49]]"
  let ?A = "\<lambda>e rs. loop_done e \<and> list_all (\<lambda>(cipher, plain). cipher = plain) rs"
  have "carried loop_in ?A (tcp_tls ?st) ?frames" "tcp_phase ?st = TCP_reading_header" "th_message ?H"
    and "concat ?chunks = wire_frames ?frames"
    by (simp_all add: carried_def TcpSession_new_def frame_bytes_def le32_bytes_def string_bytes_def)
  from frames_become_jobs [OF loop_reader this, of bridge_example_qt "''login''" Core_init]
  show ?thesis
    by (auto simp: jobs_of_text_def Core_init_def map_option_case split: option.splits)
qed

end
