(* ===== verification/Auth.thy ===== *)
theory Auth
  imports NetworkBridge
begin

text \<open>
  Qt/Back/Controllers/AuthController.hpp and AuthController.cpp: the pages for login and
  registration over the network bridge, and the client the three make together. The bridge is an
  option, since the code tests the pointer; its calls of the service are recorded in it. Signals
  are recorded in the order they are emitted.
\<close>

section \<open>What the pages share\<close>

datatype auth_signal =
    AS_isLoadingChanged
  | AS_isErrorChanged
  | AS_errorMessageChanged
  | AS_stateChanged
  | AS_usernameChanged
  | AS_loginSuccess
  | AS_logoutRequested
  | AS_signupSuccess string

record AuthController =
  ac_host :: string
  ac_port :: string
  ac_isLoading :: bool
  ac_isError :: bool
  ac_errorMessage :: string
  ac_signals :: "auth_signal list"

definition AuthController_emit :: "auth_signal list \<Rightarrow> 'a AuthController_scheme \<Rightarrow> 'a AuthController_scheme" where
  "AuthController_emit sigs ac = ac\<lparr>ac_signals := ac_signals ac @ sigs\<rparr>"

definition AuthController_setLoading :: "bool \<Rightarrow> 'a AuthController_scheme \<Rightarrow> 'a AuthController_scheme" where
  "AuthController_setLoading v ac =
     (if ac_isLoading ac = v then ac
      else AuthController_emit [AS_isLoadingChanged] (ac\<lparr>ac_isLoading := v\<rparr>))"

definition AuthController_setError :: "string \<Rightarrow> 'a AuthController_scheme \<Rightarrow> 'a AuthController_scheme" where
  "AuthController_setError msg ac =
     AuthController_emit [AS_isErrorChanged, AS_errorMessageChanged]
       (ac\<lparr>ac_isError := True, ac_errorMessage := msg\<rparr>)"

definition AuthController_clearError :: "'a AuthController_scheme \<Rightarrow> 'a AuthController_scheme" where
  "AuthController_clearError ac =
     AuthController_emit [AS_isErrorChanged, AS_errorMessageChanged]
       (ac\<lparr>ac_isError := False, ac_errorMessage := ''''\<rparr>)"

section \<open>Login\<close>

record LoginController = AuthController +
  lc_state :: string
  lc_username :: string
  lc_pendingId :: string
  lc_pendingPassword :: string

definition LoginController_new :: "string \<Rightarrow> string \<Rightarrow> LoginController" where
  "LoginController_new host port =
     \<lparr>ac_host = host, ac_port = port, ac_isLoading = False, ac_isError = False, ac_errorMessage = '''',
      ac_signals = [], lc_state = '''', lc_username = '''', lc_pendingId = '''', lc_pendingPassword = ''''\<rparr>"

definition LoginController_onConnected ::
  "LoginController \<times> NetworkBridge option \<Rightarrow> LoginController \<times> NetworkBridge option" where
  "LoginController_onConnected = (\<lambda>(lc, bridge).
     case bridge of
       None \<Rightarrow> (lc, bridge)
     | Some b \<Rightarrow>
         if lc_pendingId lc = '''' then (lc, bridge)
         else (lc\<lparr>lc_pendingId := '''', lc_pendingPassword := ''''\<rparr>,
               Some (NetworkBridge_sendLogin (lc_pendingId lc) (lc_pendingPassword lc) b)))"

text \<open>\<open>online\<close> is what \<open>isConnected\<close> of the bridge returns.\<close>

definition LoginController_login ::
  "bool \<Rightarrow> string \<Rightarrow> string \<Rightarrow> LoginController \<times> NetworkBridge option \<Rightarrow> LoginController \<times> NetworkBridge option" where
  "LoginController_login online i password = (\<lambda>(lc, bridge).
     if i = '''' \<or> password = ''''
     then (AuthController_setError ''ID and Password cannot be empty'' lc, bridge)
     else
       let lc1 = AuthController_setLoading True (AuthController_clearError lc);
           lc2 = lc1\<lparr>lc_pendingId := i, lc_pendingPassword := password\<rparr>
       in case bridge of
            None \<Rightarrow> (lc2, bridge)
          | Some b \<Rightarrow>
              if online then LoginController_onConnected (lc2, bridge)
              else (lc2, Some (NetworkBridge_connectToServer (ac_host lc) (ac_port lc) ''login'' b)))"

definition LoginController_handleLoginSuccess :: "string \<Rightarrow> string \<Rightarrow> LoginController \<Rightarrow> LoginController" where
  "LoginController_handleLoginSuccess state username lc =
     (let lc1 = AuthController_setLoading False lc;
          lc2 = AuthController_emit [AS_stateChanged] (lc1\<lparr>lc_state := state\<rparr>);
          lc3 = AuthController_emit [AS_usernameChanged] (lc2\<lparr>lc_username := username\<rparr>)
      in AuthController_emit [AS_loginSuccess] lc3)"

definition LoginController_handleLoginFailed ::
  "string \<Rightarrow> LoginController \<times> NetworkBridge option \<Rightarrow> LoginController \<times> NetworkBridge option" where
  "LoginController_handleLoginFailed error = (\<lambda>(lc, bridge).
     (AuthController_setError error (AuthController_setLoading False lc),
      map_option NetworkBridge_disconnect bridge))"

text \<open>
  A logout disconnects first. The call of the service joins its thread and may wait for ever
  (\<open>NetworkService.NetworkService_disconnect_hangs\<close>): \<open>returns\<close> says whether it comes back, and
  None is a logout that never goes on.
\<close>

definition LoginController_logout ::
  "bool \<Rightarrow> LoginController \<times> NetworkBridge option \<Rightarrow> (LoginController \<times> NetworkBridge option) option" where
  "LoginController_logout returns = (\<lambda>(lc, bridge).
     if bridge \<noteq> None \<and> \<not> returns then None
     else
       let bridge1 = map_option NetworkBridge_disconnect bridge;
           lc1 = AuthController_emit [AS_stateChanged] (lc\<lparr>lc_state := ''''\<rparr>);
           lc2 = AuthController_emit [AS_usernameChanged] (lc1\<lparr>lc_username := ''''\<rparr>);
           lc3 = lc2\<lparr>lc_pendingId := '''', lc_pendingPassword := ''''\<rparr>;
           lc4 = AuthController_clearError (AuthController_setLoading False lc3)
       in Some (AuthController_emit [AS_logoutRequested] lc4, bridge1))"

section \<open>Registration\<close>

record SignupController = AuthController +
  sc_pendingId :: string
  sc_pendingEmail :: string
  sc_pendingPassword :: string

definition SignupController_new :: "string \<Rightarrow> string \<Rightarrow> SignupController" where
  "SignupController_new host port =
     \<lparr>ac_host = host, ac_port = port, ac_isLoading = False, ac_isError = False, ac_errorMessage = '''',
      ac_signals = [], sc_pendingId = '''', sc_pendingEmail = '''', sc_pendingPassword = ''''\<rparr>"

definition SignupController_onConnected ::
  "SignupController \<times> NetworkBridge option \<Rightarrow> SignupController \<times> NetworkBridge option" where
  "SignupController_onConnected = (\<lambda>(sc, bridge).
     case bridge of
       None \<Rightarrow> (sc, bridge)
     | Some b \<Rightarrow>
         if sc_pendingId sc = '''' then (sc, bridge)
         else (sc\<lparr>sc_pendingId := '''', sc_pendingEmail := '''', sc_pendingPassword := ''''\<rparr>,
               Some (NetworkBridge_sendSignup (sc_pendingId sc) (sc_pendingEmail sc) (sc_pendingPassword sc) b)))"

text \<open>The message of the empty form is the Korean text of the source; \<open>emptyForm\<close> stands for it.\<close>

definition SignupController_signup ::
  "string \<Rightarrow> bool \<Rightarrow> string \<Rightarrow> string \<Rightarrow> string \<Rightarrow>
   SignupController \<times> NetworkBridge option \<Rightarrow> SignupController \<times> NetworkBridge option" where
  "SignupController_signup emptyForm online i email password = (\<lambda>(sc, bridge).
     if i = '''' \<or> email = '''' \<or> password = '''' then (AuthController_setError emptyForm sc, bridge)
     else
       let sc1 = AuthController_setLoading True (AuthController_clearError sc);
           sc2 = sc1\<lparr>sc_pendingId := i, sc_pendingEmail := email, sc_pendingPassword := password\<rparr>
       in case bridge of
            None \<Rightarrow> (sc2, bridge)
          | Some b \<Rightarrow>
              if online then SignupController_onConnected (sc2, bridge)
              else (sc2, Some (NetworkBridge_connectToServer (ac_host sc) (ac_port sc) ''signup'' b)))"

definition SignupController_handleSignupSuccess ::
  "string \<Rightarrow> SignupController \<times> NetworkBridge option \<Rightarrow> SignupController \<times> NetworkBridge option" where
  "SignupController_handleSignupSuccess message = (\<lambda>(sc, bridge).
     (AuthController_emit [AS_signupSuccess message] (AuthController_setLoading False sc),
      map_option NetworkBridge_disconnect bridge))"

definition SignupController_handleSignupFailed ::
  "string \<Rightarrow> SignupController \<times> NetworkBridge option \<Rightarrow> SignupController \<times> NetworkBridge option" where
  "SignupController_handleSignupFailed error = (\<lambda>(sc, bridge).
     (AuthController_setError error (AuthController_setLoading False sc),
      map_option NetworkBridge_disconnect bridge))"

section \<open>The client\<close>

text \<open>
  Both pages and the bridge they share. \<open>cl_connected\<close> is the flag of the network service: both
  \<open>connect\<close> and \<open>disconnect\<close> clear it, the end of the handshake sets it.
\<close>

record Client =
  cl_login :: LoginController
  cl_signup :: SignupController
  cl_bridge :: NetworkBridge
  cl_connected :: bool

definition Client_new :: "string \<Rightarrow> string \<Rightarrow> Client" where
  "Client_new host port =
     \<lparr>cl_login = LoginController_new host port, cl_signup = SignupController_new host port,
      cl_bridge = NetworkBridge_init, cl_connected = False\<rparr>"

fun is_send :: "service_call \<Rightarrow> bool" where
  "is_send (SV_send _ _) \<longleftrightarrow> True"
| "is_send _ \<longleftrightarrow> False"

text \<open>The purpose the callbacks of the last connection captured.\<close>

fun last_purpose :: "service_call list \<Rightarrow> string \<Rightarrow> string" where
  "last_purpose [] p = p"
| "last_purpose (SV_connect _ _ q # calls) p = last_purpose calls q"
| "last_purpose (_ # calls) p = last_purpose calls p"

abbreviation Client_purpose :: "Client \<Rightarrow> string" where
  "Client_purpose cl \<equiv> last_purpose (nb_calls (cl_bridge cl)) ''''"

text \<open>The state after a page has worked on the bridge.\<close>

definition Client_bridge :: "NetworkBridge option \<Rightarrow> Client \<Rightarrow> Client" where
  "Client_bridge bridge cl =
     (case bridge of
        None \<Rightarrow> cl
      | Some b \<Rightarrow>
          cl\<lparr>cl_bridge := b,
             cl_connected := cl_connected cl \<and>
               list_all is_send (drop (length (nb_calls (cl_bridge cl))) (nb_calls b))\<rparr>)"

definition Client_onLogin ::
  "(LoginController \<times> NetworkBridge option \<Rightarrow> LoginController \<times> NetworkBridge option) \<Rightarrow> Client \<Rightarrow> Client" where
  "Client_onLogin f cl =
     (let (lc, bridge) = f (cl_login cl, Some (cl_bridge cl))
      in Client_bridge bridge (cl\<lparr>cl_login := lc\<rparr>))"

definition Client_onSignup ::
  "(SignupController \<times> NetworkBridge option \<Rightarrow> SignupController \<times> NetworkBridge option) \<Rightarrow> Client \<Rightarrow> Client" where
  "Client_onSignup f cl =
     (let (sc, bridge) = f (cl_signup cl, Some (cl_bridge cl))
      in Client_bridge bridge (cl\<lparr>cl_signup := sc\<rparr>))"

text \<open>The signals of the bridge the pages are connected to.\<close>

fun Client_signal :: "BridgeSignal \<Rightarrow> Client \<Rightarrow> Client" where
  "Client_signal BS_connectedForLogin cl = Client_onLogin LoginController_onConnected cl"
| "Client_signal BS_connectedForSignup cl = Client_onSignup SignupController_onConnected cl"
| "Client_signal (BS_loginSuccess s u) cl =
     cl\<lparr>cl_login := LoginController_handleLoginSuccess s u (cl_login cl)\<rparr>"
| "Client_signal (BS_loginFailed e) cl = Client_onLogin (LoginController_handleLoginFailed e) cl"
| "Client_signal (BS_signupFailed e) cl = Client_onSignup (SignupController_handleSignupFailed e) cl"
| "Client_signal _ cl = cl"

definition Client_signals :: "BridgeSignal list \<Rightarrow> Client \<Rightarrow> Client" where
  "Client_signals sigs cl = foldl (\<lambda>cl sig. Client_signal sig cl) cl sigs"

text \<open>
  What can happen: calls of the pages, the end of a handshake, a text of the server for a
  callback, a connection that is lost. Core connects \<open>logoutRequested\<close> to the bridge as well, whose
  second disconnect finds the service stopped. The events are those whose calls return: the thread
  of the pages that waits in a disconnect for ever takes no further event, and the history ends
  before it.
\<close>

datatype client_event =
    CE_login string string
  | CE_signup string string string
  | CE_logout
  | CE_connected
  | CE_callback NetworkCallback string
  | CE_dropped

fun Client_event :: "('q, 'm) qt_object_ops_scheme \<Rightarrow> string \<Rightarrow> Client \<Rightarrow> client_event \<Rightarrow> Client" where
  "Client_event Q emptyForm cl (CE_login i pw) =
     Client_onLogin (LoginController_login (cl_connected cl) i pw) cl"
| "Client_event Q emptyForm cl (CE_signup i email pw) =
     Client_onSignup (SignupController_signup emptyForm (cl_connected cl) i email pw) cl"
| "Client_event Q emptyForm cl CE_logout =
     Client_onLogin (\<lambda>p. case LoginController_logout True p of
       None \<Rightarrow> p
     | Some (lc, bridge) \<Rightarrow> (lc, map_option NetworkBridge_disconnect bridge)) cl"
| "Client_event Q emptyForm cl CE_connected =
     Client_signals (NetworkBridge_onConnected (Client_purpose cl)) (cl\<lparr>cl_connected := True\<rparr>)"
| "Client_event Q emptyForm cl (CE_callback cb text) =
     Client_signals (NetworkBridge_callback Q (Client_purpose cl) (cb, text)) cl"
| "Client_event Q emptyForm cl CE_dropped = cl\<lparr>cl_connected := False\<rparr>"

section \<open>Credentials that are owed\<close>

text \<open>
  One form at a time: the texts that were sent for it, the one that waits for the connection, and
  the requests of the user so far. Every request is sent at most once, in order, and the one that
  waits is the last.
\<close>

definition owed :: "string list \<Rightarrow> string option \<Rightarrow> string list \<Rightarrow> bool" where
  "owed sent pending requests \<longleftrightarrow>
     subseq sent requests \<and>
     (case pending of
        None \<Rightarrow> True
      | Some t \<Rightarrow> requests \<noteq> [] \<and> last requests = t \<and> subseq sent (butlast requests))"

lemma owed_request: "owed sent pending requests \<Longrightarrow> owed sent (Some t) (requests @ [t])"
  by (auto simp: owed_def intro: list_emb_append2)

lemma owed_sent: "owed sent (Some t) requests \<Longrightarrow> owed (sent @ [t]) None requests"
  by (cases requests rule: rev_cases) (auto simp: owed_def intro!: list_emb_append_mono)

lemma owed_dropped: "owed sent pending requests \<Longrightarrow> owed sent None requests"
  by (simp add: owed_def)

definition sent_texts :: "byte \<Rightarrow> service_call list \<Rightarrow> string list" where
  "sent_texts ty calls =
     List.map_filter (\<lambda>x. case x of SV_send t body \<Rightarrow> if t = ty then Some body else None | _ \<Rightarrow> None) calls"

lemma sent_texts_simps [simp]:
  "sent_texts ty [] = []"
  "sent_texts ty (xs @ ys) = sent_texts ty xs @ sent_texts ty ys"
  "sent_texts ty (SV_connect h p q # xs) = sent_texts ty xs"
  "sent_texts ty (SV_disconnect # xs) = sent_texts ty xs"
  "sent_texts ty (SV_send t body # xs) = (if t = ty then body # sent_texts ty xs else sent_texts ty xs)"
  by (simp_all add: sent_texts_def map_filter_def)

definition login_text :: "string \<Rightarrow> string \<Rightarrow> string" where
  "login_text i pw = buildJson [(''id'', i), (''pw'', pw)]"

definition signup_text :: "string \<Rightarrow> string \<Rightarrow> string \<Rightarrow> string" where
  "signup_text i email pw =
     buildJson [(''action'', ''register''), (''id'', i), (''email'', email), (''pw'', pw)]"

fun login_request :: "client_event \<Rightarrow> string list" where
  "login_request (CE_login i pw) = (if i = '''' \<or> pw = '''' then [] else [login_text i pw])"
| "login_request _ = []"

fun signup_request :: "client_event \<Rightarrow> string list" where
  "signup_request (CE_signup i email pw) =
     (if i = '''' \<or> email = '''' \<or> pw = '''' then [] else [signup_text i email pw])"
| "signup_request _ = []"

definition login_pending :: "LoginController \<Rightarrow> string option" where
  "login_pending lc =
     (if lc_pendingId lc = '''' then None else Some (login_text (lc_pendingId lc) (lc_pendingPassword lc)))"

definition signup_pending :: "SignupController \<Rightarrow> string option" where
  "signup_pending sc =
     (if sc_pendingId sc = '''' then None
      else Some (signup_text (sc_pendingId sc) (sc_pendingEmail sc) (sc_pendingPassword sc)))"

definition Client_owed :: "string list \<Rightarrow> string list \<Rightarrow> Client \<Rightarrow> bool" where
  "Client_owed logins signups cl \<longleftrightarrow>
     owed (sent_texts 0x01 (nb_calls (cl_bridge cl))) (login_pending (cl_login cl)) logins \<and>
     owed (sent_texts 0x08 (nb_calls (cl_bridge cl))) (signup_pending (cl_signup cl)) signups"

named_theorems auth_simps \<open>the pages, field by field\<close>

lemma auth_fields [auth_simps]:
  "login_pending (AuthController_setLoading v lc) = login_pending lc"
  "login_pending (AuthController_setError msg lc) = login_pending lc"
  "login_pending (AuthController_clearError lc) = login_pending lc"
  "login_pending (AuthController_emit sigs lc) = login_pending lc"
  "login_pending (lc\<lparr>lc_state := s\<rparr>) = login_pending lc"
  "login_pending (lc\<lparr>lc_username := s\<rparr>) = login_pending lc"
  "login_pending (lc\<lparr>lc_pendingId := i, lc_pendingPassword := pw\<rparr>) =
     (if i = '''' then None else Some (login_text i pw))"
  "signup_pending (AuthController_setLoading v sc) = signup_pending sc"
  "signup_pending (AuthController_setError msg sc) = signup_pending sc"
  "signup_pending (AuthController_clearError sc) = signup_pending sc"
  "signup_pending (AuthController_emit sigs sc) = signup_pending sc"
  "signup_pending (sc\<lparr>sc_pendingId := i, sc_pendingEmail := email, sc_pendingPassword := pw\<rparr>) =
     (if i = '''' then None else Some (signup_text i email pw))"
  by (auto simp: login_pending_def signup_pending_def AuthController_setLoading_def AuthController_setError_def
      AuthController_clearError_def AuthController_emit_def)

lemma bridge_calls [auth_simps]:
  "nb_calls (NetworkBridge_sendLogin i pw b) = nb_calls b @ [SV_send 0x01 (login_text i pw)]"
  "nb_calls (NetworkBridge_sendSignup i email pw b) = nb_calls b @ [SV_send 0x08 (signup_text i email pw)]"
  "nb_calls (NetworkBridge_connectToServer host port purpose b) = nb_calls b @ [SV_connect host port purpose]"
  "nb_calls (NetworkBridge_disconnect b) = nb_calls b @ [SV_disconnect]"
  by (simp_all add: NetworkBridge_sendLogin_def NetworkBridge_sendSignup_def NetworkBridge_call_def
      NetworkBridge_connectToServer_def NetworkBridge_disconnect_def login_text_def signup_text_def)

lemma Client_bridge_fields [simp]:
  "cl_login (Client_bridge bridge cl) = cl_login cl"
  "cl_signup (Client_bridge bridge cl) = cl_signup cl"
  "cl_bridge (Client_bridge bridge cl) = (case bridge of None \<Rightarrow> cl_bridge cl | Some b \<Rightarrow> b)"
  by (simp_all add: Client_bridge_def split: option.splits)

lemma onConnected_cases:
  "LoginController_onConnected (lc, Some b) =
     (if lc_pendingId lc = '''' then (lc, Some b)
      else (lc\<lparr>lc_pendingId := '''', lc_pendingPassword := ''''\<rparr>,
            Some (NetworkBridge_sendLogin (lc_pendingId lc) (lc_pendingPassword lc) b)))"
  "SignupController_onConnected (sc, Some b) =
     (if sc_pendingId sc = '''' then (sc, Some b)
      else (sc\<lparr>sc_pendingId := '''', sc_pendingEmail := '''', sc_pendingPassword := ''''\<rparr>,
            Some (NetworkBridge_sendSignup (sc_pendingId sc) (sc_pendingEmail sc) (sc_pendingPassword sc) b)))"
  by (simp_all add: LoginController_onConnected_def SignupController_onConnected_def)

lemma Client_onConnected_owed:
  assumes "Client_owed ls ss cl"
  shows "Client_owed ls ss (Client_onLogin LoginController_onConnected cl)"
    and "Client_owed ls ss (Client_onSignup SignupController_onConnected cl)"
proof -
  have "owed (sent_texts 0x01 (nb_calls (cl_bridge cl)) @
      [login_text (lc_pendingId (cl_login cl)) (lc_pendingPassword (cl_login cl))]) None ls"
    if "lc_pendingId (cl_login cl) \<noteq> ''''"
    using assms that by (intro owed_sent) (simp add: Client_owed_def login_pending_def)
  with assms show "Client_owed ls ss (Client_onLogin LoginController_onConnected cl)"
    by (simp add: Client_owed_def Client_onLogin_def onConnected_cases auth_simps)
  have "owed (sent_texts 0x08 (nb_calls (cl_bridge cl)) @
      [signup_text (sc_pendingId (cl_signup cl)) (sc_pendingEmail (cl_signup cl))
        (sc_pendingPassword (cl_signup cl))]) None ss"
    if "sc_pendingId (cl_signup cl) \<noteq> ''''"
    using assms that by (intro owed_sent) (simp add: Client_owed_def signup_pending_def)
  with assms show "Client_owed ls ss (Client_onSignup SignupController_onConnected cl)"
    by (simp add: Client_owed_def Client_onSignup_def onConnected_cases auth_simps)
qed

lemma Client_signal_owed: "Client_owed ls ss cl \<Longrightarrow> Client_owed ls ss (Client_signal sig cl)"
proof (cases sig)
  case BS_connectedForLogin
  assume "Client_owed ls ss cl"
  then show ?thesis by (simp add: BS_connectedForLogin Client_onConnected_owed)
next
  case BS_connectedForSignup
  assume "Client_owed ls ss cl"
  then show ?thesis by (simp add: BS_connectedForSignup Client_onConnected_owed)
qed (simp_all add: Client_owed_def Client_onLogin_def Client_onSignup_def auth_simps Let_def
    LoginController_handleLoginSuccess_def LoginController_handleLoginFailed_def
    SignupController_handleSignupFailed_def)

lemma Client_signals_owed: "Client_owed ls ss cl \<Longrightarrow> Client_owed ls ss (Client_signals sigs cl)"
  unfolding Client_signals_def by (induction sigs arbitrary: cl) (simp_all add: Client_signal_owed)

lemma Client_owed_connected [simp]: "Client_owed ls ss (cl\<lparr>cl_connected := b\<rparr>) = Client_owed ls ss cl"
  by (simp add: Client_owed_def)

text \<open>A request that waits is put before the requests of the other form are considered.\<close>

lemma Client_login_owed:
  assumes "Client_owed ls ss cl" "i \<noteq> ''''" "pw \<noteq> ''''"
  shows "Client_owed (ls @ [login_text i pw]) ss (Client_onLogin (LoginController_login online i pw) cl)"
proof -
  let ?sent = "sent_texts 0x01 (nb_calls (cl_bridge cl))"
  have waits: "owed ?sent (Some (login_text i pw)) (ls @ [login_text i pw])"
    using assms(1) by (auto simp: Client_owed_def intro: owed_request)
  show ?thesis
    using assms waits owed_sent [OF waits]
    by (simp add: Client_owed_def Client_onLogin_def LoginController_login_def onConnected_cases
        auth_simps Let_def)
qed

lemma Client_signup_owed:
  assumes "Client_owed ls ss cl" "i \<noteq> ''''" "email \<noteq> ''''" "pw \<noteq> ''''"
  shows "Client_owed ls (ss @ [signup_text i email pw])
    (Client_onSignup (SignupController_signup emptyForm online i email pw) cl)"
proof -
  let ?sent = "sent_texts 0x08 (nb_calls (cl_bridge cl))"
  have waits: "owed ?sent (Some (signup_text i email pw)) (ss @ [signup_text i email pw])"
    using assms(1) by (auto simp: Client_owed_def intro: owed_request)
  show ?thesis
    using assms waits owed_sent [OF waits]
    by (simp add: Client_owed_def Client_onSignup_def SignupController_signup_def onConnected_cases
        auth_simps Let_def)
qed

lemma Client_event_owed:
  assumes "Client_owed ls ss cl"
  shows "Client_owed (ls @ login_request e) (ss @ signup_request e) (Client_event Q emptyForm cl e)"
proof (cases e)
  case (CE_login i pw)
  show ?thesis
  proof (cases "i = '''' \<or> pw = ''''")
    case True
    with assms show ?thesis
      by (auto simp: CE_login Client_owed_def Client_onLogin_def LoginController_login_def auth_simps)
  next
    case False
    with Client_login_owed [OF assms] show ?thesis by (simp add: CE_login)
  qed
next
  case (CE_signup i email pw)
  show ?thesis
  proof (cases "i = '''' \<or> email = '''' \<or> pw = ''''")
    case True
    with assms show ?thesis
      by (auto simp: CE_signup Client_owed_def Client_onSignup_def SignupController_signup_def auth_simps)
  next
    case False
    with Client_signup_owed [OF assms] show ?thesis by (simp add: CE_signup)
  qed
next
  case CE_logout
  with assms show ?thesis
    by (auto simp: Client_owed_def Client_onLogin_def LoginController_logout_def Let_def auth_simps
        intro: owed_dropped)
qed (use assms in \<open>simp_all add: Client_signals_owed\<close>)

lemma Client_run_owed:
  "Client_owed ls ss cl \<Longrightarrow>
     Client_owed (ls @ concat (map login_request es)) (ss @ concat (map signup_request es))
       (foldl (Client_event Q emptyForm) cl es)"
proof (induction es arbitrary: ls ss cl)
  case (Cons e es)
  from Cons.IH [OF Client_event_owed [OF Cons.prems, of e Q emptyForm]] show ?case by simp
qed simp

lemma Client_new_owed: "Client_owed [] [] (Client_new host port)"
  by (simp add: Client_owed_def Client_new_def owed_def LoginController_new_def SignupController_new_def
      NetworkBridge_init_def login_pending_def signup_pending_def)

section \<open>Nothing is sent behind a logout\<close>

definition Client_silent :: "Client \<Rightarrow> bool" where
  "Client_silent cl \<longleftrightarrow> lc_pendingId (cl_login cl) = ''''"

lemma pendingId_fields [auth_simps]:
  "lc_pendingId (AuthController_setLoading v lc) = lc_pendingId lc"
  "lc_pendingId (AuthController_setError msg lc) = lc_pendingId lc"
  "lc_pendingId (AuthController_clearError lc) = lc_pendingId lc"
  "lc_pendingId (AuthController_emit sigs lc) = lc_pendingId lc"
  by (simp_all add: AuthController_setLoading_def AuthController_setError_def
      AuthController_clearError_def AuthController_emit_def)

lemma SignupController_logins:
  "SignupController_onConnected (sc, Some b) = (sc', bridge) \<Longrightarrow>
     \<exists>b'. bridge = Some b' \<and> sent_texts 0x01 (nb_calls b') = sent_texts 0x01 (nb_calls b)"
  by (auto simp: onConnected_cases auth_simps split: if_splits)

lemma Client_signal_silent:
  assumes "Client_silent cl"
  shows "Client_silent (Client_signal sig cl) \<and>
    sent_texts 0x01 (nb_calls (cl_bridge (Client_signal sig cl))) = sent_texts 0x01 (nb_calls (cl_bridge cl))"
  using assms
  by (cases sig)
    (auto simp: Client_silent_def Client_onLogin_def Client_onSignup_def onConnected_cases auth_simps Let_def
      LoginController_handleLoginSuccess_def LoginController_handleLoginFailed_def
      SignupController_handleSignupFailed_def)

lemma Client_signals_silent:
  "Client_silent cl \<Longrightarrow> Client_silent (Client_signals sigs cl) \<and>
    sent_texts 0x01 (nb_calls (cl_bridge (Client_signals sigs cl))) = sent_texts 0x01 (nb_calls (cl_bridge cl))"
proof (induction sigs arbitrary: cl)
  case (Cons sig sigs)
  with Client_signal_silent [OF Cons.prems, of sig] show ?case
    by (simp add: Client_signals_def)
qed (simp add: Client_signals_def)

lemma Client_event_silent:
  assumes "Client_silent cl" "login_request e = []"
  shows "Client_silent (Client_event Q emptyForm cl e) \<and>
    sent_texts 0x01 (nb_calls (cl_bridge (Client_event Q emptyForm cl e))) = sent_texts 0x01 (nb_calls (cl_bridge cl))"
proof (cases e)
  case (CE_login i pw)
  with assms show ?thesis
    by (auto simp: Client_silent_def Client_onLogin_def LoginController_login_def auth_simps split: if_splits)
next
  case (CE_signup i email pw)
  with assms show ?thesis
    by (auto simp: Client_silent_def Client_onSignup_def SignupController_signup_def onConnected_cases
        auth_simps Let_def)
next
  case CE_logout
  then show ?thesis
    by (simp add: Client_silent_def Client_onLogin_def LoginController_logout_def Let_def auth_simps)
next
  case (CE_callback cb body)
  with Client_signals_silent [OF assms(1)] show ?thesis by (simp add: CE_callback)
next
  case CE_connected
  have "Client_silent (cl\<lparr>cl_connected := True\<rparr>)" using assms(1) by (simp add: Client_silent_def)
  from Client_signals_silent [OF this] show ?thesis by (simp add: CE_connected)
next
  case CE_dropped
  with assms show ?thesis by (simp add: Client_silent_def)
qed

lemma Client_run_silent:
  "Client_silent cl \<Longrightarrow> concat (map login_request es) = [] \<Longrightarrow>
    sent_texts 0x01 (nb_calls (cl_bridge (foldl (Client_event Q emptyForm) cl es))) =
    sent_texts 0x01 (nb_calls (cl_bridge cl))"
proof (induction es arbitrary: cl)
  case (Cons e es)
  with Client_event_silent [OF Cons.prems(1), of e Q emptyForm] show ?case by simp
qed simp

section \<open>Properties\<close>

text \<open>
  Claim C25. Credentials go out at most once. Whatever the user, the network and the server do, in
  any order, the logins that were sent are a subsequence of the logins the user asked for with an
  id and a password, and the registrations sent are a subsequence of those asked for: none is sent
  twice, none is made up or mixed from two forms, and they keep their order, although both pages
  share one bridge and wait for its connection.\<close>

theorem Client_credentials_once:
  fixes es :: "client_event list"
  defines "calls Q emptyForm host port \<equiv>
    nb_calls (cl_bridge (foldl (Client_event Q emptyForm) (Client_new host port) es))"
  shows "subseq (sent_texts 0x01 (calls Q emptyForm host port)) (concat (map login_request es)) \<and>
    subseq (sent_texts 0x08 (calls Q emptyForm host port)) (concat (map signup_request es))"
  using Client_run_owed [OF Client_new_owed, where es = es and Q = Q and emptyForm = emptyForm]
  by (simp add: Client_owed_def owed_def calls_def)

text \<open>
  Claim C26. A logout forgets the credentials that still wait for a connection: whatever happens
  behind it, registrations and new connections included, no login is sent until the user asks for
  one again.\<close>

theorem Client_logout_forgets:
  assumes "concat (map login_request es') = []"
  shows "sent_texts 0x01 (nb_calls (cl_bridge
      (foldl (Client_event Q emptyForm) (Client_new host port) (es @ CE_logout # es')))) =
    sent_texts 0x01 (nb_calls (cl_bridge (foldl (Client_event Q emptyForm) (Client_new host port) es)))"
proof -
  let ?cl = "foldl (Client_event Q emptyForm) (Client_new host port) es"
  let ?out = "Client_event Q emptyForm ?cl CE_logout"
  have "Client_silent ?out"
    and "sent_texts 0x01 (nb_calls (cl_bridge ?out)) = sent_texts 0x01 (nb_calls (cl_bridge ?cl))"
    by (simp_all add: Client_silent_def Client_onLogin_def LoginController_logout_def Let_def auth_simps)
  with Client_run_silent [OF _ assms, where cl = ?out and Q = Q and emptyForm = emptyForm]
  show ?thesis by (simp del: Client_event.simps)
qed

text \<open>
  A login over a connection that was opened for a registration is never refused on the
  login page: an answer of the server that does not name its context is routed by the purpose the
  connection was opened for, so the page of the registration shows the error, and the login page
  loads on without one.\<close>

theorem Client_login_refusal_misrouted:
  fixes emptyForm
  assumes "cl_connected cl" "Client_purpose cl = ''signup''"
    and "i \<noteq> ''''" "pw \<noteq> ''''" "q_document Q answer = None" "answer \<noteq> ''''"
  defines "cl' \<equiv> foldl (Client_event Q emptyForm) cl [CE_login i pw, CE_callback onLoginFail answer]"
  shows "ac_isLoading (cl_login cl') \<and> \<not> ac_isError (cl_login cl') \<and>
    ac_isError (cl_signup cl') \<and> ac_errorMessage (cl_signup cl') = answer"
proof -
  have same: "last_purpose (calls @ [SV_send t body]) p = last_purpose calls p" for calls p t body
    by (induction calls p rule: last_purpose.induct) auto
  let ?cl = "Client_event Q emptyForm cl (CE_login i pw)"
  have "Client_purpose ?cl = ''signup''" "ac_isLoading (cl_login ?cl) \<and> \<not> ac_isError (cl_login ?cl)"
    using assms
    by (simp_all add: Client_onLogin_def LoginController_login_def Let_def onConnected_cases auth_simps same
        AuthController_setLoading_def AuthController_clearError_def AuthController_emit_def)
  then show ?thesis
    using assms(5,6)
    by (simp add: cl'_def NetworkBridge_callback_def NetworkBridge_onLoginFail_def Client_signals_def
        Client_onSignup_def SignupController_handleSignupFailed_def AuthController_setError_def
        AuthController_emit_def del: Client_event.simps(1))
qed

section \<open>Instances\<close>

theorem Client_logout_forgets_witness:
  "sent_texts 0x01 (nb_calls (cl_bridge
      (foldl (Client_event bridge_example_qt '''') (Client_new ''10.0.0.9'' ''8080'')
        [CE_login ''kim'' ''pw'', CE_logout, CE_signup ''a'' ''b'' ''c'', CE_connected]))) = []"
proof -
  have "sent_texts 0x01 (nb_calls (cl_bridge
      (foldl (Client_event bridge_example_qt '''') (Client_new ''10.0.0.9'' ''8080'') [CE_login ''kim'' ''pw'']))) = []"
    by code_simp
  then show ?thesis
    using Client_logout_forgets [where es = "[CE_login ''kim'' ''pw'']" and Q = bridge_example_qt and
        emptyForm = "''''" and host = "''10.0.0.9''" and port = "''8080''" and
        es' = "[CE_signup ''a'' ''b'' ''c'', CE_connected]"]
    by (simp del: foldl_Cons)
qed

theorem Client_login_refusal_misrouted_witness:
  "ac_isLoading (cl_login (foldl (Client_event (bridge_example_qt\<lparr>q_document := \<lambda>_. None\<rparr>) '''')
      (Client_new ''10.0.0.9'' ''8080'')
      [CE_signup ''a'' ''b'' ''c'', CE_connected, CE_login ''kim'' ''pw'', CE_callback onLoginFail ''no'']))"
proof -
  let ?Q = "bridge_example_qt\<lparr>q_document := \<lambda>_. None\<rparr>"
  let ?cl = "foldl (Client_event ?Q '''') (Client_new ''10.0.0.9'' ''8080'') [CE_signup ''a'' ''b'' ''c'', CE_connected]"
  have "cl_connected ?cl \<and> Client_purpose ?cl = ''signup''"
    by code_simp
  then show ?thesis
    using Client_login_refusal_misrouted [of ?cl "''kim''" "''pw''" ?Q "''no''" "''''"] by simp
qed

end
