(* ===== verification/ThreadPool.thy ===== *)
theory ThreadPool
  imports Json "HOL-Library.Multiset"
begin

text \<open>
  Src/Thread/ThreadPool.hpp and ThreadPool.cpp as a step relation: the clients submit tasks, the
  workers take them from the queue, and the destructor stops the pool. What happens under the
  mutex is one step; running a task is a step of its own, so tasks of different workers overlap.
\<close>

section \<open>State\<close>

text \<open>
  A task is a function the client passes, run as it is, or one that is packaged with a promise.
  \<open>run\<close> below says what a function returns or throws.
\<close>

datatype 'f tp_task = TP_function 'f | TP_packaged nat 'f

datatype 'f tp_worker = TW_waiting | TW_running "'f tp_task" | TW_returned

text \<open>
  Promises are numbered in the order they are made; one that is not set is \<open>None\<close>. The last four
  fields are not part of the program: the tasks that were queued, taken and finished, in order,
  and whether a function was queued behind the stop.
\<close>

record ('f, 'v) ThreadPool =
  tp_queue :: "'f tp_task list"
  tp_stop :: bool
  tp_pool :: "'f tp_worker list"
  tp_promises :: "(exn + 'v) option list"
  tp_terminated :: bool  \<comment> \<open>an exception left a thread: \<open>std::terminate\<close>\<close>
  tp_queued :: "'f tp_task list"
  tp_taken :: "'f tp_task list"
  tp_finished :: "'f tp_task list"
  tp_late :: bool

definition ThreadPool_new :: "nat \<Rightarrow> ('f, 'v) ThreadPool" where
  "ThreadPool_new thread_count =
     (let n = (if thread_count = 0 then 1 else thread_count)
      in \<lparr>tp_queue = [], tp_stop = False, tp_pool = replicate n TW_waiting, tp_promises = [],
          tp_terminated = False, tp_queued = [], tp_taken = [], tp_finished = [], tp_late = False\<rparr>)"

section \<open>Operations\<close>

definition ThreadPool_emplace :: "'f tp_task \<Rightarrow> ('f, 'v) ThreadPool \<Rightarrow> ('f, 'v) ThreadPool" where
  "ThreadPool_emplace t p = p\<lparr>tp_queue := tp_queue p @ [t], tp_queued := tp_queued p @ [t]\<rparr>"

text \<open>The overload for \<open>std::function\<close> does not look at \<open>stop_\<close>.\<close>

definition ThreadPool_Submit :: "'f \<Rightarrow> ('f, 'v) ThreadPool \<Rightarrow> ('f, 'v) ThreadPool" where
  "ThreadPool_Submit f p = (ThreadPool_emplace (TP_function f) p)\<lparr>tp_late := tp_late p \<or> tp_stop p\<rparr>"

text \<open>The template returns a future, here its number, or throws \<open>std::runtime_error\<close>.\<close>

datatype tp_error = SubmitOnStoppedPool

definition ThreadPool_Submit_future ::
  "'f \<Rightarrow> ('f, 'v) ThreadPool \<Rightarrow> ('f, 'v) ThreadPool \<times> (tp_error + nat)" where
  "ThreadPool_Submit_future f p =
     (let k = length (tp_promises p); p1 = p\<lparr>tp_promises := tp_promises p @ [None]\<rparr>
      in if tp_stop p then (p, Inl SubmitOnStoppedPool)
         else (ThreadPool_emplace (TP_packaged k f) p1, Inr k))"

definition ThreadPool_stop :: "('f, 'v) ThreadPool \<Rightarrow> ('f, 'v) ThreadPool" where
  "ThreadPool_stop p = p\<lparr>tp_stop := True\<rparr>"

definition tp_set_worker :: "nat \<Rightarrow> 'f tp_worker \<Rightarrow> ('f, 'v) ThreadPool \<Rightarrow> ('f, 'v) ThreadPool" where
  "tp_set_worker i w p = p\<lparr>tp_pool := (tp_pool p)[i := w]\<rparr>"

text \<open>
  The loop of worker \<open>i\<close>, up to the next wait or task: \<open>None\<close> while the predicate of the wait is
  false.
\<close>

definition ThreadPool_WorkLoop :: "nat \<Rightarrow> ('f, 'v) ThreadPool \<Rightarrow> ('f, 'v) ThreadPool option" where
  "ThreadPool_WorkLoop i p =
     (if \<not> (tp_stop p \<or> tp_queue p \<noteq> []) then None
      else
        case tp_queue p of
          [] \<Rightarrow> Some (tp_set_worker i TW_returned p)
        | t # q \<Rightarrow> Some (tp_set_worker i (TW_running t) (p\<lparr>tp_queue := q, tp_taken := tp_taken p @ [t]\<rparr>)))"

text \<open>Running a task: a packaged one keeps the value or the exception, a plain one may throw.\<close>

definition ThreadPool_run :: "('f \<Rightarrow> exn + 'v) \<Rightarrow> nat \<Rightarrow> 'f tp_task \<Rightarrow> ('f, 'v) ThreadPool \<Rightarrow> ('f, 'v) ThreadPool" where
  "ThreadPool_run run i t p =
     (case t of
        TP_function f \<Rightarrow>
          (case run f of
             Inl _ \<Rightarrow> p\<lparr>tp_terminated := True\<rparr>
           | Inr _ \<Rightarrow> tp_set_worker i TW_waiting (p\<lparr>tp_finished := tp_finished p @ [t]\<rparr>))
      | TP_packaged k f \<Rightarrow>
          tp_set_worker i TW_waiting
            (p\<lparr>tp_promises := (tp_promises p)[k := Some (run f)], tp_finished := tp_finished p @ [t]\<rparr>))"

section \<open>Steps\<close>

inductive tp_work :: "('f \<Rightarrow> exn + 'v) \<Rightarrow> ('f, 'v) ThreadPool \<Rightarrow> ('f, 'v) ThreadPool \<Rightarrow> bool"
  for run :: "'f \<Rightarrow> exn + 'v" where
  loop: "\<not> tp_terminated p \<Longrightarrow> i < length (tp_pool p) \<Longrightarrow> tp_pool p ! i = TW_waiting \<Longrightarrow>
     ThreadPool_WorkLoop i p = Some p' \<Longrightarrow> tp_work run p p'"
| task: "\<not> tp_terminated p \<Longrightarrow> i < length (tp_pool p) \<Longrightarrow> tp_pool p ! i = TW_running t \<Longrightarrow>
     tp_work run p (ThreadPool_run run i t p)"

inductive tp_step :: "('f \<Rightarrow> exn + 'v) \<Rightarrow> ('f, 'v) ThreadPool \<Rightarrow> ('f, 'v) ThreadPool \<Rightarrow> bool"
  for run :: "'f \<Rightarrow> exn + 'v" where
  worker: "tp_work run p p' \<Longrightarrow> tp_step run p p'"
| submit: "\<not> tp_terminated p \<Longrightarrow> tp_step run p (ThreadPool_Submit f p)"
| submit_future: "\<not> tp_terminated p \<Longrightarrow> tp_step run p (fst (ThreadPool_Submit_future f p))"
| stop: "\<not> tp_terminated p \<Longrightarrow> tp_step run p (ThreadPool_stop p)"

inductive tp_reachable :: "('f \<Rightarrow> exn + 'v) \<Rightarrow> nat \<Rightarrow> ('f, 'v) ThreadPool \<Rightarrow> bool"
  for run :: "'f \<Rightarrow> exn + 'v" and n :: nat where
  init: "tp_reachable run n (ThreadPool_new n)"
| step: "tp_reachable run n p \<Longrightarrow> tp_step run p p' \<Longrightarrow> tp_reachable run n p'"

inductive_cases tp_workE: "tp_work run p p'"
inductive_cases tp_stepE: "tp_step run p p'"

section \<open>Invariant\<close>

text \<open>The tasks that are running.\<close>

fun tw_tasks :: "'f tp_worker \<Rightarrow> 'f tp_task list" where
  "tw_tasks (TW_running t) = [t]"
| "tw_tasks _ = []"

abbreviation tp_running :: "('f, 'v) ThreadPool \<Rightarrow> 'f tp_task multiset" where
  "tp_running p \<equiv> mset (concat (map tw_tasks (tp_pool p)))"

text \<open>The number of the promise of a packaged task.\<close>

fun task_promise :: "'f tp_task \<Rightarrow> nat list" where
  "task_promise (TP_packaged k f) = [k]"
| "task_promise _ = []"

definition tp_inv :: "('f \<Rightarrow> exn + 'v) \<Rightarrow> ('f, 'v) ThreadPool \<Rightarrow> bool" where
  "tp_inv run p \<longleftrightarrow>
     tp_queued p = tp_taken p @ tp_queue p \<and>
     mset (tp_taken p) = mset (tp_finished p) + tp_running p \<and>
     concat (map task_promise (tp_queued p)) = [0..<length (tp_promises p)] \<and>
     (\<forall>k f. TP_packaged k f \<in> set (tp_finished p) \<longrightarrow> tp_promises p ! k = Some (run f)) \<and>
     (TW_returned \<in> set (tp_pool p) \<longrightarrow> tp_stop p \<and> (tp_queue p = [] \<or> tp_late p)) \<and>
     tp_pool p \<noteq> []"

text \<open>Setting a worker exchanges its task among those that run.\<close>

lemma running_update:
  "i < length ws \<Longrightarrow>
     mset (concat (map tw_tasks (ws[i := w]))) + mset (tw_tasks (ws ! i)) =
     mset (concat (map tw_tasks ws)) + mset (tw_tasks w)"
proof (induction ws arbitrary: i)
  case (Cons x ws)
  show ?case
  proof (cases i)
    case (Suc j)
    with Cons.prems Cons.IH [of j] show ?thesis by (simp add: add.left_commute add.commute)
  qed (simp add: add.commute add.left_commute)
qed simp

lemma running_start:
  "i < length (tp_pool p) \<Longrightarrow> tp_pool p ! i = TW_waiting \<Longrightarrow>
     mset (concat (map tw_tasks ((tp_pool p)[i := w]))) = tp_running p + mset (tw_tasks w)"
  using running_update [of i "tp_pool p" w] by simp

lemma running_end:
  "i < length (tp_pool p) \<Longrightarrow> tp_pool p ! i = TW_running t \<Longrightarrow>
     tp_running p = add_mset t (mset (concat (map tw_tasks ((tp_pool p)[i := TW_waiting]))))"
  using running_update [of i "tp_pool p" TW_waiting] by simp

lemma tp_inv_new: "tp_inv run (ThreadPool_new n)"
proof -
  have "concat (map tw_tasks (replicate m TW_waiting)) = []" for m by (induction m) simp_all
  then show ?thesis by (simp add: tp_inv_def ThreadPool_new_def Let_def)
qed

lemma tp_inv_submit: "tp_inv run p \<Longrightarrow> tp_inv run (ThreadPool_Submit f p)"
  by (auto simp: tp_inv_def ThreadPool_Submit_def ThreadPool_emplace_def)

lemma tp_inv_promises: "tp_inv run p \<Longrightarrow> concat (map task_promise (tp_queued p)) = [0..<length (tp_promises p)]"
  unfolding tp_inv_def by blast

lemma tp_finished_promise:
  assumes "tp_inv run p" "TP_packaged k f \<in> set (tp_taken p)"
  shows "k < length (tp_promises p)"
proof -
  have "k \<in> set (concat (map task_promise (tp_queued p)))"
    using assms by (force simp: tp_inv_def)
  then show ?thesis unfolding tp_inv_promises [OF assms(1)] by simp
qed

lemma tp_finished_taken: "tp_inv run p \<Longrightarrow> t \<in> set (tp_finished p) \<Longrightarrow> t \<in> set (tp_taken p)"
proof -
  assume "tp_inv run p" "t \<in> set (tp_finished p)"
  then have "t \<in># mset (tp_taken p)" by (simp add: tp_inv_def)
  then show ?thesis by simp
qed

lemma tp_inv_submit_future:
  assumes "tp_inv run p"
  shows "tp_inv run (fst (ThreadPool_Submit_future f p))"
  using assms tp_finished_promise [OF assms tp_finished_taken [OF assms]]
  by (auto simp: tp_inv_def ThreadPool_Submit_future_def ThreadPool_emplace_def Let_def nth_append)

lemma tp_inv_stop: "tp_inv run p \<Longrightarrow> tp_inv run (ThreadPool_stop p)"
  by (auto simp: tp_inv_def ThreadPool_stop_def)

lemma set_worker_returned:
  "w \<noteq> TW_returned \<Longrightarrow> TW_returned \<in> set (ws[i := w]) \<Longrightarrow> TW_returned \<in> set ws"
  by (auto dest: set_update_subset_insert [THEN subsetD])

lemma tp_inv_loop:
  assumes "tp_inv run p" "i < length (tp_pool p)" "tp_pool p ! i = TW_waiting"
    and "ThreadPool_WorkLoop i p = Some p'"
  shows "tp_inv run p'"
proof (cases "tp_queue p")
  case Nil
  with assms show ?thesis
    by (auto simp: tp_inv_def ThreadPool_WorkLoop_def tp_set_worker_def running_start split: if_splits)
next
  case (Cons t q)
  with assms show ?thesis
    by (auto simp: tp_inv_def ThreadPool_WorkLoop_def tp_set_worker_def running_start
        dest: set_worker_returned [rotated])
qed

text \<open>Two packaged tasks never share a promise: each number was given once.\<close>

lemma promise_unique:
  "distinct (concat (map task_promise ts)) \<Longrightarrow> TP_packaged k f \<in> set ts \<Longrightarrow> TP_packaged k g \<in> set ts \<Longrightarrow> f = g"
proof (induction ts)
  case (Cons t ts)
  have "k \<in> set (concat (map task_promise ts))" if "TP_packaged k h \<in> set ts" for h
    using that by force
  with Cons show ?case by auto
qed simp

lemma tp_inv_run:
  assumes "tp_inv run p" "i < length (tp_pool p)" "tp_pool p ! i = TW_running t"
  shows "tp_inv run (ThreadPool_run run i t p)"
proof -
  have running: "t \<in># tp_running p"
    by (simp add: running_end [OF assms(2,3)])
  then have taken: "t \<in> set (tp_taken p)"
    using assms(1) by (metis (no_types, lifting) tp_inv_def set_mset_mset union_iff)
  show ?thesis
  proof (cases t)
    case (TP_function f)
    with assms running_end [OF assms(2,3)] show ?thesis
      by (auto simp: tp_inv_def ThreadPool_run_def tp_set_worker_def split: sum.split
          dest: set_worker_returned [rotated])
  next
    case (TP_packaged k f)
    have k: "k < length (tp_promises p)"
      using tp_finished_promise [OF assms(1)] taken TP_packaged by simp
    have same: "g = f" if "TP_packaged k g \<in> set (tp_finished p)" for g
    proof (rule promise_unique)
      show "distinct (concat (map task_promise (tp_queued p)))"
        unfolding tp_inv_promises [OF assms(1)] by simp
      show "TP_packaged k g \<in> set (tp_queued p)"
        using tp_finished_taken [OF assms(1) that] assms(1) by (simp add: tp_inv_def)
      show "TP_packaged k f \<in> set (tp_queued p)"
        using taken TP_packaged assms(1) by (simp add: tp_inv_def)
    qed
    with k TP_packaged assms running_end [OF assms(2,3)] show ?thesis
      by (auto simp: tp_inv_def ThreadPool_run_def tp_set_worker_def nth_list_update
          dest: set_worker_returned [rotated])
  qed
qed

lemma tp_work_inv: "tp_work run p p' \<Longrightarrow> tp_inv run p \<Longrightarrow> tp_inv run p'"
  by (cases rule: tp_work.cases) (auto intro: tp_inv_loop tp_inv_run)

lemma tp_step_inv: "tp_step run p p' \<Longrightarrow> tp_inv run p \<Longrightarrow> tp_inv run p'"
  by (cases rule: tp_step.cases)
    (auto intro: tp_work_inv tp_inv_submit tp_inv_submit_future tp_inv_stop)

lemma tp_reachable_inv: "tp_reachable run n p \<Longrightarrow> tp_inv run p"
  by (induction rule: tp_reachable.induct) (auto intro: tp_inv_new tp_step_inv)

section \<open>Shutting down\<close>

text \<open>
  What the workers still have to do once nothing more is submitted: each queued task is taken and
  run, each running one ends, each waiting worker returns.
\<close>

fun tw_work :: "'f tp_worker \<Rightarrow> nat" where
  "tw_work TW_waiting = 1"
| "tw_work (TW_running t) = 2"
| "tw_work TW_returned = 0"

definition tp_work_left :: "('f, 'v) ThreadPool \<Rightarrow> nat" where
  "tp_work_left p =
     (if tp_terminated p then 0 else 1 + 2 * length (tp_queue p) + sum_list (map tw_work (tp_pool p)))"

lemma work_update:
  "i < length ws \<Longrightarrow>
     sum_list (map tw_work (ws[i := w])) + tw_work (ws ! i) = sum_list (map tw_work ws) + tw_work w"
proof (induction ws arbitrary: i)
  case (Cons x ws)
  then show ?case by (cases i) (auto simp: add.left_commute add.commute)
qed simp

lemma tp_work_decreases: "tp_work run p p' \<Longrightarrow> tp_work_left p' < tp_work_left p"
proof (induction rule: tp_work.induct)
  case (loop p i p')
  then show ?case
    using work_update [of i "tp_pool p" TW_returned] work_update [of i "tp_pool p" "TW_running t" for t]
    by (auto simp: ThreadPool_WorkLoop_def tp_set_worker_def tp_work_left_def split: if_splits list.splits)
next
  case (task p i t)
  then show ?case
    using work_update [of i "tp_pool p" TW_waiting]
    by (auto simp: ThreadPool_run_def tp_set_worker_def tp_work_left_def split: tp_task.split sum.split)
qed

lemma tp_work_stop: "tp_work run p p' \<Longrightarrow> tp_stop p' = tp_stop p"
  by (erule tp_work.cases)
    (auto simp: ThreadPool_WorkLoop_def tp_set_worker_def ThreadPool_run_def
      split: if_splits list.splits tp_task.splits sum.splits)

text \<open>A pool that is stopped and where no worker can go on has no worker left, or has terminated.\<close>

lemma tp_stuck_returned:
  assumes "tp_stop p" "\<And>p'. \<not> tp_work run p p'" "\<not> tp_terminated p"
  shows "list_all (\<lambda>w. w = TW_returned) (tp_pool p)"
proof (rule ccontr)
  assume "\<not> ?thesis"
  then obtain i where i: "i < length (tp_pool p)" "tp_pool p ! i \<noteq> TW_returned"
    by (auto simp: list_all_length)
  show False
  proof (cases "tp_pool p ! i")
    case TW_waiting
    have "\<exists>p'. ThreadPool_WorkLoop i p = Some p'"
      using assms(1) by (auto simp: ThreadPool_WorkLoop_def split: list.split)
    with assms(2,3) i(1) TW_waiting show False by (blast intro: tp_work.loop)
  next
    case (TW_running t)
    with assms(2,3) i(1) show False by (blast intro: tp_work.task)
  qed (use i in simp)
qed

lemma tp_work_bound: "(tp_work run ^^ k) p p' \<Longrightarrow> k + tp_work_left p' \<le> tp_work_left p"
proof (induction k arbitrary: p')
  case (Suc k)
  then obtain p1 where "(tp_work run ^^ k) p p1" "tp_work run p1 p'" by auto
  with Suc.IH [of p1] tp_work_decreases [of run p1 p'] show ?case by simp
qed simp

lemma tp_running_taken:
  assumes "tp_inv run p" "i < length (tp_pool p)" "tp_pool p ! i = TW_running t"
  shows "t \<in> set (tp_taken p)"
proof -
  have "t \<in># tp_running p"
    by (simp add: running_end [OF assms(2,3)])
  with assms(1) show ?thesis
    by (metis (no_types, lifting) tp_inv_def set_mset_mset union_iff)
qed

lemma tp_work_fields:
  "tp_work run p p' \<Longrightarrow> tp_late p' = tp_late p \<and> tp_queued p' = tp_queued p"
  by (erule tp_work.cases)
    (auto simp: ThreadPool_WorkLoop_def tp_set_worker_def ThreadPool_run_def
      split: if_splits list.splits tp_task.splits sum.splits)

text \<open>Only a plain function that throws ends the program.\<close>

lemma tp_work_terminated:
  assumes "tp_work run p p'" "tp_inv run p" "tp_terminated p'"
  shows "\<exists>f. TP_function f \<in> set (tp_queued p) \<and> \<not> returned (run f)"
  using assms
proof (induction rule: tp_work.induct)
  case (loop p i p')
  then show ?case
    by (auto simp: ThreadPool_WorkLoop_def tp_set_worker_def split: if_splits list.splits)
next
  case (task p i t)
  have "t \<in> set (tp_queued p)"
    using tp_running_taken [OF task.prems(1) task.hyps(2,3)] task.prems(1) by (simp add: tp_inv_def)
  with task show ?case
    by (auto simp: ThreadPool_run_def tp_set_worker_def returned_def split: tp_task.splits sum.splits)
qed

text \<open>The worker steps from a stopped pool, to the end.\<close>

lemma tp_works:
  assumes "(tp_work run)\<^sup>*\<^sup>* p p'" "tp_inv run p" "\<not> tp_terminated p"
    and "\<forall>f. TP_function f \<in> set (tp_queued p) \<longrightarrow> returned (run f)"
  shows "tp_inv run p' \<and> tp_stop p' = tp_stop p \<and> tp_late p' = tp_late p \<and> tp_queued p' = tp_queued p \<and>
    \<not> tp_terminated p'"
  using assms
proof (induction rule: rtranclp_induct)
  case (step p1 p2)
  then show ?case
    using tp_work_inv [of run p1 p2] tp_work_stop [of run p1 p2] tp_work_fields [of run p1 p2]
      tp_work_terminated [of run p1 p2] by auto
qed simp

section \<open>Properties\<close>

text \<open>
  Claim C27. The pool runs every task once, in order of submission. In every reachable state of any
  number of clients and workers the tasks taken so far are the first that were queued and the
  queue holds the others in order; each task that was taken is running on one worker or has
  finished, not both and not twice; and the future of a packaged task that has finished holds
  what its own function returned or threw.\<close>

theorem ThreadPool_runs_once_in_order:
  assumes "tp_reachable run n p"
  shows "tp_queued p = tp_taken p @ tp_queue p \<and>
    mset (tp_taken p) = mset (tp_finished p) + mset (concat (map tw_tasks (tp_pool p))) \<and>
    (\<forall>k f. TP_packaged k f \<in> set (tp_finished p) \<longrightarrow> tp_promises p ! k = Some (run f))"
  using tp_reachable_inv [OF assms] by (auto simp: tp_inv_def)

text \<open>
  Claim C28. The destructor returns, and drains the queue. Once the pool is stopped, its workers
  take no more than a bounded number of steps, whichever of them goes on; and where none can go
  on, all have returned, so the joins end, every task that was queued has been run to its end, and
  every future is set. The functions queued without a future must not throw, and none may be
  queued behind the stop, which that overload does not refuse.\<close>

theorem ThreadPool_drains:
  assumes "tp_reachable run n p" "tp_stop p" "\<not> tp_late p" "\<not> tp_terminated p"
    and "\<forall>f. TP_function f \<in> set (tp_queued p) \<longrightarrow> returned (run f)"
  shows "(\<forall>k p'. (tp_work run ^^ k) p p' \<longrightarrow> k \<le> tp_work_left p) \<and>
    (\<forall>p'. (tp_work run)\<^sup>*\<^sup>* p p' \<and> (\<forall>p''. \<not> tp_work run p' p'') \<longrightarrow>
       list_all (\<lambda>w. w = TW_returned) (tp_pool p') \<and> tp_queue p' = [] \<and>
       mset (tp_finished p') = mset (tp_queued p) \<and>
       (\<forall>k f. TP_packaged k f \<in> set (tp_queued p) \<longrightarrow> tp_promises p' ! k = Some (run f)))"
proof (intro conjI allI impI; (elim conjE)?)
  show "k \<le> tp_work_left p" if "(tp_work run ^^ k) p p'" for k p'
    using tp_work_bound [OF that] by simp
next
  fix p' assume run: "(tp_work run)\<^sup>*\<^sup>* p p'" and stuck: "\<forall>p''. \<not> tp_work run p' p''"
  note p' = tp_works [OF run tp_reachable_inv [OF assms(1)] assms(4,5)]
  show returned: "list_all (\<lambda>w. w = TW_returned) (tp_pool p')"
    using tp_stuck_returned [of p' run] p' assms(2) stuck by simp
  then have idle: "concat (map tw_tasks (tp_pool p')) = []"
    by (auto simp: list_all_iff)
  from returned p' have "TW_returned \<in> set (tp_pool p')"
    by (cases "tp_pool p'") (auto simp: tp_inv_def)
  with p' assms(3) show empty: "tp_queue p' = []"
    by (auto simp: tp_inv_def)
  from p' have "tp_queued p' = tp_taken p' @ tp_queue p'"
    and "mset (tp_taken p') = mset (tp_finished p') + tp_running p'"
    unfolding tp_inv_def by blast+
  with p' idle empty show all: "mset (tp_finished p') = mset (tp_queued p)"
    by simp
  show "tp_promises p' ! k = Some (run f)" if "TP_packaged k f \<in> set (tp_queued p)" for k f
  proof -
    have "TP_packaged k f \<in> set (tp_finished p')"
      using that all by (metis set_mset_mset)
    with p' show ?thesis by (simp add: tp_inv_def)
  qed
qed

text \<open>
  A function that is queued without a future after the workers have returned is never run: no
  step of a worker is left.\<close>

theorem ThreadPool_late_function_lost:
  assumes "list_all (\<lambda>w. w = TW_returned) (tp_pool p)"
  shows "TP_function f \<in> set (tp_queue (ThreadPool_Submit f p)) \<and> \<not> tp_work run (ThreadPool_Submit f p) p'"
proof -
  have "tp_pool (ThreadPool_Submit f p) = tp_pool p"
    by (simp add: ThreadPool_Submit_def ThreadPool_emplace_def)
  with assms show ?thesis
    by (auto simp: ThreadPool_Submit_def ThreadPool_emplace_def list_all_length elim!: tp_workE)
qed

section \<open>Instances\<close>

text \<open>One worker; the function 0 throws, the others return their number.\<close>

definition example_run :: "nat \<Rightarrow> exn + nat" where
  "example_run f = (if f = 0 then Inl (TypeError 302) else Inr f)"

definition example_pool :: "nat \<Rightarrow> (nat, nat) ThreadPool" where
  "example_pool f = fst (ThreadPool_Submit_future f (ThreadPool_new 1))"

definition example_taken :: "nat \<Rightarrow> (nat, nat) ThreadPool" where
  "example_taken f = the (ThreadPool_WorkLoop 0 (example_pool f))"

lemmas example_defs = example_pool_def example_taken_def ThreadPool_Submit_future_def ThreadPool_new_def
  ThreadPool_emplace_def ThreadPool_WorkLoop_def ThreadPool_run_def tp_set_worker_def ThreadPool_stop_def
  example_run_def

lemma example_reachable:
  "tp_reachable example_run 1 (example_pool f)"
  "tp_reachable example_run 1 (ThreadPool_run example_run 0 (TP_packaged 0 f) (example_taken f))"
proof -
  show pool: "tp_reachable example_run 1 (example_pool f)"
    unfolding example_pool_def
    by (intro tp_reachable.step [OF tp_reachable.init] tp_step.submit_future) (simp add: ThreadPool_new_def)
  have "tp_work example_run (example_pool f) (example_taken f)"
    by (rule tp_work.loop [of _ 0]) (simp_all add: example_defs)
  moreover have "tp_work example_run (example_taken f)
      (ThreadPool_run example_run 0 (TP_packaged 0 f) (example_taken f))"
    by (rule tp_work.task) (simp_all add: example_defs)
  ultimately show "tp_reachable example_run 1 (ThreadPool_run example_run 0 (TP_packaged 0 f) (example_taken f))"
    using pool by (meson tp_reachable.step tp_step.worker)
qed

theorem ThreadPool_runs_once_in_order_witness:
  "\<exists>p :: (nat, nat) ThreadPool. tp_finished p = [TP_packaged 0 0] \<and>
     tp_promises p ! 0 = Some (Inl (TypeError 302)) \<and> tp_queued p = tp_taken p @ tp_queue p"
proof -
  let ?p = "ThreadPool_run example_run 0 (TP_packaged 0 0) (example_taken 0)"
  have "tp_finished ?p = [TP_packaged 0 0]"
    by (simp add: example_defs)
  with ThreadPool_runs_once_in_order [OF example_reachable(2) [of 0]] show ?thesis
    by (intro exI [of _ ?p]) (simp add: example_run_def)
qed

theorem ThreadPool_drains_witness:
  "let p = ThreadPool_stop (example_pool 7);
       p' = the (ThreadPool_WorkLoop 0 (ThreadPool_run example_run 0 (TP_packaged 0 7)
              (the (ThreadPool_WorkLoop 0 p))))
   in tp_pool p' = [TW_returned] \<and> tp_promises p' ! 0 = Some (Inr 7)"
proof -
  let ?p = "ThreadPool_stop (example_pool 7)"
  let ?p1 = "the (ThreadPool_WorkLoop 0 ?p)"
  let ?p2 = "ThreadPool_run example_run 0 (TP_packaged 0 7) ?p1"
  let ?p3 = "the (ThreadPool_WorkLoop 0 ?p2)"
  have reachable: "tp_reachable example_run 1 ?p"
    by (rule tp_reachable.step [OF example_reachable(1) [of 7] tp_step.stop]) (simp add: example_defs)
  have "tp_work example_run ?p ?p1"
    by (rule tp_work.loop [of _ 0]) (simp_all add: example_defs)
  moreover have "tp_work example_run ?p1 ?p2"
    by (rule tp_work.task) (simp_all add: example_defs)
  moreover have "tp_work example_run ?p2 ?p3"
    by (rule tp_work.loop [of _ 0]) (simp_all add: example_defs)
  ultimately have run: "(tp_work example_run)\<^sup>*\<^sup>* ?p ?p3"
    by (meson converse_rtranclp_into_rtranclp rtranclp.rtrancl_refl)
  have pool: "tp_pool ?p3 = [TW_returned]"
    by (simp add: example_defs)
  then have stuck: "\<forall>p''. \<not> tp_work example_run ?p3 p''"
    by (auto elim!: tp_workE)
  have queued: "tp_stop ?p" "\<not> tp_late ?p" "\<not> tp_terminated ?p" "tp_queued ?p = [TP_packaged 0 7]"
    by (simp_all add: example_defs)
  then have "tp_promises ?p3 ! 0 = Some (example_run 7)"
    using ThreadPool_drains [OF reachable] run stuck by simp
  with pool show ?thesis
    by (simp add: Let_def example_run_def)
qed

end
