(* ===== verification/NetworkService.thy ===== *)
theory NetworkService
  imports TcpSession UdpSession
begin

text \<open>
  Src/Network/NetworkService.hpp and NetworkService.cpp, with the interface of
  INetworkService.hpp: one connection to the server, its image session, and the strand both are
  driven by. The state has the members of the class, the tasks that are posted to the strand, in
  order, and what is outstanding on the sockets. Everything the io thread does is an event, so
  are the calls of the other threads; the events come in any order.
\<close>

section \<open>State\<close>

datatype ns_task =
    NT_connect string string
  | NT_message Message
  | NT_disconnected
  | NT_connected
  | NT_imageMeta string
  | NT_send byte string
  | NT_teardown

text \<open>
  \<open>ns_session\<close> and \<open>ns_udp\<close> are the objects, kept alive by what is outstanding on their sockets;
  \<open>ns_session_set\<close> says that \<open>session_\<close> still points to the one, and \<open>ns_orphans\<close> counts the
  image sessions whose pointer was reset while they receive. \<open>ns_sends\<close> is what \<open>sendMessage\<close>
  posted to the strand of the session. The last two fields are not part of the program: the
  messages the session handed over and the callbacks the processor called.
\<close>

record ('e, 'd) NetworkService =
  ns_running :: bool  \<comment> \<open>\<open>io_context_\<close>, \<open>strand_\<close> and the thread exist\<close>
  ns_stopping :: bool  \<comment> \<open>\<open>disconnect\<close> waits in \<open>join\<close>\<close>
  ns_connected :: bool
  ns_processor :: bool
  ns_tasks :: "ns_task list"
  ns_connecting :: bool
  ns_session :: "'e TcpSession option"
  ns_session_set :: bool
  ns_sends :: "Message list"
  ns_udp :: "'d UdpSession option"
  ns_receiving :: bool  \<comment> \<open>a receive of \<open>ns_udp\<close> is outstanding\<close>
  ns_orphans :: nat
  ns_received :: "Message list"
  ns_delivered :: "(NetworkCallback \<times> string) list"

definition NetworkService_new :: "('e, 'd) NetworkService" where
  "NetworkService_new =
     \<lparr>ns_running = False, ns_stopping = False, ns_connected = False, ns_processor = False, ns_tasks = [],
      ns_connecting = False, ns_session = None, ns_session_set = False, ns_sends = [], ns_udp = None,
      ns_receiving = False, ns_orphans = 0, ns_received = [], ns_delivered = []\<rparr>"

text \<open>
  The outside: the OpenSSL engines, the sessions a new context gives, the resolver, the port the
  system binds, and the text of \<open>{"port": n}\<close> from the JSON library; and which callbacks are set.
\<close>

record ('e, 'd) ns_env =
  ne_tls :: "'e ssl_ops"
  ne_dtls :: "'d ssl_ops"
  ne_media :: "'d ssl_session"
  ne_resolves :: "string \<Rightarrow> string \<Rightarrow> bool"
  ne_port :: "16 word"
  ne_dump_port :: "16 word \<Rightarrow> string"
  ne_callbacks :: "NetworkCallback \<Rightarrow> bool"
  ne_onConnected :: bool
  ne_onImageData :: bool

datatype ns_out =
    NO_callback NetworkCallback string
  | NO_onConnected
  | NO_onImageData bytes string
  | NO_write bytes
  | NO_udp_send endpoint bytes

text \<open>The handlers \<open>connect\<close> gives to a session are all set, and so is the wrapped \<open>onImageMeta\<close>.\<close>

definition ns_handlers :: tcp_handlers where
  "ns_handlers = \<lparr>th_message = True, th_disconnect = True, th_connected = True\<rparr>"

definition ns_wrapped :: "('e, 'd) ns_env \<Rightarrow> NetworkCallback \<Rightarrow> bool" where
  "ns_wrapped E = (ne_callbacks E)(onImageMeta := True)"

section \<open>Operations\<close>

definition ns_post :: "ns_task list \<Rightarrow> ('e, 'd) NetworkService \<Rightarrow> ('e, 'd) NetworkService" where
  "ns_post ts st = st\<lparr>ns_tasks := ns_tasks st @ ts\<rparr>"

definition NetworkService_send :: "byte \<Rightarrow> string \<Rightarrow> ('e, 'd) NetworkService \<Rightarrow> ('e, 'd) NetworkService" where
  "NetworkService_send ty body st = (if ns_running st then ns_post [NT_send ty body] st else st)"

text \<open>What is posted for what the session does; the rest goes to the socket.\<close>

fun ns_tcp_tasks :: "tcp_out \<Rightarrow> ns_task list" where
  "ns_tcp_tasks (TCP_onMessage msg) = [NT_message msg]"
| "ns_tcp_tasks TCP_onConnected = [NT_connected]"
| "ns_tcp_tasks TCP_onDisconnect = [NT_disconnected]"
| "ns_tcp_tasks (TCP_write bs) = []"
| "ns_tcp_tasks TCP_close = []"

fun ns_tcp_writes :: "tcp_out \<Rightarrow> ns_out list" where
  "ns_tcp_writes (TCP_write bs) = [NO_write bs]"
| "ns_tcp_writes _ = []"

fun task_messages :: "ns_task \<Rightarrow> Message list" where
  "task_messages (NT_message msg) = [msg]"
| "task_messages _ = []"

definition ns_session_outs ::
  "'e TcpSession \<times> tcp_out list \<Rightarrow> ('e, 'd) NetworkService \<Rightarrow> ('e, 'd) NetworkService \<times> ns_out list" where
  "ns_session_outs = (\<lambda>(s, outs) st.
     let tasks = concat (map ns_tcp_tasks outs)
     in (ns_post tasks (st\<lparr>ns_session := Some s, ns_received := ns_received st @ concat (map task_messages tasks)\<rparr>),
         concat (map ns_tcp_writes outs)))"

text \<open>The completion of \<open>async_connect\<close>; \<open>tls\<close> is the session over the new context, if there is one.\<close>

definition NetworkService_onConnect ::
  "('e, 'd) ns_env \<Rightarrow> 'e ssl_session option \<Rightarrow> ('e, 'd) NetworkService \<Rightarrow> ('e, 'd) NetworkService \<times> ns_out list" where
  "NetworkService_onConnect E tls st =
     ns_session_outs (TcpSession_start (ne_tls E) ns_handlers (TcpSession_new tls))
       (st\<lparr>ns_connecting := False, ns_session_set := True\<rparr>)"

text \<open>The wrapped \<open>onImageMeta\<close>, posted to the strand.\<close>

definition NetworkService_onImageMeta ::
  "('e, 'd) ns_env \<Rightarrow> string \<Rightarrow> ('e, 'd) NetworkService \<Rightarrow> ('e, 'd) NetworkService \<times> ns_out list" where
  "NetworkService_onImageMeta E jsonStr st =
     (let udp = (case ns_udp st of None \<Rightarrow> UdpSession_new (ne_media E) | Some u \<Rightarrow> u);
          st1 = st\<lparr>ns_udp := Some (UdpSession_setExpectedMeta jsonStr udp),
                  ns_receiving := ns_udp st = None \<or> ns_receiving st\<rparr>
      in (NetworkService_send (MessageType_byte IMAGE) (ne_dump_port E (ne_port E)) st1,
          if ne_callbacks E onImageMeta then [NO_callback onImageMeta jsonStr] else []))"

text \<open>The callbacks the processor calls: the wrapped one posts, the others go out.\<close>

definition NetworkService_process ::
  "('e, 'd) ns_env \<Rightarrow> Message \<Rightarrow> ('e, 'd) NetworkService \<Rightarrow> ('e, 'd) NetworkService \<times> ns_out list" where
  "NetworkService_process E msg st =
     (let calls = MessageProcessor_processMessage (ns_wrapped E) msg
      in (ns_post (map (NT_imageMeta \<circ> snd) (filter (\<lambda>c. fst c = onImageMeta) calls))
            (st\<lparr>ns_delivered := ns_delivered st @ calls\<rparr>),
          map (\<lambda>(cb, s). NO_callback cb s) (filter (\<lambda>c. fst c \<noteq> onImageMeta) calls)))"

text \<open>\<open>None\<close>: the resolver throws in the io thread, and the program ends.\<close>

definition NetworkService_task ::
  "('e, 'd) ns_env \<Rightarrow> ns_task \<Rightarrow> ('e, 'd) NetworkService \<Rightarrow> (('e, 'd) NetworkService \<times> ns_out list) option" where
  "NetworkService_task E t st =
     (case t of
        NT_connect host port \<Rightarrow>
          if ne_resolves E host port then Some (st\<lparr>ns_connecting := True\<rparr>, []) else None
      | NT_message msg \<Rightarrow> Some (if ns_processor st then NetworkService_process E msg st else (st, []))
      | NT_disconnected \<Rightarrow> Some (st\<lparr>ns_connected := False\<rparr>, [])
      | NT_connected \<Rightarrow>
          Some (st\<lparr>ns_connected := True\<rparr>, if ne_onConnected E then [NO_onConnected] else [])
      | NT_imageMeta jsonStr \<Rightarrow> Some (NetworkService_onImageMeta E jsonStr st)
      | NT_send ty body \<Rightarrow>
          Some (if \<not> ns_session_set st \<or> \<not> ns_connected st then (st, [])
                else (st\<lparr>ns_sends := ns_sends st @
                        [\<lparr>msg_type = ty, msg_length = of_nat (length body), msg_payload = string_bytes body\<rparr>]\<rparr>, []))
      | NT_teardown \<Rightarrow>
          Some (st\<lparr>ns_connected := False, ns_session_set := False, ns_processor := False, ns_udp := None,
                   ns_receiving := False,
                   ns_orphans := ns_orphans st + (if ns_udp st \<noteq> None \<and> ns_receiving st then 1 else 0)\<rparr>, []))"

text \<open>The calls of the other threads: \<open>connect\<close> behind its \<open>disconnect\<close>, and both halves of that.\<close>

definition NetworkService_connect :: "string \<Rightarrow> string \<Rightarrow> ('e, 'd) NetworkService \<Rightarrow> ('e, 'd) NetworkService" where
  "NetworkService_connect host port st =
     NetworkService_new\<lparr>ns_running := True, ns_processor := True, ns_tasks := [NT_connect host port],
       ns_connected := ns_connected st\<rparr>"

definition NetworkService_disconnect :: "('e, 'd) NetworkService \<Rightarrow> ('e, 'd) NetworkService" where
  "NetworkService_disconnect st = ns_post [NT_teardown] (st\<lparr>ns_stopping := True\<rparr>)"

text \<open>The io thread ends when nothing is posted and nothing is outstanding.\<close>

definition ns_idle :: "('e, 'd) NetworkService \<Rightarrow> bool" where
  "ns_idle st \<longleftrightarrow>
     ns_tasks st = [] \<and> ns_sends st = [] \<and> \<not> ns_connecting st \<and>
     (case ns_session st of None \<Rightarrow> True | Some s \<Rightarrow> tcp_phase s = TCP_stopped) \<and>
     ns_udp st = None \<and> ns_orphans st = 0"

definition NetworkService_joined :: "('e, 'd) NetworkService \<Rightarrow> ('e, 'd) NetworkService" where
  "NetworkService_joined st = NetworkService_new\<lparr>ns_connected := ns_connected st\<rparr>"

section \<open>Events\<close>

datatype 'e ns_event =
    NE_connect string string
  | NE_disconnect
  | NE_join
  | NE_send byte string
  | NE_task
  | NE_connect_ok "'e ssl_session option"
  | NE_connect_failed
  | NE_tcp tcp_event
  | NE_sendMessage
  | NE_udp udp_event
  | NE_udp_error
  | NE_orphan_error

fun ns_udp_out :: "udp_out \<Rightarrow> ('e, 'd) NetworkService \<Rightarrow> ('e, 'd) NetworkService" where
  "ns_udp_out (UDP_sendControl ctrlJson) st = NetworkService_send (MessageType_byte IMAGE) ctrlJson st"
| "ns_udp_out _ st = st"

fun ns_udp_outs :: "udp_out \<Rightarrow> ns_out list" where
  "ns_udp_outs (UDP_onComplete data meta) = [NO_onImageData data meta]"
| "ns_udp_outs (UDP_send ep bs) = [NO_udp_send ep bs]"
| "ns_udp_outs (UDP_sendControl _) = []"

text \<open>
  An event that is not possible changes nothing: a second \<open>connect\<close> waits for its \<open>disconnect\<close>,
  and the thread in \<open>join\<close> calls nothing else. A receive that fails is not started again.
\<close>

fun NetworkService_event ::
  "('e, 'd) ns_env \<Rightarrow> 'e ns_event \<Rightarrow> ('e, 'd) NetworkService \<Rightarrow> (('e, 'd) NetworkService \<times> ns_out list) option" where
  "NetworkService_event E (NE_connect host port) st =
     Some (if ns_running st then st else NetworkService_connect host port st, [])"
| "NetworkService_event E NE_disconnect st =
     Some (if ns_running st \<and> \<not> ns_stopping st then NetworkService_disconnect st else st, [])"
| "NetworkService_event E NE_join st =
     Some (if ns_stopping st \<and> ns_idle st then NetworkService_joined st else st, [])"
| "NetworkService_event E (NE_send ty body) st = Some (NetworkService_send ty body st, [])"
| "NetworkService_event E NE_task st =
     (case ns_tasks st of
        [] \<Rightarrow> Some (st, [])
      | t # ts \<Rightarrow> NetworkService_task E t (st\<lparr>ns_tasks := ts\<rparr>))"
| "NetworkService_event E (NE_connect_ok tls) st =
     Some (if ns_connecting st then NetworkService_onConnect E tls st else (st, []))"
| "NetworkService_event E NE_connect_failed st = Some (st\<lparr>ns_connecting := False\<rparr>, [])"
| "NetworkService_event E (NE_tcp ev) st =
     (case ns_session st of
        None \<Rightarrow> Some (st, [])
      | Some s \<Rightarrow>
          (case ev of
             TE_send _ \<Rightarrow> Some (st, [])
           | _ \<Rightarrow> map_option (\<lambda>r. ns_session_outs r st) (TcpSession_event (ne_tls E) ns_handlers ev s)))"
| "NetworkService_event E NE_sendMessage st =
     (case (ns_sends st, ns_session st) of
        (msg # msgs, Some s) \<Rightarrow>
          map_option (\<lambda>r. ns_session_outs r (st\<lparr>ns_sends := msgs\<rparr>))
            (TcpSession_event (ne_tls E) ns_handlers (TE_send msg) s)
      | _ \<Rightarrow> Some (st, []))"
| "NetworkService_event E (NE_udp ev) st =
     (case ns_udp st of
        None \<Rightarrow> Some (st, [])
      | Some u \<Rightarrow>
          map_option (\<lambda>(u', outs).
            (foldl (\<lambda>st out. ns_udp_out out st) (st\<lparr>ns_udp := Some u'\<rparr>) outs, concat (map ns_udp_outs outs)))
            (UdpSession_event (ne_dtls E) \<lparr>uc_onComplete = ne_onImageData E, uc_sendControl = True\<rparr> ev u))"
| "NetworkService_event E NE_udp_error st = Some (st\<lparr>ns_receiving := False\<rparr>, [])"
| "NetworkService_event E NE_orphan_error st = Some (st\<lparr>ns_orphans := ns_orphans st - 1\<rparr>, [])"

fun NetworkService_events ::
  "('e, 'd) ns_env \<Rightarrow> 'e ns_event list \<Rightarrow> ('e, 'd) NetworkService \<Rightarrow> (('e, 'd) NetworkService \<times> ns_out list) option" where
  "NetworkService_events E [] st = Some (st, [])"
| "NetworkService_events E (ev # evs) st =
     (case NetworkService_event E ev st of
        None \<Rightarrow> None
      | Some (st', outs) \<Rightarrow>
          map_option (\<lambda>(st'', outs'). (st'', outs @ outs')) (NetworkService_events E evs st'))"

section \<open>Nothing is sent before the handshake\<close>

text \<open>A session that may send: it has no TLS, or the handshake is complete.\<close>

definition session_ready :: "'e TcpSession \<Rightarrow> bool" where
  "session_ready s \<longleftrightarrow> tcp_tls s = None \<or> tcp_handshakeCompleted s"

lemma TcpSession_start_ready:
  assumes "TcpSession_start S ns_handlers (TcpSession_new tls) = (s, outs)"
  shows "TCP_onConnected \<in> set outs \<Longrightarrow> session_ready s"
  using assms
  by (auto simp: TcpSession_start_def session_ready_def TcpSession_new_def
      split: option.splits prod.splits dest!: TcpSession_handleTlsOutput_calls)

lemma TcpSession_event_ready:
  assumes "TcpSession_event S H ev s = Some (s', outs)"
  shows "session_ready s \<or> TCP_onConnected \<in> set outs \<Longrightarrow> session_ready s'"
proof -
  have body: "session_ready s \<or> TCP_onConnected \<in> set outs \<Longrightarrow> session_ready s'"
    if "TcpSession_onBody S H bs s = Some (s', outs)" for bs
    using that
    by (cases rule: TcpSession_onBody_cases)
      (auto simp: session_ready_def dest!: TcpSession_handleTlsOutput_calls split: if_splits)
  show "session_ready s \<or> TCP_onConnected \<in> set outs \<Longrightarrow> session_ready s'"
    using assms
    by (cases ev)
      (auto simp: TcpSession_event_def TcpSession_sendMessage_def TcpSession_onReadError_def
        TcpSession_onWriteError_def TcpSession_handleDisconnect_def TcpSession_onHeader_def Let_def
        session_ready_def
        dest: body dest!: TcpSession_handleTlsOutput_calls split: if_splits option.splits prod.splits)
qed

text \<open>
  One connection: it is opened once, and whatever says that it is connected, or waits to be sent
  over it, is about a session that may send.
\<close>

fun is_connect :: "ns_task \<Rightarrow> bool" where
  "is_connect (NT_connect host port) \<longleftrightarrow> True"
| "is_connect _ \<longleftrightarrow> False"

definition ns_connects :: "('e, 'd) NetworkService \<Rightarrow> nat" where
  "ns_connects st = length (filter is_connect (ns_tasks st)) + (if ns_connecting st then 1 else 0)"

definition ns_inv :: "('e, 'd) NetworkService \<Rightarrow> bool" where
  "ns_inv st \<longleftrightarrow>
     ns_running st \<and> ns_connects st \<le> 1 \<and> (ns_session st \<noteq> None \<longrightarrow> ns_connects st = 0) \<and>
     (ns_connected st \<or> NT_connected \<in> set (ns_tasks st) \<or> ns_sends st \<noteq> [] \<longrightarrow>
        (\<exists>s. ns_session st = Some s \<and> session_ready s))"

lemma tcp_tasks_connect [simp]: "filter is_connect (concat (map ns_tcp_tasks outs)) = []"
proof (induction outs)
  case (Cons x outs)
  then show ?case by (cases x) auto
qed simp

lemma tcp_tasks_connected:
  "NT_connected \<in> set (concat (map ns_tcp_tasks outs)) \<longleftrightarrow> TCP_onConnected \<in> set outs"
proof (induction outs)
  case (Cons x outs)
  then show ?case by (cases x) auto
qed simp

lemma ns_inv_session_outs:
  assumes "ns_running st" "ns_connects st = 0"
    and "TCP_onConnected \<in> set outs \<or> ns_connected st \<or> NT_connected \<in> set (ns_tasks st) \<or> ns_sends st \<noteq> [] \<Longrightarrow>
      session_ready s"
  shows "ns_inv (fst (ns_session_outs (s, outs) st))"
  using assms tcp_tasks_connected [of outs]
  by (auto simp: ns_inv_def ns_session_outs_def ns_post_def ns_connects_def Let_def simp del: set_concat)

lemma ns_inv_send: "ns_inv st \<Longrightarrow> ns_inv (NetworkService_send ty body st)"
  by (auto simp: ns_inv_def NetworkService_send_def ns_post_def ns_connects_def)

lemma ns_inv_udp: "ns_inv st \<Longrightarrow> ns_inv (st\<lparr>ns_udp := u, ns_receiving := b, ns_orphans := n\<rparr>)"
  by (auto simp: ns_inv_def ns_connects_def)

lemma ns_inv_connect_ok:
  assumes "ns_inv st" "ns_connecting st"
  shows "ns_inv (fst (NetworkService_onConnect E tls st))"
proof -
  from assms have none: "ns_session st = None" and connects: "filter is_connect (ns_tasks st) = []"
    by (auto simp: ns_inv_def ns_connects_def)
  obtain s outs where start: "TcpSession_start (ne_tls E) ns_handlers (TcpSession_new tls) = (s, outs)"
    by (metis surj_pair)
  show ?thesis
    unfolding NetworkService_onConnect_def start
    using assms none connects TcpSession_start_ready [OF start]
    by (intro ns_inv_session_outs) (auto simp: ns_inv_def ns_connects_def)
qed

lemma ns_inv_tcp:
  assumes "ns_inv st" "ns_session st = Some s" "TcpSession_event S ns_handlers ev s = Some (s', outs)"
    and "msgs = [] \<or> ns_sends st \<noteq> []" "ns_session_outs (s', outs) (st\<lparr>ns_sends := msgs\<rparr>) = (st', os)"
  shows "ns_inv st'"
proof -
  have "ns_inv (fst (ns_session_outs (s', outs) (st\<lparr>ns_sends := msgs\<rparr>)))"
    using assms(1,2,4) TcpSession_event_ready [OF assms(3)]
    by (intro ns_inv_session_outs) (auto simp: ns_inv_def ns_connects_def)
  then show ?thesis by (simp add: assms(5))
qed

text \<open>Taking the first task, and running it.\<close>

lemma ns_inv_pop:
  assumes "ns_inv (st\<lparr>ns_tasks := t # ns_tasks st\<rparr>)"
  shows "ns_inv st"
    and "t = NT_connected \<Longrightarrow> \<exists>s. ns_session st = Some s \<and> session_ready s"
    and "is_connect t \<Longrightarrow> ns_connects st = 0 \<and> ns_session st = None"
  using assms by (auto simp: ns_inv_def ns_connects_def split: if_splits)

lemma ns_inv_task:
  assumes "ns_inv (st\<lparr>ns_tasks := t # ns_tasks st\<rparr>)" "NetworkService_task E t st = Some (st', outs)"
  shows "ns_inv st'"
proof -
  note inv = ns_inv_pop(1) [OF assms(1)]
  show ?thesis
  proof (cases t)
    case (NT_connect host port)
    with ns_inv_pop(3) [OF assms(1)] have "ns_connects st = 0" "ns_session st = None" by simp_all
    moreover have "st' = st\<lparr>ns_connecting := True\<rparr>"
      using NT_connect assms(2) by (simp add: NetworkService_task_def split: if_splits)
    ultimately show ?thesis
      using inv by (simp add: ns_inv_def ns_connects_def split: if_splits)
  next
    case (NT_imageMeta json)
    have "ns_inv (st\<lparr>ns_udp := u, ns_receiving := b\<rparr>)" for u b
      using inv by (simp add: ns_inv_def ns_connects_def)
    with assms(2) show ?thesis
      by (auto simp: NT_imageMeta NetworkService_task_def NetworkService_onImageMeta_def Let_def intro: ns_inv_send)
  next
    case (NT_message msg)
    have "filter is_connect (map (NT_imageMeta \<circ> snd) cs) = []" "NT_connected \<notin> set (map (NT_imageMeta \<circ> snd) cs)"
      for cs :: "(NetworkCallback \<times> string) list"
      by (induction cs) auto
    with assms(2) inv show ?thesis
      by (auto simp: NT_message NetworkService_task_def NetworkService_process_def ns_inv_def ns_connects_def
          ns_post_def Let_def split: if_splits)
  next
    case NT_disconnected
    with assms(2) have "st' = st\<lparr>ns_connected := False\<rparr>" by (simp add: NetworkService_task_def)
    with inv show ?thesis by (simp add: ns_inv_def ns_connects_def)
  next
    case NT_connected
    with assms(2) have "st' = st\<lparr>ns_connected := True\<rparr>" by (simp add: NetworkService_task_def)
    with inv ns_inv_pop(2) [OF assms(1) NT_connected] show ?thesis by (simp add: ns_inv_def ns_connects_def)
  next
    case (NT_send ty body)
    show ?thesis
    proof (cases "ns_session_set st \<and> ns_connected st")
      case False
      with NT_send assms(2) inv show ?thesis by (auto simp: NetworkService_task_def)
    next
      case True
      with inv have "\<exists>s. ns_session st = Some s \<and> session_ready s" by (simp add: ns_inv_def)
      with True NT_send assms(2) inv show ?thesis
        by (auto simp: NetworkService_task_def ns_inv_def ns_connects_def)
    qed
  next
    case NT_teardown
    with assms(2) inv show ?thesis
      by (auto simp: NetworkService_task_def ns_inv_def ns_connects_def)
  qed
qed

lemma ns_inv_event:
  assumes "ns_inv st" "NetworkService_event E ev st = Some (st', outs)" "ev \<noteq> NE_join"
  shows "ns_inv st'"
proof (cases ev)
  case (NE_tcp x)
  show ?thesis
  proof (cases "ns_session st")
    case None
    with assms NE_tcp show ?thesis by simp
  next
    case (Some s)
    with assms(1,2) Some NE_tcp show ?thesis
      by (cases x) (auto intro: ns_inv_tcp [OF assms(1) Some, where msgs = "ns_sends st"])
  qed
next
  case NE_sendMessage
  show ?thesis
  proof (cases "ns_sends st")
    case Nil
    with assms NE_sendMessage show ?thesis by simp
  next
    case (Cons msg msgs)
    then have "msgs = [] \<or> ns_sends st \<noteq> []" by simp
    with assms(1,2) NE_sendMessage Cons show ?thesis
      by (cases "ns_session st") (auto intro: ns_inv_tcp [OF assms(1), where msgs = msgs])
  qed
next
  case (NE_udp x)
  have run: "ns_inv (foldl (\<lambda>st out. ns_udp_out out st) st0 os)" if "ns_inv st0"
    for st0 :: "('a, 'b) NetworkService" and os
    using that
  proof (induction os arbitrary: st0)
    case (Cons out os)
    then show ?case by (cases out) (auto intro: ns_inv_send)
  qed simp
  have "ns_inv (st\<lparr>ns_udp := u\<rparr>)" for u
    using assms(1) by (auto simp: ns_inv_def ns_connects_def)
  with assms NE_udp show ?thesis
    by (auto split: option.splits intro: run)
next
  case NE_task
  show ?thesis
  proof (cases "ns_tasks st")
    case Nil
    with assms NE_task show ?thesis by simp
  next
    case (Cons t ts)
    let ?st = "st\<lparr>ns_tasks := ts\<rparr>"
    have "?st\<lparr>ns_tasks := t # ns_tasks ?st\<rparr> = st"
      using Cons by (cases st) simp
    then have "ns_inv (?st\<lparr>ns_tasks := t # ns_tasks ?st\<rparr>)"
      using assms(1) by metis
    moreover have "NetworkService_task E t ?st = Some (st', outs)"
      using assms(2) Cons NE_task by simp
    ultimately show ?thesis by (rule ns_inv_task)
  qed
next
  case (NE_connect_ok tls)
  with assms ns_inv_connect_ok [OF assms(1), of E tls] show ?thesis
    by (cases "ns_connecting st") auto
next
  case (NE_connect host port)
  with assms show ?thesis by (simp add: ns_inv_def)
next
  case NE_disconnect
  have "ns_inv (NetworkService_disconnect st)"
    using assms(1) by (simp add: ns_inv_def ns_connects_def NetworkService_disconnect_def ns_post_def)
  with assms NE_disconnect show ?thesis by (simp split: if_splits)
next
  case (NE_send ty body)
  with assms show ?thesis by (auto intro: ns_inv_send)
next
  case NE_connect_failed
  with assms(2) have "st' = st\<lparr>ns_connecting := False\<rparr>" by simp
  with assms(1) show ?thesis by (simp add: ns_inv_def ns_connects_def split: if_splits)
next
  case NE_udp_error
  with assms(2) have "st' = st\<lparr>ns_receiving := False\<rparr>" by simp
  with assms(1) show ?thesis by (simp add: ns_inv_def ns_connects_def)
next
  case NE_orphan_error
  with assms(2) have "st' = st\<lparr>ns_orphans := ns_orphans st - 1\<rparr>" by simp
  with assms(1) show ?thesis by (simp add: ns_inv_def ns_connects_def)
next
  case NE_join
  with assms(3) show ?thesis by simp
qed

lemma ns_inv_events:
  "ns_inv st \<Longrightarrow> NetworkService_events E evs st = Some (st', outs) \<Longrightarrow> NE_join \<notin> set evs \<Longrightarrow> ns_inv st'"
proof (induction evs arbitrary: st outs)
  case (Cons ev evs)
  from Cons.prems(2) obtain st1 o1 o2 where step: "NetworkService_event E ev st = Some (st1, o1)"
      "NetworkService_events E evs st1 = Some (st', o2)"
    by (auto split: option.splits)
  from Cons.prems(3) have "ev \<noteq> NE_join" "NE_join \<notin> set evs" by auto
  with ns_inv_event [OF Cons.prems(1) step(1)] Cons.IH [OF _ step(2)] show ?case by blast
qed simp

section \<open>Callbacks in the order of the messages\<close>

abbreviation ns_calls :: "('e, 'd) ns_env \<Rightarrow> Message list \<Rightarrow> (NetworkCallback \<times> string) list" where
  "ns_calls E msgs \<equiv> concat (map (MessageProcessor_processMessage (ns_wrapped E)) msgs)"

abbreviation queued_messages :: "('e, 'd) NetworkService \<Rightarrow> Message list" where
  "queued_messages st \<equiv> concat (map task_messages (ns_tasks st))"

text \<open>The calls of callbacks among what the service does, those for image descriptions apart.\<close>

abbreviation plain_calls :: "(NetworkCallback \<times> string) list \<Rightarrow> (NetworkCallback \<times> string) list" where
  "plain_calls \<equiv> filter (\<lambda>c. fst c \<noteq> onImageMeta)"

fun out_calls :: "ns_out \<Rightarrow> (NetworkCallback \<times> string) list" where
  "out_calls (NO_callback cb s) = (if cb = onImageMeta then [] else [(cb, s)])"
| "out_calls _ = []"

definition ns_fifo :: "('e, 'd) ns_env \<Rightarrow> ('e, 'd) NetworkService \<Rightarrow> bool" where
  "ns_fifo E st \<longleftrightarrow>
     prefix (ns_delivered st) (ns_calls E (ns_received st)) \<and>
     (ns_processor st \<longrightarrow>
        ns_delivered st @ ns_calls E (queued_messages st) = ns_calls E (ns_received st))"

text \<open>One event keeps the order, and does the calls it adds to the delivered ones.\<close>

definition ns_fifo_step ::
  "('e, 'd) ns_env \<Rightarrow> ('e, 'd) NetworkService \<Rightarrow> ('e, 'd) NetworkService \<times> ns_out list \<Rightarrow> bool" where
  "ns_fifo_step E st r \<longleftrightarrow>
     ns_fifo E (fst r) \<and>
     plain_calls (ns_delivered (fst r)) = plain_calls (ns_delivered st) @ concat (map out_calls (snd r))"

lemma ns_fifo_cong:
  "ns_fifo E st \<Longrightarrow> ns_delivered st' = ns_delivered st \<Longrightarrow> ns_received st' = ns_received st \<Longrightarrow>
     ns_processor st' = ns_processor st \<or> \<not> ns_processor st' \<Longrightarrow> queued_messages st' = queued_messages st \<Longrightarrow>
     ns_fifo E st'"
  by (auto simp: ns_fifo_def)

lemma ns_fifo_step_quiet:
  "ns_fifo E st \<Longrightarrow> ns_delivered st' = ns_delivered st \<Longrightarrow> ns_received st' = ns_received st \<Longrightarrow>
     ns_processor st' = ns_processor st \<or> \<not> ns_processor st' \<Longrightarrow> queued_messages st' = queued_messages st \<Longrightarrow>
     concat (map out_calls outs) = [] \<Longrightarrow> ns_fifo_step E st (st', outs)"
  by (simp add: ns_fifo_step_def ns_fifo_cong)

lemma ns_fifo_send:
  "ns_delivered (NetworkService_send ty body st) = ns_delivered st"
  "ns_received (NetworkService_send ty body st) = ns_received st"
  "ns_processor (NetworkService_send ty body st) = ns_processor st"
  "queued_messages (NetworkService_send ty body st) = queued_messages st"
  by (simp_all add: NetworkService_send_def ns_post_def)

lemma out_calls_writes [simp]: "concat (map out_calls (concat (map ns_tcp_writes outs))) = []"
proof (induction outs)
  case (Cons x outs)
  then show ?case by (cases x) auto
qed simp

lemma out_calls_udp [simp]: "concat (map out_calls (concat (map ns_udp_outs outs))) = []"
proof (induction outs)
  case (Cons x outs)
  then show ?case by (cases x) auto
qed simp

lemma ns_fifo_session_outs:
  assumes "ns_fifo E st"
  shows "ns_fifo_step E st (ns_session_outs (s, outs) st)"
proof -
  obtain zs where "ns_calls E (ns_received st) = ns_delivered st @ zs"
    using assms by (auto simp: ns_fifo_def prefix_def)
  with assms show ?thesis
    by (auto simp: ns_fifo_step_def ns_fifo_def ns_session_outs_def ns_post_def Let_def)
qed

lemma ns_fifo_process:
  assumes "ns_fifo E (st\<lparr>ns_tasks := NT_message msg # ns_tasks st\<rparr>)" "ns_processor st"
  shows "ns_fifo_step E st (NetworkService_process E msg st)"
proof -
  let ?calls = "MessageProcessor_processMessage (ns_wrapped E) msg"
  have outs: "concat (map out_calls (map (\<lambda>(cb, s). NO_callback cb s) (plain_calls cs))) = plain_calls cs" for cs
    by (induction cs) auto
  have metas: "concat (map task_messages (map (NT_imageMeta \<circ> snd) cs)) = []" for cs :: "(NetworkCallback \<times> string) list"
    by (induction cs) auto
  have all: "ns_delivered st @ ?calls @ ns_calls E (queued_messages st) = ns_calls E (ns_received st)"
    using assms by (simp add: ns_fifo_def)
  then have "prefix (ns_delivered st @ ?calls) (ns_calls E (ns_received st))"
    by (metis append.assoc prefixI)
  with all show ?thesis
    unfolding ns_fifo_step_def NetworkService_process_def Let_def fst_conv snd_conv outs
    by (simp add: ns_fifo_def ns_post_def metas del: map_map)
qed

lemma ns_fifo_task:
  assumes "ns_fifo E (st\<lparr>ns_tasks := t # ns_tasks st\<rparr>)" "NetworkService_task E t st = Some r"
  shows "ns_fifo_step E st r"
proof -
  have quiet: "ns_fifo E st" if "task_messages t = [] \<or> \<not> ns_processor st"
    using assms(1) that by (auto simp: ns_fifo_def)
  show ?thesis
  proof (cases t)
    case (NT_message msg)
    with assms quiet show ?thesis
      by (auto simp: NetworkService_task_def intro: ns_fifo_process ns_fifo_step_quiet split: if_splits)
  next
    case (NT_imageMeta json)
    with assms quiet show ?thesis
      by (auto simp: NetworkService_task_def NetworkService_onImageMeta_def Let_def ns_fifo_send
          intro!: ns_fifo_step_quiet)
  qed (use assms quiet in \<open>auto simp: NetworkService_task_def intro!: ns_fifo_step_quiet split: if_splits\<close>)
qed

lemma ns_fifo_event:
  assumes "ns_fifo E st" "NetworkService_event E ev st = Some r" "ev \<noteq> NE_join" "ns_running st"
  shows "ns_fifo_step E st r"
proof (cases ev)
  case (NE_tcp x)
  show ?thesis
  proof (cases "ns_session st")
    case (Some s)
    with assms(1,2) NE_tcp show ?thesis
      by (cases x) (auto intro: ns_fifo_session_outs ns_fifo_step_quiet)
  qed (use assms(1,2) NE_tcp in \<open>auto intro: ns_fifo_step_quiet\<close>)
next
  case NE_sendMessage
  have "ns_fifo_step E st (ns_session_outs (s, outs) (st\<lparr>ns_sends := msgs\<rparr>))" for s outs msgs
    using ns_fifo_session_outs [of E "st\<lparr>ns_sends := msgs\<rparr>" s outs] assms(1)
    by (simp add: ns_fifo_step_def ns_fifo_def)
  with assms(1,2) NE_sendMessage show ?thesis
    by (auto split: list.splits option.splits intro: ns_fifo_step_quiet)
next
  case (NE_udp x)
  have run: "ns_fifo E (foldl (\<lambda>st out. ns_udp_out out st) st0 os) \<and>
      ns_delivered (foldl (\<lambda>st out. ns_udp_out out st) st0 os) = ns_delivered st0" if "ns_fifo E st0"
    for st0 :: "('a, 'b) NetworkService" and os
    using that
  proof (induction os arbitrary: st0)
    case (Cons out os)
    have "ns_fifo E (NetworkService_send ty body st1) = ns_fifo E st1" for ty body and st1 :: "('a, 'b) NetworkService"
      by (simp add: ns_fifo_def ns_fifo_send)
    with Cons show ?case by (cases out) (simp_all add: ns_fifo_send)
  qed simp
  have "ns_fifo E (st\<lparr>ns_udp := u\<rparr>)" for u
    using assms(1) by (simp add: ns_fifo_def)
  with run assms(1,2) NE_udp show ?thesis
    by (auto simp: ns_fifo_step_def split: option.splits)
next
  case NE_task
  show ?thesis
  proof (cases "ns_tasks st")
    case (Cons t ts)
    let ?st = "st\<lparr>ns_tasks := ts\<rparr>"
    have "?st\<lparr>ns_tasks := t # ns_tasks ?st\<rparr> = st"
      using Cons by (cases st) simp
    then have "ns_fifo E (?st\<lparr>ns_tasks := t # ns_tasks ?st\<rparr>)"
      using assms(1) by metis
    from ns_fifo_task [OF this] have "ns_fifo_step E ?st r"
      using assms(2) Cons NE_task by simp
    then show ?thesis by (simp add: ns_fifo_step_def)
  qed (use assms NE_task in \<open>auto intro: ns_fifo_step_quiet\<close>)
next
  case (NE_connect_ok tls)
  obtain s outs where start: "TcpSession_start (ne_tls E) ns_handlers (TcpSession_new tls) = (s, outs)"
    by (metis surj_pair)
  have "ns_fifo E (st\<lparr>ns_connecting := False, ns_session_set := True\<rparr>)"
    using assms(1) by (simp add: ns_fifo_def)
  from ns_fifo_session_outs [OF this, of s outs] have "ns_fifo_step E st (NetworkService_onConnect E tls st)"
    by (simp add: ns_fifo_step_def NetworkService_onConnect_def start)
  with assms(1,2) NE_connect_ok show ?thesis
    by (auto intro: ns_fifo_step_quiet split: if_splits)
next
  case (NE_send ty body)
  with assms(1,2) show ?thesis by (auto simp: ns_fifo_send intro!: ns_fifo_step_quiet)
next
  case NE_disconnect
  with assms(1,2) show ?thesis
    by (cases "ns_running st \<and> \<not> ns_stopping st")
      (auto simp: NetworkService_disconnect_def ns_post_def intro!: ns_fifo_step_quiet)
qed (use assms in \<open>auto intro: ns_fifo_step_quiet\<close>)

lemma ns_event_running:
  assumes "NetworkService_event E ev st = Some (st', outs)" "ns_inv st" "ev \<noteq> NE_join"
  shows "ns_running st'"
  using ns_inv_event [OF assms(2,1,3)] by (simp add: ns_inv_def)

lemma ns_fifo_events:
  "ns_fifo E st \<Longrightarrow> ns_inv st \<Longrightarrow> NetworkService_events E evs st = Some (st', outs) \<Longrightarrow> NE_join \<notin> set evs \<Longrightarrow>
     ns_fifo E st' \<and> plain_calls (ns_delivered st') = plain_calls (ns_delivered st) @ concat (map out_calls outs)"
proof (induction evs arbitrary: st outs)
  case (Cons ev evs)
  from Cons.prems(3) obtain st1 o1 o2 where step: "NetworkService_event E ev st = Some (st1, o1)"
      "NetworkService_events E evs st1 = Some (st', o2)" "outs = o1 @ o2"
    by (auto split: option.splits)
  from Cons.prems(4) have ev: "ev \<noteq> NE_join" "NE_join \<notin> set evs" by auto
  have "ns_running st" using Cons.prems(2) by (simp add: ns_inv_def)
  from ns_fifo_event [OF Cons.prems(1) step(1) ev(1) this] have "ns_fifo_step E st (st1, o1)" .
  with Cons.IH [OF _ ns_inv_event [OF Cons.prems(2) step(1) ev(1)] step(2) ev(2)] step(3)
  show ?case by (simp add: ns_fifo_step_def)
qed simp

lemma ns_connect_start:
  assumes "\<not> ns_running st0" "\<not> ns_connected st0"
    and "NetworkService_events E (NE_connect host port # evs) st0 = Some (st, outs)"
  shows "NetworkService_events E evs (NetworkService_connect host port st0) = Some (st, outs)"
    and "ns_inv (NetworkService_connect host port st0)"
    and "ns_fifo E (NetworkService_connect host port st0)"
  using assms
  by (auto simp: NetworkService_new_def ns_inv_def ns_fifo_def ns_connects_def NetworkService_connect_def)

section \<open>Properties\<close>

text \<open>
  Claim C29. Nothing leaves before the handshake. A service that does not say it is connected
  opens a connection, the first or a later one. Until that connection is joined, in any
  interleaving of the io thread with the other threads, a message waits for the session, or the
  service says it is connected, only when there is a session that has no TLS or whose handshake is
  complete: so a login is never handed to a session that cannot encrypt it yet, and the flag the
  login page asks for does not come early. The condition on the start is needed: a handshake that
  ends behind \<open>disconnect\<close> can leave the flag set (\<open>NetworkService_stale_connected\<close>).\<close>

theorem NetworkService_sends_after_handshake:
  assumes "\<not> ns_running st0" "\<not> ns_connected st0"
    and "NetworkService_events E (NE_connect host port # evs) st0 = Some (st, outs)"
    and "NE_join \<notin> set evs" "ns_connected st \<or> ns_sends st \<noteq> []"
  shows "\<exists>s. ns_session st = Some s \<and> (tcp_tls s = None \<or> tcp_handshakeCompleted s)"
proof -
  note start = ns_connect_start [OF assms(1-3)]
  have "ns_inv st" by (rule ns_inv_events [OF start(2,1) assms(4)])
  with assms(5) show ?thesis by (auto simp: ns_inv_def session_ready_def)
qed

text \<open>
  Claim C30. The callbacks other than \<open>onImageMeta\<close> see the messages in order. Between the session
  and the callbacks lies a strand that takes tasks from several threads; yet at every moment of a
  connection that starts while the service does not say it is connected, the calls of these
  callbacks so far are a beginning of those that the messages of the session ask for, none left
  out, doubled or reordered, and they are all of them when no message waits on the strand and the
  connection is not torn down. The descriptions of images are not among them: their callback is
  posted to the strand once more, so later messages overtake it.\<close>

theorem NetworkService_callbacks_in_order:
  fixes E :: "('e, 'd) ns_env" and st0 st :: "('e, 'd) NetworkService"
  assumes "\<not> ns_running st0" "\<not> ns_connected st0"
    and "NetworkService_events E (NE_connect host port # evs) st0 = Some (st, outs)"
    and "NE_join \<notin> set evs"
  defines "asked \<equiv> filter (\<lambda>c. fst c \<noteq> onImageMeta)
    (concat (map (MessageProcessor_processMessage (ns_wrapped E)) (ns_received st)))"
  shows "prefix (concat (map out_calls outs)) asked \<and>
    (ns_processor st \<and> concat (map task_messages (ns_tasks st)) = [] \<longrightarrow> concat (map out_calls outs) = asked)"
proof -
  note start = ns_connect_start [OF assms(1-3)]
  have "ns_fifo E st \<and> plain_calls (ns_delivered st) = concat (map out_calls outs)"
    using ns_fifo_events [OF start(3,2,1) assms(4)]
    by (simp add: NetworkService_connect_def NetworkService_new_def)
  then show ?thesis
    by (auto simp: ns_fifo_def asked_def prefix_def)
qed

text \<open>
  An image session that receives is never closed: its pending receive keeps it alive, and neither
  the teardown nor anything else but an error of its socket ends it. So once a description of an
  image has come, \<open>disconnect\<close> waits forever in its \<open>join\<close>.\<close>

definition ns_image_open :: "('e, 'd) NetworkService \<Rightarrow> bool" where
  "ns_image_open st \<longleftrightarrow> ns_udp st \<noteq> None \<and> ns_receiving st \<or> 0 < ns_orphans st"

lemma ns_image_open_send [simp]: "ns_image_open (NetworkService_send ty body st) = ns_image_open st"
  by (simp add: ns_image_open_def NetworkService_send_def ns_post_def)

lemma ns_image_open_outs [simp]: "ns_image_open (fst (ns_session_outs r st)) = ns_image_open st"
  by (cases r) (simp add: ns_image_open_def ns_session_outs_def ns_post_def Let_def)

lemma ns_image_open_task:
  "ns_image_open st \<Longrightarrow> NetworkService_task E t st = Some (st', outs) \<Longrightarrow> ns_image_open st'"
  by (cases t)
    (auto simp: NetworkService_task_def NetworkService_process_def NetworkService_onImageMeta_def Let_def
      ns_image_open_def ns_post_def NetworkService_send_def split: if_splits)

lemma ns_image_open_busy: "ns_image_open st \<Longrightarrow> \<not> ns_idle st"
  by (auto simp: ns_image_open_def ns_idle_def)

lemma ns_image_open_udp:
  "ns_image_open (foldl (\<lambda>st out. ns_udp_out out st) st os) = ns_image_open st"
proof (induction os arbitrary: st)
  case (Cons out os)
  then show ?case by (cases out) simp_all
qed simp

lemma ns_image_open_event:
  assumes "ns_image_open st \<and> ns_running st" "NetworkService_event E ev st = Some (st', outs)"
    and "ev \<noteq> NE_udp_error" "ev \<noteq> NE_orphan_error"
  shows "ns_image_open st' \<and> ns_running st'"
proof -
  note busy = ns_image_open_busy [OF conjunct1 [OF assms(1)]]
  have running: "ns_running (fst (ns_session_outs r s)) = ns_running s" "ns_running (NetworkService_send ty body s) = ns_running s"
    for r ty body and s :: "('a, 'b) NetworkService"
    by (simp_all add: ns_session_outs_def ns_post_def NetworkService_send_def Let_def split_def)
  have open_sends: "ns_image_open (s\<lparr>ns_sends := msgs\<rparr>) = ns_image_open s"
    "ns_image_open (s\<lparr>ns_tasks := ts\<rparr>) = ns_image_open s" for msgs ts and s :: "('a, 'b) NetworkService"
    by (simp_all add: ns_image_open_def)
  have udp: "ns_running (foldl (\<lambda>st out. ns_udp_out out st) s os) = ns_running s" for s :: "('a, 'b) NetworkService" and os
  proof (induction os arbitrary: s)
    case (Cons out os)
    then show ?case by (cases out) (simp_all add: running)
  qed simp
  have outs: ?thesis if "ns_session_outs r s = (st', os)" "ns_image_open s \<and> ns_running s"
    for r os and s :: "('a, 'b) NetworkService"
    using that ns_image_open_outs [of r s] running(1) [of r s] by simp
  show ?thesis
  proof (cases ev)
    case (NE_tcp x)
    show ?thesis
    proof (cases "ns_session st")
      case (Some s)
      with assms(1,2) NE_tcp show ?thesis by (cases x) (auto dest!: outs)
    qed (use assms NE_tcp in simp)
  next
    case NE_sendMessage
    with assms(1,2) show ?thesis
      by (auto split: list.splits option.splits simp: open_sends dest!: outs)
  next
    case (NE_udp x)
    have "ns_image_open (st\<lparr>ns_udp := Some u\<rparr>)" if "ns_udp st \<noteq> None" for u
      using assms(1) that by (auto simp: ns_image_open_def)
    with assms(1,2) NE_udp show ?thesis
      by (auto simp: ns_image_open_udp udp split: option.splits)
  next
    case NE_task
    show ?thesis
    proof (cases "ns_tasks st")
      case (Cons t ts)
      then have task: "NetworkService_task E t (st\<lparr>ns_tasks := ts\<rparr>) = Some (st', outs)"
        using assms(2) NE_task by simp
      then have "ns_running st' = ns_running st"
        by (cases t)
          (auto simp: NetworkService_task_def NetworkService_process_def NetworkService_onImageMeta_def Let_def
            running ns_post_def split: if_splits)
      with ns_image_open_task [OF _ task] assms(1) open_sends show ?thesis by simp
    qed (use assms NE_task in simp)
  next
    case (NE_connect_ok tls)
    have "ns_image_open (st\<lparr>ns_connecting := False, ns_session_set := True\<rparr>) = ns_image_open st"
      by (simp add: ns_image_open_def)
    with assms(1,2) NE_connect_ok show ?thesis
      by (cases "ns_connecting st") (auto simp: NetworkService_onConnect_def dest!: outs)
  next
    case (NE_send ty body)
    with assms show ?thesis by (auto simp: running)
  next
    case NE_disconnect
    have "ns_image_open (NetworkService_disconnect st) = ns_image_open st"
      "ns_running (NetworkService_disconnect st) = ns_running st"
      by (simp_all add: NetworkService_disconnect_def ns_post_def ns_image_open_def)
    with assms NE_disconnect show ?thesis by (auto split: if_splits)
  next
    case NE_join
    with assms busy show ?thesis by simp
  next
    case (NE_connect host port)
    with assms show ?thesis by simp
  next
    case NE_connect_failed
    with assms(2) have "st' = st\<lparr>ns_connecting := False\<rparr>" by simp
    with assms(1) show ?thesis by (simp add: ns_image_open_def)
  qed (use assms in simp_all)
qed

theorem NetworkService_disconnect_hangs:
  assumes "ns_image_open st" "ns_running st" "NetworkService_events E evs st = Some (st', outs)"
    and "NE_udp_error \<notin> set evs" "NE_orphan_error \<notin> set evs"
  shows "ns_running st' \<and> \<not> ns_idle st'"
proof -
  have "ns_image_open st' \<and> ns_running st'"
    using assms
  proof (induction evs arbitrary: st outs)
    case (Cons ev evs)
    from Cons.prems(3) obtain st1 o1 o2 where step: "NetworkService_event E ev st = Some (st1, o1)"
        "NetworkService_events E evs st1 = Some (st', o2)"
      by (auto split: option.splits)
    have "ns_image_open st1 \<and> ns_running st1"
      by (rule ns_image_open_event [OF _ step(1)]) (use Cons.prems in auto)
    with Cons.IH [OF _ _ step(2)] Cons.prems show ?case by simp
  qed simp
  with ns_image_open_busy show ?thesis by blast
qed

section \<open>Instances\<close>

definition example_env :: "(loop_engine, loop_engine) ns_env" where
  "example_env =
     \<lparr>ne_tls = loop_ops, ne_dtls = loop_ops, ne_media = None,
      ne_resolves = (\<lambda>_ _. True), ne_port = 5000, ne_dump_port = (\<lambda>_. ''port''),
      ne_callbacks = (\<lambda>_. True), ne_onConnected = True, ne_onImageData = True\<rparr>"

definition example_events :: "loop_engine ns_event list" where
  "example_events =
     [NE_task, NE_connect_ok None, NE_tcp (TE_header [7, 2, 0, 0, 0]), NE_task,
      NE_tcp (TE_body [91, 93]), NE_send 1 ''x'', NE_task, NE_task]"

lemma example_run:
  "\<exists>st outs. NetworkService_events example_env (NE_connect ''10.0.0.9'' ''8080'' # example_events)
       NetworkService_new = Some (st, outs) \<and>
     ns_connected st \<and> ns_processor st \<and> ns_tasks st = [] \<and>
     length (ns_sends st) = 1 \<and> outs = [NO_onConnected, NO_callback onCameraList ''[]'']"
proof -
  have "map_option (\<lambda>(st, outs). (ns_connected st, ns_processor st, ns_tasks st, length (ns_sends st), outs))
      (NetworkService_events example_env (NE_connect ''10.0.0.9'' ''8080'' # example_events) NetworkService_new) =
    Some (True, True, [], 1, [NO_onConnected, NO_callback onCameraList ''[]''])"
    by code_simp
  then show ?thesis
    by (cases "NetworkService_events example_env (NE_connect ''10.0.0.9'' ''8080'' # example_events)
        (NetworkService_new :: (loop_engine, loop_engine) NetworkService)")
      (auto simp del: NetworkService_events.simps)
qed

theorem NetworkService_sends_after_handshake_witness:
  "\<exists>st :: (loop_engine, loop_engine) NetworkService. \<exists>s. length (ns_sends st) = 1 \<and>
     ns_session st = Some s \<and> (tcp_tls s = None \<or> tcp_handshakeCompleted s)"
proof -
  from example_run obtain st outs where run:
    "NetworkService_events example_env (NE_connect ''10.0.0.9'' ''8080'' # example_events) NetworkService_new =
      Some (st, outs)" "ns_connected st" "length (ns_sends st) = 1"
    by blast
  moreover have "NE_join \<notin> set example_events" by (simp add: example_events_def)
  moreover have "\<not> ns_running (NetworkService_new :: (loop_engine, loop_engine) NetworkService)"
    "\<not> ns_connected (NetworkService_new :: (loop_engine, loop_engine) NetworkService)"
    by (simp_all add: NetworkService_new_def)
  ultimately show ?thesis
    using NetworkService_sends_after_handshake [OF _ _ run(1)] by blast
qed

text \<open>
  A flag that is out of date: a write fails, the page disconnects, and then the rest of the
  handshake, which had arrived before, is handled. The next connection says that it is connected
  while it has no session.\<close>

lemma NetworkService_stale_connected:
  "map_option (\<lambda>(st, outs). (ns_running st, ns_connected st, ns_session st))
     (NetworkService_events example_env
       [NE_connect ''10.0.0.9'' ''8080'', NE_task,
        NE_connect_ok (Some (Some \<lparr>loop_in = [], loop_out = [], loop_done = False\<rparr>)),
        NE_tcp (TE_header [0x0b, 1, 0, 0, 0]), NE_tcp TE_writeError, NE_disconnect, NE_tcp (TE_body [5]),
        NE_task, NE_task, NE_task, NE_tcp TE_readError, NE_join, NE_connect ''10.0.0.9'' ''8080'']
       NetworkService_new) =
   Some (True, True, None)"
  by (simp add: example_env_def NetworkService_new_def NetworkService_connect_def NetworkService_task_def
      NetworkService_onConnect_def TcpSession_start_def TcpSession_new_def TcpSession_handleTlsOutput_def
      TLS_Handshake_def ssl_advance_def loop_ops_def flushWriteBio_def ns_session_outs_def ns_post_def Let_def
      TcpSession_event_def TcpSession_onHeader_def header_type_def header_length_def TcpSession_onWriteError_def
      TcpSession_handleDisconnect_def NetworkService_disconnect_def TcpSession_onBody_def TLS_decrypt_def
      loop_drain [unfolded loop_ops_def] BufferSize_def ns_handlers_def ssl_isHandshakeDone_def
      TcpSession_onReadError_def ns_idle_def NetworkService_joined_def)

theorem NetworkService_callbacks_in_order_witness:
  "\<exists>st outs. NetworkService_events example_env (NE_connect ''10.0.0.9'' ''8080'' # example_events)
       NetworkService_new = Some (st, outs) \<and>
     [(onCameraList, ''[]'')] = filter (\<lambda>c. fst c \<noteq> onImageMeta)
       (concat (map (MessageProcessor_processMessage (ns_wrapped example_env)) (ns_received st)))"
proof -
  from example_run obtain st outs where run:
    "NetworkService_events example_env (NE_connect ''10.0.0.9'' ''8080'' # example_events) NetworkService_new =
      Some (st, outs)" "ns_processor st" "ns_tasks st = []"
    and outs: "outs = [NO_onConnected, NO_callback onCameraList ''[]'']"
    by blast
  moreover have "NE_join \<notin> set example_events" by (simp add: example_events_def)
  moreover have "\<not> ns_running (NetworkService_new :: (loop_engine, loop_engine) NetworkService)"
    "\<not> ns_connected (NetworkService_new :: (loop_engine, loop_engine) NetworkService)"
    by (simp_all add: NetworkService_new_def)
  ultimately show ?thesis
    using NetworkService_callbacks_in_order [OF _ _ run(1)] by auto
qed

end
