(* ===== verification/Settings.thy ===== *)
theory Settings
  imports NetworkBridge
begin

text \<open>
  Qt/Back/Controllers/SettingsController.hpp and SettingsController.cpp: the settings of the user
  interface, kept in QSettings and read from Settings.json; and Qt/Back/Controllers/AppController:
  the current page and the registry of the windows of cameras. The QML engine that creates a
  window from its file is a parameter. Signals are recorded in the order they are emitted.
\<close>

section \<open>Settings\<close>

text \<open>The stored values by their key, as QSettings keeps them.\<close>

datatype setting_value = SV_bool bool | SV_int int | SV_text string

type_synonym settings_store = "string \<rightharpoonup> setting_value"

text \<open>What the conversions of a QVariant give is Qt's; the parser of numbers is Qt's as well.\<close>

record settings_ops =
  so_toBool :: "setting_value \<Rightarrow> bool"
  so_toInt :: "setting_value \<Rightarrow> int"
  so_toString :: "setting_value \<Rightarrow> string"
  so_parseInt :: "string \<Rightarrow> int"  \<comment> \<open>\<open>QString::toInt\<close>: 0 for a text that is no number\<close>

text \<open>A value that was stored is read back with its own conversion, as QSettings documents.\<close>

definition settings_faithful :: "settings_ops \<Rightarrow> bool" where
  "settings_faithful O' \<longleftrightarrow>
     (\<forall>b. so_toBool O' (SV_bool b) = b) \<and> (\<forall>i. so_toInt O' (SV_int i) = i) \<and>
     (\<forall>s. so_toString O' (SV_text s) = s)"

datatype settings_signal =
    SS_darkModeChanged | SS_alarmSoundChanged | SS_defaultGridChanged | SS_logLevelChanged
  | SS_defaultResolutionChanged | SS_serverIpChanged | SS_fpsChanged

record SettingsController =
  set_darkMode :: bool
  set_alarmSound :: bool
  set_defaultGrid :: int
  set_logLevel :: string
  set_resolutions :: "string list"
  set_defaultResolution :: string
  set_serverIp :: string
  set_fps :: int
  set_signals :: "settings_signal list"

definition SettingsController_initial :: SettingsController where
  "SettingsController_initial =
     \<lparr>set_darkMode = True, set_alarmSound = True, set_defaultGrid = 4, set_logLevel = ''INFO'',
      set_resolutions = [], set_defaultResolution = '''', set_serverIp = ''192.168.0.58'', set_fps = 30,
      set_signals = []\<rparr>"

definition SettingsController_emit :: "settings_signal \<Rightarrow> SettingsController \<Rightarrow> SettingsController" where
  "SettingsController_emit sig c = c\<lparr>set_signals := set_signals c @ [sig]\<rparr>"

definition SettingsController_setDarkMode :: "bool \<Rightarrow> SettingsController \<Rightarrow> SettingsController" where
  "SettingsController_setDarkMode v c =
     (if set_darkMode c = v then c else SettingsController_emit SS_darkModeChanged (c\<lparr>set_darkMode := v\<rparr>))"

definition SettingsController_setAlarmSound :: "bool \<Rightarrow> SettingsController \<Rightarrow> SettingsController" where
  "SettingsController_setAlarmSound v c =
     (if set_alarmSound c = v then c else SettingsController_emit SS_alarmSoundChanged (c\<lparr>set_alarmSound := v\<rparr>))"

definition SettingsController_setDefaultGrid :: "int \<Rightarrow> SettingsController \<Rightarrow> SettingsController" where
  "SettingsController_setDefaultGrid v c =
     (if set_defaultGrid c = v then c else SettingsController_emit SS_defaultGridChanged (c\<lparr>set_defaultGrid := v\<rparr>))"

definition SettingsController_setLogLevel :: "string \<Rightarrow> SettingsController \<Rightarrow> SettingsController" where
  "SettingsController_setLogLevel v c =
     (if set_logLevel c = v then c else SettingsController_emit SS_logLevelChanged (c\<lparr>set_logLevel := v\<rparr>))"

definition SettingsController_setDefaultResolution :: "string \<Rightarrow> SettingsController \<Rightarrow> SettingsController" where
  "SettingsController_setDefaultResolution v c =
     (if set_defaultResolution c = v then c
      else SettingsController_emit SS_defaultResolutionChanged (c\<lparr>set_defaultResolution := v\<rparr>))"

definition SettingsController_save :: "SettingsController \<Rightarrow> settings_store \<Rightarrow> settings_store" where
  "SettingsController_save c s =
     s(''ui/darkMode'' \<mapsto> SV_bool (set_darkMode c), ''ui/alarmSound'' \<mapsto> SV_bool (set_alarmSound c),
       ''ui/defaultGrid'' \<mapsto> SV_int (set_defaultGrid c), ''ui/logLevel'' \<mapsto> SV_text (set_logLevel c))"

text \<open>\<open>s.value(key, dflt)\<close>.\<close>

definition settings_value :: "settings_store \<Rightarrow> string \<Rightarrow> setting_value \<Rightarrow> setting_value" where
  "settings_value s key dflt = (case s key of None \<Rightarrow> dflt | Some v \<Rightarrow> v)"

text \<open>The members of Settings.json; \<open>file\<close> is its text, if one of the two paths can be opened.\<close>

definition SettingsController_loadJson ::
  "settings_ops \<Rightarrow> ('q, 'm) qt_object_ops_scheme \<Rightarrow> string option \<Rightarrow> SettingsController \<Rightarrow> SettingsController" where
  "SettingsController_loadJson O' Q file c =
     (case Option.bind file (q_document Q) of
        None \<Rightarrow> c
      | Some obj \<Rightarrow>
          let c1 = (if q_contains Q obj ''ServerIP''
                    then SettingsController_emit SS_serverIpChanged
                           (c\<lparr>set_serverIp := q_toString Q (q_value Q obj ''ServerIP'')\<rparr>)
                    else c);
              c2 = (if q_contains Q obj ''FPS''
                    then let fps = so_parseInt O' (q_toString Q (q_value Q obj ''FPS''))
                         in SettingsController_emit SS_fpsChanged
                              (c1\<lparr>set_fps := (if fps \<le> 0 then 30 else fps)\<rparr>)
                    else c1)
          in if q_contains Q obj ''Resolution''
             then c2\<lparr>set_resolutions := map (q_toString Q) (q_toArray Q (q_value Q obj ''Resolution''))\<rparr>
             else c2)"

definition SettingsController_load ::
  "settings_ops \<Rightarrow> ('q, 'm) qt_object_ops_scheme \<Rightarrow> string option \<Rightarrow> settings_store \<Rightarrow>
   SettingsController \<Rightarrow> SettingsController" where
  "SettingsController_load O' Q file s c =
     (let c1 = c\<lparr>set_darkMode := so_toBool O' (settings_value s ''ui/darkMode'' (SV_bool False)),
                 set_alarmSound := so_toBool O' (settings_value s ''ui/alarmSound'' (SV_bool True)),
                 set_defaultGrid := so_toInt O' (settings_value s ''ui/defaultGrid'' (SV_int 4)),
                 set_logLevel := so_toString O' (settings_value s ''ui/logLevel'' (SV_text ''INFO''))\<rparr>;
          c2 = SettingsController_loadJson O' Q file c1;
          c3 = c2\<lparr>set_defaultResolution := so_toString O' (settings_value s ''ui/defaultResolution''
                    (SV_text (if set_resolutions c2 = [] then ''192.168.0.58'' else hd (set_resolutions c2))))\<rparr>
      in if set_defaultResolution c3 \<notin> set (set_resolutions c3) \<and> set_resolutions c3 \<noteq> []
         then c3\<lparr>set_defaultResolution := hd (set_resolutions c3)\<rparr> else c3)"

definition SettingsController_new ::
  "settings_ops \<Rightarrow> ('q, 'm) qt_object_ops_scheme \<Rightarrow> string option \<Rightarrow> settings_store \<Rightarrow> SettingsController" where
  "SettingsController_new O' Q file s = SettingsController_load O' Q file s SettingsController_initial"

section \<open>Pages and windows\<close>

datatype app_signal =
    AP_currentPageChanged
  | AP_navigateTo string
  | AP_optionDialogRequested
  | AP_logoutRequested
  | AP_close nat  \<comment> \<open>\<open>close\<close> is invoked on a window\<close>

text \<open>
  A window is an object; \<open>app_windows\<close> are the pointers of the registry, which read null once the
  object is destroyed. \<open>alive\<close> says which objects exist.
\<close>

record AppController =
  app_currentPage :: string
  app_cameraWindows :: "nat list"
  app_signals :: "app_signal list"

definition AppController_new :: AppController where
  "AppController_new = \<lparr>app_currentPage = ''Login'', app_cameraWindows = [], app_signals = []\<rparr>"

definition AppController_emit :: "app_signal list \<Rightarrow> AppController \<Rightarrow> AppController" where
  "AppController_emit sigs a = a\<lparr>app_signals := app_signals a @ sigs\<rparr>"

definition AppController_navigate :: "string \<Rightarrow> AppController \<Rightarrow> AppController" where
  "AppController_navigate page a =
     (if app_currentPage a = page then a
      else AppController_emit [AP_currentPageChanged, AP_navigateTo page] (a\<lparr>app_currentPage := page\<rparr>))"

definition AppController_registerCameraWindow :: "(nat \<Rightarrow> bool) \<Rightarrow> nat option \<Rightarrow> AppController \<Rightarrow> AppController" where
  "AppController_registerCameraWindow alive win a =
     (case win of
        None \<Rightarrow> a
      | Some w \<Rightarrow>
          if w \<in> set (filter alive (app_cameraWindows a)) then a
          else a\<lparr>app_cameraWindows := app_cameraWindows a @ [w]\<rparr>)"

text \<open>The loop runs from the end; a pointer that is null goes with the window.\<close>

fun windows_without :: "(nat \<Rightarrow> bool) \<Rightarrow> nat \<Rightarrow> nat list \<Rightarrow> nat list" where
  "windows_without alive win [] = []"
| "windows_without alive win (w # ws) =
     (let rest = windows_without alive win ws
      in if w = win \<or> \<not> alive w then rest else w # rest)"

definition AppController_unregisterCameraWindow :: "(nat \<Rightarrow> bool) \<Rightarrow> nat \<Rightarrow> AppController \<Rightarrow> AppController" where
  "AppController_unregisterCameraWindow alive win a =
     a\<lparr>app_cameraWindows := windows_without alive win (app_cameraWindows a)\<rparr>"

definition AppController_closeAllCameraWindows :: "(nat \<Rightarrow> bool) \<Rightarrow> AppController \<Rightarrow> AppController" where
  "AppController_closeAllCameraWindows alive a =
     (AppController_emit (map AP_close (filter alive (app_cameraWindows a))) a)\<lparr>app_cameraWindows := []\<rparr>"

definition AppController_shutdown :: "(nat \<Rightarrow> bool) \<Rightarrow> AppController \<Rightarrow> AppController" where
  "AppController_shutdown = AppController_closeAllCameraWindows"

definition AppController_logout :: "(nat \<Rightarrow> bool) \<Rightarrow> AppController \<Rightarrow> AppController" where
  "AppController_logout alive a =
     AppController_navigate ''Login''
       (AppController_emit [AP_logoutRequested] (AppController_closeAllCameraWindows alive a))"

definition AppController_openOptionDialog :: "AppController \<Rightarrow> AppController" where
  "AppController_openOptionDialog = AppController_emit [AP_optionDialogRequested]"

text \<open>
  \<open>detachCameraWindow\<close> makes a window from its QML file, which registers it. \<open>wo_ready\<close> says whether
  the file compiles; \<open>wo_create\<close> gives the object for the initial properties, if there is one,
  and whether it is a \<open>QQuickWindow\<close>.
\<close>

datatype window_call =
    WC_create "(string \<times> CameraValue) list" | WC_setX nat int | WC_setY nat int | WC_show nat

record window_ops =
  wo_ready :: bool
  wo_create :: "(string \<times> CameraValue) list \<Rightarrow> (nat \<times> bool) option"

definition AppController_window_props ::
  "int \<Rightarrow> string \<Rightarrow> string \<Rightarrow> bool \<Rightarrow> QRectF \<Rightarrow> (string \<times> CameraValue) list" where
  "AppController_window_props slotId title cameraId isOnline cropRect =
     [(''sourceSlotId'', CV_int slotId), (''sourceTitle'', CV_string title),
      (''sourceCameraId'', CV_string cameraId), (''sourceOnline'', CV_bool isOnline),
      (''sourceCropRect'', CV_rect cropRect)]"

definition AppController_detachCameraWindow ::
  "bool \<Rightarrow> window_ops \<Rightarrow> int \<Rightarrow> string \<Rightarrow> string \<Rightarrow> bool \<Rightarrow> QRectF \<Rightarrow> int \<Rightarrow> int \<Rightarrow> window_call list" where
  "AppController_detachCameraWindow engine W slotId title cameraId isOnline cropRect globalX globalY =
     (if \<not> engine \<or> \<not> wo_ready W then []
      else
        let props = AppController_window_props slotId title cameraId isOnline cropRect in
        WC_create props #
        (case wo_create W props of
           Some (winObj, True) \<Rightarrow> [WC_setX winObj globalX, WC_setY winObj globalY, WC_show winObj]
         | _ \<Rightarrow> []))"

section \<open>Settings kept over a restart\<close>

lemma SettingsController_loadJson_frame [simp]:
  "set_darkMode (SettingsController_loadJson O' Q file c) = set_darkMode c"
  "set_alarmSound (SettingsController_loadJson O' Q file c) = set_alarmSound c"
  "set_defaultGrid (SettingsController_loadJson O' Q file c) = set_defaultGrid c"
  "set_logLevel (SettingsController_loadJson O' Q file c) = set_logLevel c"
  by (simp_all add: SettingsController_loadJson_def SettingsController_emit_def Let_def split: option.splits)

lemma SettingsController_loadJson_fps:
  "0 < set_fps c \<Longrightarrow> 0 < set_fps (SettingsController_loadJson O' Q file c)"
  by (simp add: SettingsController_loadJson_def SettingsController_emit_def Let_def split: option.splits)

lemma SettingsController_load_stored:
  assumes "settings_faithful O'" "s ''ui/darkMode'' = Some (SV_bool d)" "s ''ui/alarmSound'' = Some (SV_bool a)"
    "s ''ui/defaultGrid'' = Some (SV_int g)" "s ''ui/logLevel'' = Some (SV_text l)"
  shows "set_darkMode (SettingsController_load O' Q file s c) = d"
    "set_alarmSound (SettingsController_load O' Q file s c) = a"
    "set_defaultGrid (SettingsController_load O' Q file s c) = g"
    "set_logLevel (SettingsController_load O' Q file s c) = l"
  using assms by (simp_all add: SettingsController_load_def settings_faithful_def settings_value_def Let_def)

datatype settings_op =
    SO_setDarkMode bool
  | SO_setAlarmSound bool
  | SO_setDefaultGrid int
  | SO_setLogLevel string
  | SO_setDefaultResolution string
  | SO_save
  | SO_load

text \<open>The controller with the store it writes to; the file may change between two loads.\<close>

fun SettingsController_step ::
  "settings_ops \<Rightarrow> ('q, 'm) qt_object_ops_scheme \<Rightarrow> SettingsController \<times> settings_store \<Rightarrow>
   settings_op \<times> string option \<Rightarrow> SettingsController \<times> settings_store" where
  "SettingsController_step O' Q (c, s) (SO_setDarkMode v, file) = (SettingsController_setDarkMode v c, s)"
| "SettingsController_step O' Q (c, s) (SO_setAlarmSound v, file) = (SettingsController_setAlarmSound v c, s)"
| "SettingsController_step O' Q (c, s) (SO_setDefaultGrid v, file) = (SettingsController_setDefaultGrid v c, s)"
| "SettingsController_step O' Q (c, s) (SO_setLogLevel v, file) = (SettingsController_setLogLevel v c, s)"
| "SettingsController_step O' Q (c, s) (SO_setDefaultResolution v, file) =
     (SettingsController_setDefaultResolution v c, s)"
| "SettingsController_step O' Q (c, s) (SO_save, file) = (c, SettingsController_save c s)"
| "SettingsController_step O' Q (c, s) (SO_load, file) = (SettingsController_load O' Q file s c, s)"

lemmas settings_setter_defs = SettingsController_setDarkMode_def SettingsController_setAlarmSound_def
  SettingsController_setDefaultGrid_def SettingsController_setLogLevel_def
  SettingsController_setDefaultResolution_def SettingsController_emit_def

text \<open>What \<open>VideoManager\<close> divides by is positive at all times.\<close>

definition SettingsController_inv :: "SettingsController \<times> settings_store \<Rightarrow> bool" where
  "SettingsController_inv cs \<longleftrightarrow> 0 < set_fps (fst cs)"

lemma SettingsController_load_fps:
  "0 < set_fps c \<Longrightarrow> 0 < set_fps (SettingsController_load O' Q file s c)"
  by (simp add: SettingsController_load_def SettingsController_loadJson_fps Let_def)

lemma SettingsController_step_inv:
  "SettingsController_inv cs \<Longrightarrow> SettingsController_inv (SettingsController_step O' Q cs x)"
  by (cases "(O', Q, cs, x)" rule: SettingsController_step.cases)
     (auto simp: SettingsController_inv_def settings_setter_defs SettingsController_load_fps)

interpretation settings_run: op_system "(SettingsController_new O' Q json s, s)"
    "SettingsController_step O' Q" SettingsController_inv for O' Q json s
proof
  show "SettingsController_inv (SettingsController_new O' Q json s, s)"
    by (simp add: SettingsController_inv_def SettingsController_new_def SettingsController_load_fps
        SettingsController_initial_def)
qed (rule SettingsController_step_inv)

lemma SettingsController_load_resolution:
  "set_resolutions (SettingsController_load O' Q file s c) \<noteq> [] \<Longrightarrow>
   set_defaultResolution (SettingsController_load O' Q file s c) \<in>
     set (set_resolutions (SettingsController_load O' Q file s c))"
  by (auto simp: SettingsController_load_def Let_def split: if_splits)

section \<open>The registry of windows\<close>

text \<open>
  Windows come and go between the calls. The abstract registry is the set of the windows that
  exist, were registered, and were neither taken back nor closed since.
\<close>

datatype app_op =
    AO_register nat
  | AO_unregister nat
  | AO_destroyed nat
  | AO_navigate string
  | AO_logout
  | AO_shutdown
  | AO_openOptionDialog

record app_system =
  as_app :: AppController
  as_alive :: "nat \<Rightarrow> bool"

fun AppController_step :: "app_system \<Rightarrow> app_op \<Rightarrow> app_system" where
  "AppController_step s (AO_register w) =
     s\<lparr>as_app := AppController_registerCameraWindow (as_alive s)
                  (if as_alive s w then Some w else None) (as_app s)\<rparr>"
| "AppController_step s (AO_unregister w) =
     s\<lparr>as_app := AppController_unregisterCameraWindow (as_alive s) w (as_app s)\<rparr>"
| "AppController_step s (AO_destroyed w) = s\<lparr>as_alive := (as_alive s)(w := False)\<rparr>"
| "AppController_step s (AO_navigate page) = s\<lparr>as_app := AppController_navigate page (as_app s)\<rparr>"
| "AppController_step s AO_logout = s\<lparr>as_app := AppController_logout (as_alive s) (as_app s)\<rparr>"
| "AppController_step s AO_shutdown = s\<lparr>as_app := AppController_shutdown (as_alive s) (as_app s)\<rparr>"
| "AppController_step s AO_openOptionDialog = s\<lparr>as_app := AppController_openOptionDialog (as_app s)\<rparr>"

definition app_system_init :: app_system where
  "app_system_init = \<lparr>as_app = AppController_new, as_alive = (\<lambda>_. True)\<rparr>"

fun app_registered :: "(nat \<Rightarrow> bool) \<Rightarrow> nat set \<Rightarrow> app_op list \<Rightarrow> nat set" where
  "app_registered alive R [] = R"
| "app_registered alive R (AO_register w # ops) =
     app_registered alive (if alive w then insert w R else R) ops"
| "app_registered alive R (AO_unregister w # ops) = app_registered alive (R - {w}) ops"
| "app_registered alive R (AO_destroyed w # ops) = app_registered (alive(w := False)) (R - {w}) ops"
| "app_registered alive R (AO_logout # ops) = app_registered alive {} ops"
| "app_registered alive R (AO_shutdown # ops) = app_registered alive {} ops"
| "app_registered alive R (_ # ops) = app_registered alive R ops"

abbreviation app_live :: "app_system \<Rightarrow> nat set" where
  "app_live s \<equiv> set (filter (as_alive s) (app_cameraWindows (as_app s)))"

lemma windows_without_filter: "windows_without alive win ws = filter (\<lambda>w. w \<noteq> win \<and> alive w) ws"
  by (induction ws) (auto simp: Let_def)

lemmas app_defs = AppController_registerCameraWindow_def AppController_unregisterCameraWindow_def
  AppController_closeAllCameraWindows_def AppController_navigate_def AppController_logout_def
  AppController_shutdown_def AppController_openOptionDialog_def AppController_emit_def

text \<open>The pointers of the windows that exist are distinct; null pointers may pile up.\<close>

definition app_inv :: "app_system \<Rightarrow> bool" where
  "app_inv s \<longleftrightarrow> distinct (filter (as_alive s) (app_cameraWindows (as_app s)))"

lemma distinct_filter_stronger:
  "distinct (filter P xs) \<Longrightarrow> (\<And>x. Q x \<Longrightarrow> P x) \<Longrightarrow> distinct (filter Q xs)"
  by (induction xs) (auto split: if_splits)

lemma app_step_inv:
  assumes "app_inv s"
  shows "app_inv (AppController_step s x)"
proof -
  have "distinct (filter (\<lambda>w. Q w \<and> as_alive s w) (app_cameraWindows (as_app s)))" for Q
    using assms by (auto simp: app_inv_def intro: distinct_filter_stronger)
  moreover have "distinct (filter (\<lambda>w. as_alive s w \<and> Q w) (app_cameraWindows (as_app s)))" for Q
    using assms by (auto simp: app_inv_def intro: distinct_filter_stronger)
  moreover have "distinct (filter ((as_alive s)(w := False)) (app_cameraWindows (as_app s)))" for w
    using assms by (auto simp: app_inv_def split: if_splits intro: distinct_filter_stronger)
  ultimately show ?thesis
    using assms by (cases x) (auto simp: app_inv_def app_defs windows_without_filter)
qed

interpretation app_run: op_system app_system_init AppController_step app_inv
proof
  show "app_inv app_system_init"
    by (simp add: app_inv_def app_system_init_def AppController_new_def)
qed (rule app_step_inv)

lemma app_registered_live:
  "app_live (foldl AppController_step s ops) = app_registered (as_alive s) (app_live s) ops"
proof (induction ops arbitrary: s)
  case Nil
  then show ?case by simp
next
  case (Cons x ops)
  have live: "app_live (AppController_step s x) = app_registered (as_alive s) (app_live s) [x]"
    by (cases x) (auto simp: app_defs windows_without_filter)
  have alive: "as_alive (AppController_step s x) =
      (case x of AO_destroyed w \<Rightarrow> (as_alive s)(w := False) | _ \<Rightarrow> as_alive s)"
    by (cases x) simp_all
  have "app_live (foldl AppController_step s (x # ops)) =
      app_registered (as_alive (AppController_step s x)) (app_registered (as_alive s) (app_live s) [x]) ops"
    using Cons.IH [of "AppController_step s x"] live by (simp del: AppController_step.simps)
  also have "\<dots> = app_registered (as_alive s) (app_live s) (x # ops)"
    unfolding alive by (cases x) (simp_all del: fun_upd_apply)
  finally show ?case .
qed

section \<open>Properties\<close>

text \<open>
  Claim C31. The settings that \<open>save\<close> stores are the settings of the next start, whatever the
  file Settings.json holds and whatever was stored before.
\<close>

theorem SettingsController_survives_restart:
  assumes "settings_faithful O'"
  shows "set_darkMode (SettingsController_new O' Q file (SettingsController_save c s)) = set_darkMode c \<and>
     set_alarmSound (SettingsController_new O' Q file (SettingsController_save c s)) = set_alarmSound c \<and>
     set_defaultGrid (SettingsController_new O' Q file (SettingsController_save c s)) = set_defaultGrid c \<and>
     set_logLevel (SettingsController_new O' Q file (SettingsController_save c s)) = set_logLevel c"
  unfolding SettingsController_new_def
  by (intro conjI SettingsController_load_stored [OF assms]) (simp_all add: SettingsController_save_def)

theorem SettingsController_survives_restart_witness:
  "\<forall>Q :: unit qt_object_ops. \<exists>O'. set_defaultGrid (SettingsController_new O' Q None
     (SettingsController_save (SettingsController_initial\<lparr>set_defaultGrid := 9\<rparr>) Map.empty)) = 9"
proof
  fix Q :: "unit qt_object_ops"
  let ?O = "\<lparr>so_toBool = (\<lambda>v. case v of SV_bool b \<Rightarrow> b | _ \<Rightarrow> False),
     so_toInt = (\<lambda>v. case v of SV_int i \<Rightarrow> i | _ \<Rightarrow> 0),
     so_toString = (\<lambda>v. case v of SV_text t \<Rightarrow> t | _ \<Rightarrow> ''''), so_parseInt = (\<lambda>_. 0)\<rparr>"
  have "settings_faithful ?O" by (simp add: settings_faithful_def)
  from SettingsController_survives_restart [OF this, of Q None
      "SettingsController_initial\<lparr>set_defaultGrid := 9\<rparr>" Map.empty]
  show "\<exists>O'. set_defaultGrid (SettingsController_new O' Q None
     (SettingsController_save (SettingsController_initial\<lparr>set_defaultGrid := 9\<rparr>) Map.empty)) = 9"
    by (intro exI [of _ ?O]) simp
qed

text \<open>
  In every run of the settings controller, loads of any file included, the frame rate
  is positive; and after a load the default resolution is one of the resolutions of the file, if
  there are any.
\<close>

theorem SettingsController_stays_valid:
  "0 < set_fps (fst (foldl (SettingsController_step O' Q) (SettingsController_new O' Q json s, s) ops)) \<and>
   (let c = fst (foldl (SettingsController_step O' Q) (SettingsController_new O' Q json s, s)
                   (ops @ [(SO_load, json')]))
    in set_resolutions c = [] \<or> set_defaultResolution c \<in> set (set_resolutions c))"
proof -
  obtain c s' where cs: "foldl (SettingsController_step O' Q) (SettingsController_new O' Q json s, s) ops = (c, s')"
    by fastforce
  have "SettingsController_inv (c, s')"
    using settings_run.run_inv [of O' Q json s ops] unfolding cs .
  then show ?thesis
    using SettingsController_load_resolution [of O' Q json' s' c]
    by (auto simp: cs SettingsController_inv_def Let_def)
qed

text \<open>
  Claim C12. After any sequence of registrations, removals, destructions of windows, page changes
  and logouts, closing all windows closes every window that exists, was registered and was neither
  removed nor closed since, each exactly once, and no other object, and empties the registry. A
  logout does the same, then asks for the logout, and ends on the login page.
\<close>

theorem AppController_closes_registered:
  "\<exists>ws. distinct ws \<and> set ws = app_registered (\<lambda>_. True) {} ops \<and>
     (let s = foldl AppController_step app_system_init ops;
          a = AppController_closeAllCameraWindows (as_alive s) (as_app s);
          l = AppController_logout (as_alive s) (as_app s)
      in app_signals a = app_signals (as_app s) @ map AP_close ws \<and> app_cameraWindows a = [] \<and>
         app_currentPage a = app_currentPage (as_app s) \<and>
         app_currentPage l = ''Login'' \<and> app_cameraWindows l = [] \<and>
         app_signals l = app_signals (as_app s) @ map AP_close ws @ [AP_logoutRequested] @
           (if app_currentPage (as_app s) = ''Login'' then [] else [AP_currentPageChanged, AP_navigateTo ''Login'']))"
proof (intro exI conjI)
  let ?s = "foldl AppController_step app_system_init ops"
  let ?ws = "filter (as_alive ?s) (app_cameraWindows (as_app ?s))"
  show "distinct ?ws"
    using app_run.run_inv [of ops] by (simp add: app_inv_def)
  show "set ?ws = app_registered (\<lambda>_. True) {} ops"
    using app_registered_live [of app_system_init ops]
    by (simp add: app_system_init_def AppController_new_def)
qed (simp add: Let_def app_defs)

end
