(* ===== verification/SslContext.thy ===== *)
theory SslContext
  imports TcpSession
begin

text \<open>
  The contexts of Src/Crypt/TLS.hpp, MediaDTLS.hpp and DTLS.hpp (\<open>ServerContext\<close>,
  \<open>ClientContext\<close>), the cookies and the session of DTLS.hpp, and the sessions that
  Src/Network/NetworkService.cpp and UdpSession.hpp make from a context. The calls on a
  context are a parameter over an arbitrary type of contexts; what the code writes to the error
  log is recorded, one entry per message.
\<close>

section \<open>Contexts\<close>

datatype ssl_method = TLS_server_method | TLS_client_method | DTLS_server_method | DTLS_client_method

text \<open>\<open>SSL_VERIFY_NONE\<close> is the empty set of flags.\<close>

datatype verify_flag = SSL_VERIFY_PEER | SSL_VERIFY_FAIL_IF_NO_PEER_CERT

record 'c ctx_ops =
  ctx_new :: "ssl_method \<Rightarrow> 'c option"
  ctx_use_certificate_file :: "string \<Rightarrow> 'c \<Rightarrow> 'c \<times> int"
  ctx_use_PrivateKey_file :: "string \<Rightarrow> 'c \<Rightarrow> 'c \<times> int"
  ctx_check_private_key :: "'c \<Rightarrow> int"
  ctx_set_verify :: "verify_flag set \<Rightarrow> 'c \<Rightarrow> 'c"
  ctx_load_verify_locations :: "string \<Rightarrow> 'c \<Rightarrow> 'c \<times> int"
  ctx_set_ciphersuites :: "string \<Rightarrow> 'c \<Rightarrow> 'c"
  ctx_set_cipher_list :: "string \<Rightarrow> 'c \<Rightarrow> 'c"
  ctx_set_cookie_cbs :: "'c \<Rightarrow> 'c"
  ctx_set_cookie_exchange :: "'c \<Rightarrow> 'c"
  ctx_get_verify_mode :: "'c \<Rightarrow> verify_flag set"

datatype ctx_log = CL_new | CL_certificate | CL_key | CL_check | CL_ca

text \<open>A load from a file, if one is given, and its message when it fails.\<close>

definition ctx_load :: "(string \<Rightarrow> 'c \<Rightarrow> 'c \<times> int) \<Rightarrow> ctx_log \<Rightarrow> string option \<Rightarrow> 'c \<Rightarrow> 'c \<times> ctx_log list" where
  "ctx_load load entry file c =
     (case file of
        None \<Rightarrow> (c, [])
      | Some f \<Rightarrow> (case load f c of (c', r) \<Rightarrow> (c', if r \<noteq> 1 then [entry] else [])))"

definition TLS_ServerContext ::
  "'c ctx_ops \<Rightarrow> string option \<Rightarrow> string option \<Rightarrow> string option \<Rightarrow> 'c option \<times> ctx_log list" where
  "TLS_ServerContext C certfile keyfile cafile =
     (case ctx_new C TLS_server_method of
        None \<Rightarrow> (None, [CL_new])
      | Some c0 \<Rightarrow>
          let (c1, l1) = ctx_load (ctx_use_certificate_file C) CL_certificate certfile c0;
              (c2, l2) = ctx_load (ctx_use_PrivateKey_file C) CL_key keyfile c1;
              l3 = (if certfile \<noteq> None \<and> keyfile \<noteq> None \<and> ctx_check_private_key C c2 \<noteq> 1
                    then [CL_check] else [])
          in case cafile of
               Some ca \<Rightarrow>
                 let (c3, l4) = ctx_load (ctx_load_verify_locations C) CL_ca (Some ca)
                       (ctx_set_verify C {SSL_VERIFY_PEER, SSL_VERIFY_FAIL_IF_NO_PEER_CERT} c2)
                 in (Some c3, l1 @ l2 @ l3 @ l4)
             | None \<Rightarrow> (Some (ctx_set_verify C {} c2), l1 @ l2 @ l3))"

text \<open>The client says nothing when a load fails.\<close>

definition TLS_ClientContext ::
  "'c ctx_ops \<Rightarrow> string option \<Rightarrow> string option \<Rightarrow> string option \<Rightarrow> 'c option" where
  "TLS_ClientContext C certfile keyfile cafile =
     (case ctx_new C TLS_client_method of
        None \<Rightarrow> None
      | Some c0 \<Rightarrow>
          let c1 = (case certfile of None \<Rightarrow> c0 | Some f \<Rightarrow> fst (ctx_use_certificate_file C f c0));
              c2 = (case keyfile of None \<Rightarrow> c1 | Some f \<Rightarrow> fst (ctx_use_PrivateKey_file C f c1))
          in case cafile of
               Some ca \<Rightarrow> Some (fst (ctx_load_verify_locations C ca (ctx_set_verify C {SSL_VERIFY_PEER} c2)))
             | None \<Rightarrow> Some (ctx_set_verify C {} c2))"

definition MediaDTLS_ciphersuites :: string where
  "MediaDTLS_ciphersuites =
     ''TLS_AES_256_GCM_SHA384:TLS_CHACHA20_POLY1305_SHA256:TLS_AES_128_GCM_SHA256''"

definition MediaDTLS_cipher_list :: string where
  "MediaDTLS_cipher_list =
     ''ECDHE-ECDSA-AES256-GCM-SHA384:ECDHE-RSA-AES256-GCM-SHA384:'' @
     ''ECDHE-ECDSA-CHACHA20-POLY1305:ECDHE-RSA-CHACHA20-POLY1305:'' @
     ''ECDHE-ECDSA-AES128-GCM-SHA256:ECDHE-RSA-AES128-GCM-SHA256''"

definition MediaDTLS_applyCipherSuites :: "'c ctx_ops \<Rightarrow> 'c \<Rightarrow> 'c" where
  "MediaDTLS_applyCipherSuites C c =
     ctx_set_cipher_list C MediaDTLS_cipher_list (ctx_set_ciphersuites C MediaDTLS_ciphersuites c)"

definition MediaDTLS_ServerContext ::
  "'c ctx_ops \<Rightarrow> string option \<Rightarrow> string option \<Rightarrow> string option \<Rightarrow> 'c option \<times> ctx_log list" where
  "MediaDTLS_ServerContext C certfile keyfile cafile =
     (case ctx_new C DTLS_server_method of
        None \<Rightarrow> (None, [])
      | Some c0 \<Rightarrow>
          let (c1, l1) = ctx_load (ctx_use_certificate_file C) CL_certificate certfile
                (MediaDTLS_applyCipherSuites C c0);
              (c2, l2) = ctx_load (ctx_use_PrivateKey_file C) CL_key keyfile c1
          in case cafile of
               Some ca \<Rightarrow>
                 (Some (fst (ctx_load_verify_locations C ca
                    (ctx_set_verify C {SSL_VERIFY_PEER, SSL_VERIFY_FAIL_IF_NO_PEER_CERT} c2))), l1 @ l2)
             | None \<Rightarrow> (Some (ctx_set_verify C {} c2), l1 @ l2))"

definition MediaDTLS_ClientContext ::
  "'c ctx_ops \<Rightarrow> string option \<Rightarrow> string option \<Rightarrow> string option \<Rightarrow> 'c option \<times> ctx_log list" where
  "MediaDTLS_ClientContext C certfile keyfile cafile =
     (case ctx_new C DTLS_client_method of
        None \<Rightarrow> (None, [])
      | Some c0 \<Rightarrow>
          let (c1, l1) = ctx_load (ctx_use_certificate_file C) CL_certificate certfile
                (MediaDTLS_applyCipherSuites C c0);
              (c2, l2) = ctx_load (ctx_use_PrivateKey_file C) CL_key keyfile c1
          in case cafile of
               Some ca \<Rightarrow>
                 (Some (fst (ctx_load_verify_locations C ca (ctx_set_verify C {SSL_VERIFY_PEER} c2))), l1 @ l2)
             | None \<Rightarrow> (Some (ctx_set_verify C {} c2), l1 @ l2))"

definition DTLS_ServerContext ::
  "'c ctx_ops \<Rightarrow> string option \<Rightarrow> string option \<Rightarrow> string option \<Rightarrow> 'c option \<times> ctx_log list" where
  "DTLS_ServerContext C certfile keyfile cafile =
     (case ctx_new C DTLS_server_method of
        None \<Rightarrow> (None, [CL_new])
      | Some c0 \<Rightarrow>
          let (c1, l1) = ctx_load (ctx_use_certificate_file C) CL_certificate certfile c0;
              (c2, l2) = ctx_load (ctx_use_PrivateKey_file C) CL_key keyfile c1;
              l3 = (if certfile \<noteq> None \<and> keyfile \<noteq> None \<and> ctx_check_private_key C c2 \<noteq> 1
                    then [CL_check] else []);
              (c3, l4) = (case cafile of
                 Some ca \<Rightarrow> ctx_load (ctx_load_verify_locations C) CL_ca (Some ca)
                   (ctx_set_verify C {SSL_VERIFY_PEER, SSL_VERIFY_FAIL_IF_NO_PEER_CERT} c2)
               | None \<Rightarrow> (ctx_set_verify C {} c2, []))
          in (Some (ctx_set_cookie_exchange C (ctx_set_cookie_cbs C c3)), l1 @ l2 @ l3 @ l4))"

definition DTLS_ClientContext ::
  "'c ctx_ops \<Rightarrow> string option \<Rightarrow> string option \<Rightarrow> string option \<Rightarrow> 'c option" where
  "DTLS_ClientContext C certfile keyfile cafile =
     (case ctx_new C DTLS_client_method of
        None \<Rightarrow> None
      | Some c0 \<Rightarrow>
          let c1 = (case certfile of None \<Rightarrow> c0 | Some f \<Rightarrow> fst (ctx_use_certificate_file C f c0));
              c2 = (case keyfile of None \<Rightarrow> c1 | Some f \<Rightarrow> fst (ctx_use_PrivateKey_file C f c1))
          in case cafile of
               Some ca \<Rightarrow> Some (fst (ctx_load_verify_locations C ca (ctx_set_verify C {SSL_VERIFY_PEER} c2)))
             | None \<Rightarrow> Some (ctx_set_verify C {} c2))"

section \<open>The connections of the client\<close>

text \<open>
  \<open>new_ssl c isServer\<close> is the session object for a context, \<open>None\<close> inside where \<open>SSL_new\<close> fails.
  \<open>TcpSession\<close> gets no TLS session at all when the context is null.
\<close>

definition NetworkService_context :: "'c ctx_ops \<Rightarrow> 'c option" where
  "NetworkService_context C =
     TLS_ClientContext C (Some ''Auth/client.crt'') (Some ''Auth/client.key'') (Some ''Auth/ca.crt'')"

definition TcpSession_of_context :: "('c \<Rightarrow> bool \<Rightarrow> 'e ssl_session) \<Rightarrow> 'c option \<Rightarrow> bool \<Rightarrow> 'e TcpSession" where
  "TcpSession_of_context new_ssl ctx isServer = TcpSession_new (map_option (\<lambda>c. new_ssl c isServer) ctx)"

definition NetworkService_session :: "'c ctx_ops \<Rightarrow> ('c \<Rightarrow> bool \<Rightarrow> 'e ssl_session) \<Rightarrow> 'e TcpSession" where
  "NetworkService_session C new_ssl = TcpSession_of_context new_ssl (NetworkService_context C) False"

text \<open>The session of the media channel takes a null context, which gives a session without engine.\<close>

definition UdpSession_context :: "'c ctx_ops \<Rightarrow> 'c option" where
  "UdpSession_context C =
     fst (MediaDTLS_ClientContext C (Some ''Auth/client.crt'') (Some ''Auth/client.key'') (Some ''Auth/ca.crt''))"

section \<open>Cookies\<close>

text \<open>
  \<open>SecretCookie\<close> and \<open>cookie_flag\<close>. \<open>RAND_bytes\<close> gives its bytes or fails, in which case the buffer
  keeps what it holds, zeros at the start. \<open>hmac\<close> is \<open>HMAC\<close> with SHA-256.
\<close>

record cookie_state =
  ck_secret :: bytes
  ck_flag :: bool

definition cookie_init :: cookie_state where
  "cookie_init = \<lparr>ck_secret = replicate 32 0, ck_flag = False\<rparr>"

definition DTLS_InitCookie :: "bytes option \<Rightarrow> cookie_state \<Rightarrow> cookie_state" where
  "DTLS_InitCookie rand_bytes ck =
     (if ck_flag ck then ck
      else (case rand_bytes of
              None \<Rightarrow> ck\<lparr>ck_flag := True\<rparr>
            | Some bs \<Rightarrow> ck\<lparr>ck_flag := True, ck_secret := bs\<rparr>))"

definition DTLS_GenerateCookieWithPeer ::
  "(bytes \<Rightarrow> bytes \<Rightarrow> bytes) \<Rightarrow> cookie_state \<Rightarrow> bytes \<Rightarrow> bytes \<times> nat" where
  "DTLS_GenerateCookieWithPeer hmac ck peer =
     (let result = hmac (ck_secret ck) peer in (result, length result))"

text \<open>\<open>cookie\<close> is the buffer of the caller, which has at least \<open>len\<close> bytes; memcmp compares bytes.\<close>

definition DTLS_VerifyCookieWithPeer ::
  "(bytes \<Rightarrow> bytes \<Rightarrow> bytes) \<Rightarrow> cookie_state \<Rightarrow> bytes \<Rightarrow> bytes \<Rightarrow> nat \<Rightarrow> bool" where
  "DTLS_VerifyCookieWithPeer hmac ck peer cookie len =
     (let result = hmac (ck_secret ck) peer
      in len = length result \<and> take (length result) cookie = result)"

text \<open>The callbacks get the connection but use an empty peer.\<close>

definition DTLS_GenerateCookie ::
  "(bytes \<Rightarrow> bytes \<Rightarrow> bytes) \<Rightarrow> cookie_state \<Rightarrow> 's \<Rightarrow> bytes \<times> nat" where
  "DTLS_GenerateCookie hmac ck ssl = DTLS_GenerateCookieWithPeer hmac ck []"

definition DTLS_VerifyCookie ::
  "(bytes \<Rightarrow> bytes \<Rightarrow> bytes) \<Rightarrow> cookie_state \<Rightarrow> 's \<Rightarrow> bytes \<Rightarrow> nat \<Rightarrow> bool" where
  "DTLS_VerifyCookie hmac ck ssl cookie len = DTLS_VerifyCookieWithPeer hmac ck [] cookie len"

section \<open>The session of DTLS.hpp\<close>

record 'e dtls_session =
  dtls_ssl :: "'e ssl_session"
  dtls_peer :: bytes

definition DTLS_setPeer :: "bytes \<Rightarrow> 'e dtls_session \<Rightarrow> 'e dtls_session" where
  "DTLS_setPeer peerIdent s = s\<lparr>dtls_peer := peerIdent\<rparr>"

definition DTLS_isValid :: "'e dtls_session \<Rightarrow> bool" where
  "DTLS_isValid s \<longleftrightarrow> dtls_ssl s \<noteq> None"

definition DTLS_isHandshakeDone :: "'e ssl_ops \<Rightarrow> 'e dtls_session \<Rightarrow> bool" where
  "DTLS_isHandshakeDone S s \<longleftrightarrow>
     (case dtls_ssl s of None \<Rightarrow> False | Some e \<Rightarrow> ssl_is_init_finished S e)"

definition DTLS_flushWriteBio :: "'e ssl_ops \<Rightarrow> 'e \<Rightarrow> 'e \<times> bytes" where
  "DTLS_flushWriteBio S e =
     (let pending = bio_pending S e in
      if 0 < pending
      then (case bio_read S pending e of (e', None) \<Rightarrow> (e', []) | (e', Some out) \<Rightarrow> (e', out))
      else (e, []))"

definition DTLS_Handshake :: "'e ssl_ops \<Rightarrow> 'e dtls_session \<Rightarrow> 'e dtls_session \<times> bytes" where
  "DTLS_Handshake S s =
     (case dtls_ssl s of
        None \<Rightarrow> (s, [])
      | Some e \<Rightarrow>
          (case DTLS_flushWriteBio S (ssl_advance S e) of (e', out) \<Rightarrow> (s\<lparr>dtls_ssl := Some e'\<rparr>, out)))"

text \<open>\<open>static_cast<int>(size)\<close> of a 64 bit size.\<close>

definition int_of_size :: "nat \<Rightarrow> int" where
  "int_of_size n = sint (word_of_nat n :: 32 word)"

definition DTLS_decrypt ::
  "'e ssl_ops \<Rightarrow> bytes \<Rightarrow> nat \<Rightarrow> 'e dtls_session \<Rightarrow> ('e dtls_session \<times> bytes) option" where
  "DTLS_decrypt S buffer len s =
     (case dtls_ssl s of
        None \<Rightarrow> Some (s, [])
      | Some e \<Rightarrow>
          (case bio_write S buffer (int_of_size len) e of
             (e1, written) \<Rightarrow>
               if written \<le> 0 then Some (s\<lparr>dtls_ssl := Some e1\<rparr>, [])
               else
                 let e2 = ssl_advance S e1 in
                 if \<not> ssl_is_init_finished S e2 then Some (s\<lparr>dtls_ssl := Some e2\<rparr>, [])
                 else map_option (\<lambda>(e3, plain). (s\<lparr>dtls_ssl := Some e3\<rparr>, plain)) (ssl_drain S [] e2)))"

definition DTLS_encrypt ::
  "'e ssl_ops \<Rightarrow> bytes \<Rightarrow> nat \<Rightarrow> 'e dtls_session \<Rightarrow> 'e dtls_session \<times> bytes" where
  "DTLS_encrypt S buffer len s =
     (case dtls_ssl s of
        None \<Rightarrow> (s, [])
      | Some e \<Rightarrow>
          if \<not> ssl_is_init_finished S e then (s, [])
          else
            (case ssl_write S buffer (int_of_size len) e of
               (e1, written) \<Rightarrow>
                 if written \<le> 0 then (s\<lparr>dtls_ssl := Some e1\<rparr>, [])
                 else (case DTLS_flushWriteBio S e1 of (e2, out) \<Rightarrow> (s\<lparr>dtls_ssl := Some e2\<rparr>, out))))"

definition DTLS_getHandshakeData :: "'e ssl_ops \<Rightarrow> 'e dtls_session \<Rightarrow> 'e dtls_session \<times> bytes" where
  "DTLS_getHandshakeData S s =
     (case dtls_ssl s of
        None \<Rightarrow> (s, [])
      | Some e \<Rightarrow> (case DTLS_flushWriteBio S e of (e', out) \<Rightarrow> (s\<lparr>dtls_ssl := Some e'\<rparr>, out)))"

definition DTLS_getCID :: "bytes \<Rightarrow> bytes" where
  "DTLS_getCID packet = (if length packet < 8 then [] else take 8 packet)"

text \<open>
  The name of the cipher of MediaDTLS.hpp; \<open>cipher\<close> gives the name of the current cipher, if the
  connection has one.
\<close>

definition MediaDTLS_getNegotiatedCipher :: "'e ssl_ops \<Rightarrow> ('e \<Rightarrow> string option) \<Rightarrow> 'e ssl_session \<Rightarrow> string" where
  "MediaDTLS_getNegotiatedCipher S cipher s =
     (case s of
        None \<Rightarrow> ''Not Negotiated Yet''
      | Some e \<Rightarrow>
          if \<not> MediaDTLS_isHandshakeDone S s then ''Not Negotiated Yet''
          else (case cipher e of Some name \<Rightarrow> name | None \<Rightarrow> ''Unknown''))"

section \<open>What the contexts rely on\<close>

text \<open>
  The verify mode of a context is what was set last; the loads and the other settings leave it.
\<close>

definition ctx_documented :: "'c ctx_ops \<Rightarrow> bool" where
  "ctx_documented C \<longleftrightarrow>
     (\<forall>mode c. ctx_get_verify_mode C (ctx_set_verify C mode c) = mode) \<and>
     (\<forall>f c. ctx_get_verify_mode C (fst (ctx_load_verify_locations C f c)) = ctx_get_verify_mode C c) \<and>
     (\<forall>c. ctx_get_verify_mode C (ctx_set_cookie_cbs C c) = ctx_get_verify_mode C c) \<and>
     (\<forall>c. ctx_get_verify_mode C (ctx_set_cookie_exchange C c) = ctx_get_verify_mode C c)"

lemma ctx_load_fst [simp]:
  "fst (ctx_load load entry file c) = (case file of None \<Rightarrow> c | Some f \<Rightarrow> fst (load f c))"
  by (simp add: ctx_load_def split: option.splits prod.splits)

lemma ctx_documented_simps:
  assumes "ctx_documented C"
  shows "ctx_get_verify_mode C (ctx_set_verify C mode c) = mode"
    "ctx_get_verify_mode C (fst (ctx_load_verify_locations C f c)) = ctx_get_verify_mode C c"
    "ctx_get_verify_mode C (ctx_set_cookie_cbs C c) = ctx_get_verify_mode C c"
    "ctx_get_verify_mode C (ctx_set_cookie_exchange C c) = ctx_get_verify_mode C c"
    "ctx_get_verify_mode C (fst (ctx_load (ctx_load_verify_locations C) entry file c)) = ctx_get_verify_mode C c"
  using assms by (auto simp: ctx_documented_def split: option.splits)

definition server_mode :: "string option \<Rightarrow> verify_flag set" where
  "server_mode cafile = (if cafile = None then {} else {SSL_VERIFY_PEER, SSL_VERIFY_FAIL_IF_NO_PEER_CERT})"

definition client_mode :: "string option \<Rightarrow> verify_flag set" where
  "client_mode cafile = (if cafile = None then {} else {SSL_VERIFY_PEER})"

text \<open>A context as a record of its settings, for the witnesses: \<open>ok\<close> says which files load.\<close>

record toy_ctx =
  toy_method :: ssl_method
  toy_mode :: "verify_flag set"
  toy_ciphers :: string

definition toy_ctx_ops :: "(string \<Rightarrow> bool) \<Rightarrow> toy_ctx ctx_ops" where
  "toy_ctx_ops ok =
     \<lparr>ctx_new = (\<lambda>m. Some \<lparr>toy_method = m, toy_mode = {}, toy_ciphers = ''''\<rparr>),
      ctx_use_certificate_file = (\<lambda>f c. (c, if ok f then 1 else 0)),
      ctx_use_PrivateKey_file = (\<lambda>f c. (c, if ok f then 1 else 0)),
      ctx_check_private_key = (\<lambda>c. 1),
      ctx_set_verify = (\<lambda>mode c. c\<lparr>toy_mode := mode\<rparr>),
      ctx_load_verify_locations = (\<lambda>f c. (c, if ok f then 1 else 0)),
      ctx_set_ciphersuites = (\<lambda>s c. c), ctx_set_cipher_list = (\<lambda>s c. c\<lparr>toy_ciphers := s\<rparr>),
      ctx_set_cookie_cbs = (\<lambda>c. c), ctx_set_cookie_exchange = (\<lambda>c. c),
      ctx_get_verify_mode = toy_mode\<rparr>"

lemma toy_ctx_documented: "ctx_documented (toy_ctx_ops ok)"
  by (simp add: ctx_documented_def toy_ctx_ops_def)

lemma int_of_size_eq: "int_of_size n = signed_take_bit 31 (int n)"
  by (simp add: int_of_size_def signed_of_nat)

lemma int_of_size_small: "n < 2 ^ 31 \<Longrightarrow> int_of_size n = int n"
  by (simp add: int_of_size_eq signed_take_bit_int_eq_self)

lemma int_of_size_negative:
  assumes "2 ^ 31 \<le> n" "n < 2 ^ 32"
  shows "int_of_size n < 0"
proof -
  have "int n div 2 ^ 31 = 1"
    using assms by (intro int_div_pos_eq [where r = "int n - 2 ^ 31"]) auto
  then have "bit (int n) 31" by (simp add: bit_iff_odd)
  moreover have "take_bit 32 (int n) = int n"
    using assms by (intro take_bit_int_eq_self) auto
  ultimately show ?thesis
    using assms by (simp add: int_of_size_eq signed_take_bit_eq_take_bit_minus)
qed

lemma DTLS_flushWriteBio_eq: "DTLS_flushWriteBio = flushWriteBio"
  by (simp add: DTLS_flushWriteBio_def flushWriteBio_def fun_eq_iff)

section \<open>Properties\<close>

lemmas context_defs = TLS_ServerContext_def TLS_ClientContext_def MediaDTLS_ServerContext_def
  MediaDTLS_ClientContext_def DTLS_ServerContext_def DTLS_ClientContext_def server_mode_def client_mode_def

text \<open>
  Whatever files fail to load, each of the six constructors gives no context only if
  OpenSSL gives none, and else one that verifies the peer exactly if a CA file is named; a server
  then also demands a certificate.
\<close>

theorem contexts_verify_peer:
  assumes "ctx_documented C"
  shows "(case fst (TLS_ServerContext C cert key ca) of
       None \<Rightarrow> ctx_new C TLS_server_method = None | Some c \<Rightarrow> ctx_get_verify_mode C c = server_mode ca) \<and>
     (case TLS_ClientContext C cert key ca of
       None \<Rightarrow> ctx_new C TLS_client_method = None | Some c \<Rightarrow> ctx_get_verify_mode C c = client_mode ca) \<and>
     (case fst (MediaDTLS_ServerContext C cert key ca) of
       None \<Rightarrow> ctx_new C DTLS_server_method = None | Some c \<Rightarrow> ctx_get_verify_mode C c = server_mode ca) \<and>
     (case fst (MediaDTLS_ClientContext C cert key ca) of
       None \<Rightarrow> ctx_new C DTLS_client_method = None | Some c \<Rightarrow> ctx_get_verify_mode C c = client_mode ca) \<and>
     (case fst (DTLS_ServerContext C cert key ca) of
       None \<Rightarrow> ctx_new C DTLS_server_method = None | Some c \<Rightarrow> ctx_get_verify_mode C c = server_mode ca) \<and>
     (case DTLS_ClientContext C cert key ca of
       None \<Rightarrow> ctx_new C DTLS_client_method = None | Some c \<Rightarrow> ctx_get_verify_mode C c = client_mode ca)"
  using ctx_documented_simps [OF assms]
  by (intro conjI) (simp_all add: context_defs Let_def case_prod_beta split: option.splits)

theorem contexts_verify_peer_witness:
  "\<exists>c. TLS_ClientContext (toy_ctx_ops (\<lambda>_. False)) None None (Some ''ca'') = Some c \<and>
     toy_mode c = {SSL_VERIFY_PEER}"
  using contexts_verify_peer [OF toy_ctx_documented, of "\<lambda>_. False" None None "Some ''ca''"]
  by (auto simp: client_mode_def toy_ctx_ops_def TLS_ClientContext_def)

text \<open>
  Claim C32. The TCP connection of the client either runs TLS in a context that verifies the
  server, or, when OpenSSL gives no context, runs without TLS and reports that it is connected as
  soon as it starts.
\<close>

theorem NetworkService_session_secure_or_plain:
  assumes "ctx_documented C"
  shows "case ctx_new C TLS_client_method of
      None \<Rightarrow> TcpSession_start S H (NetworkService_session C new_ssl) =
        ((TcpSession_new None)\<lparr>tcp_phase := TCP_reading_header\<rparr>, if th_connected H then [TCP_onConnected] else [])
    | Some c0 \<Rightarrow> (\<exists>c. NetworkService_context C = Some c \<and> ctx_get_verify_mode C c = {SSL_VERIFY_PEER} \<and>
        tcp_tls (NetworkService_session C new_ssl) = Some (new_ssl c False) \<and>
        TCP_onConnected \<notin> set (snd (TcpSession_start S H (NetworkService_session C new_ssl))))"
  using ctx_documented_simps [OF assms]
  by (auto simp: NetworkService_session_def NetworkService_context_def TcpSession_of_context_def
      TLS_ClientContext_def TcpSession_start_def TcpSession_new_def TcpSession_handleTlsOutput_def Let_def
      split: option.splits prod.splits)

theorem NetworkService_session_secure_or_plain_witness:
  "\<exists>c. NetworkService_context (toy_ctx_ops (\<lambda>_. True)) = Some c \<and> toy_mode c = {SSL_VERIFY_PEER} \<and>
     tcp_tls (NetworkService_session (toy_ctx_ops (\<lambda>_. True))
       (\<lambda>c b. Some \<lparr>loop_in = [], loop_out = [], loop_done = b\<rparr>)) =
       Some (Some \<lparr>loop_in = [], loop_out = [], loop_done = False\<rparr>)"
  using NetworkService_session_secure_or_plain [OF toy_ctx_documented, of loop_ops
      "\<lparr>th_message = True, th_disconnect = True, th_connected = True\<rparr>" "\<lambda>_. True"
      "\<lambda>c b. Some \<lparr>loop_in = [], loop_out = [], loop_done = b\<rparr>"]
  by (auto simp: toy_ctx_ops_def)

text \<open>
  In any sequence of initialisations only the first draws the secret, and a
  verification accepts exactly the cookie that was generated; but the two callbacks of the server
  context do not look at the connection, so the cookie of one connection passes for every other.
\<close>

theorem DTLS_cookies:
  "(let ck = foldl (\<lambda>ck r. DTLS_InitCookie r ck) cookie_init rs
    in ck_secret ck = (case rs of Some bs # _ \<Rightarrow> bs | _ \<Rightarrow> replicate 32 0)) \<and>
   DTLS_VerifyCookieWithPeer hmac ck peer cookie (length cookie) =
     ((cookie, length cookie) = DTLS_GenerateCookieWithPeer hmac ck peer) \<and>
   (case DTLS_GenerateCookie hmac ck ssl of (c, len) \<Rightarrow> DTLS_VerifyCookie hmac ck ssl' c len)"
proof (intro conjI)
  have once: "foldl (\<lambda>ck r. DTLS_InitCookie r ck) ck rs = ck" if "ck_flag ck" for ck rs
    using that by (induction rs) (simp_all add: DTLS_InitCookie_def)
  show "let ck = foldl (\<lambda>ck r. DTLS_InitCookie r ck) cookie_init rs
    in ck_secret ck = (case rs of Some bs # _ \<Rightarrow> bs | _ \<Rightarrow> replicate 32 0)"
  proof (cases rs)
    case (Cons r rs')
    have "DTLS_InitCookie r cookie_init =
        \<lparr>ck_secret = (case r of Some bs \<Rightarrow> bs | None \<Rightarrow> replicate 32 0), ck_flag = True\<rparr>"
      by (simp add: DTLS_InitCookie_def cookie_init_def split: option.splits)
    with Cons show ?thesis
      by (simp add: once split: option.splits)
  qed (simp add: cookie_init_def)
qed (auto simp: DTLS_VerifyCookieWithPeer_def DTLS_GenerateCookieWithPeer_def DTLS_GenerateCookie_def
    DTLS_VerifyCookie_def Let_def)

text \<open>
  For packets of less than \<open>2 ^ 31\<close> bytes the session of DTLS.hpp does what the session of
  TLS.hpp does and never changes its peer; for longer ones, up to \<open>2 ^ 32\<close> bytes, the engine is
  asked to take a negative number of bytes.
\<close>

theorem DTLS_session_is_TLS_session:
  "DTLS_Handshake S s = (case TLS_Handshake S (dtls_ssl s) of (e, out) \<Rightarrow> (s\<lparr>dtls_ssl := e\<rparr>, out)) \<and>
   DTLS_getHandshakeData S s =
     (case TLS_getHandshakeData S (dtls_ssl s) of (e, out) \<Rightarrow> (s\<lparr>dtls_ssl := e\<rparr>, out)) \<and>
   DTLS_isHandshakeDone S s = ssl_isHandshakeDone S (dtls_ssl s) \<and>
   DTLS_encrypt S buffer len s =
     (case TLS_encrypt S buffer (int_of_size len) (dtls_ssl s) of (e, out) \<Rightarrow> (s\<lparr>dtls_ssl := e\<rparr>, out)) \<and>
   DTLS_decrypt S buffer len s =
     map_option (\<lambda>(e, out). (s\<lparr>dtls_ssl := e\<rparr>, out)) (TLS_decrypt S buffer (int_of_size len) (dtls_ssl s)) \<and>
   (if len < 2 ^ 31 then int_of_size len = int len
    else if len < 2 ^ 32 then int_of_size len < 0 else True)"
proof (intro conjI)
  show "if len < 2 ^ 31 then int_of_size len = int len else if len < 2 ^ 32 then int_of_size len < 0 else True"
    by (simp add: int_of_size_small int_of_size_negative)
qed (cases s; auto simp: DTLS_Handshake_def TLS_Handshake_def DTLS_getHandshakeData_def
    TLS_getHandshakeData_def DTLS_isHandshakeDone_def ssl_isHandshakeDone_def DTLS_encrypt_def
    TLS_encrypt_def DTLS_decrypt_def TLS_decrypt_def DTLS_flushWriteBio_eq Let_def
    option.map_comp comp_def case_prod_beta split: option.splits prod.splits intro!: option.map_cong)+

end
