(* ===== verification/SslObjects.thy ===== *)
theory SslObjects
  imports Prelude
begin

text \<open>
  The life of the session objects of Src/Crypt/TLS.hpp, DTLS.hpp and MediaDTLS.hpp: constructors,
  moves, move assignment and destructor, as the sequence of OpenSSL calls they make on connections
  (\<open>SSL\<close>) and memory buffers (\<open>BIO\<close>). An object of OpenSSL is the number of the allocation that gave
  it; \<open>fail\<close> says which allocations give null. The ownership that OpenSSL documents is the ledger
  below, a specification that the sequences of calls are held against.
\<close>

section \<open>Calls\<close>

datatype crypt_call =
    CC_SSL_new nat
  | CC_SSL_free nat
  | CC_BIO_new nat
  | CC_BIO_free nat
  | CC_set_mem_eof_return "nat option"
  | CC_SSL_set_bio nat "nat option" "nat option"
  | CC_set_accept_state nat
  | CC_set_connect_state nat
  | CC_set_link_mtu nat

record crypt_world =
  cw_next :: nat
  cw_calls :: "crypt_call list"

definition crypt_alloc ::
  "(nat \<Rightarrow> bool) \<Rightarrow> (nat \<Rightarrow> crypt_call) \<Rightarrow> crypt_world \<Rightarrow> nat option \<times> crypt_world" where
  "crypt_alloc fail call w =
     (let n = cw_next w in
      if fail n then (None, w\<lparr>cw_next := n + 1\<rparr>)
      else (Some n, w\<lparr>cw_next := n + 1, cw_calls := cw_calls w @ [call n]\<rparr>))"

definition crypt_do :: "crypt_call list \<Rightarrow> crypt_world \<Rightarrow> crypt_world" where
  "crypt_do calls w = w\<lparr>cw_calls := cw_calls w @ calls\<rparr>"

section \<open>Session objects\<close>

record session_object =
  sn_ssl :: "nat option"
  sn_readBio :: "nat option"
  sn_writeBio :: "nat option"

definition session_null :: session_object where
  "session_null = \<lparr>sn_ssl = None, sn_readBio = None, sn_writeBio = None\<rparr>"

text \<open>\<open>BIO_free\<close> behind a test for null.\<close>

definition bio_free_calls :: "nat option \<Rightarrow> crypt_call list" where
  "bio_free_calls bio = (case bio of None \<Rightarrow> [] | Some b \<Rightarrow> [CC_BIO_free b])"

definition state_call :: "bool \<Rightarrow> nat \<Rightarrow> crypt_call" where
  "state_call isServer ssl = (if isServer then CC_set_accept_state ssl else CC_set_connect_state ssl)"

definition TLS_Session_new ::
  "(nat \<Rightarrow> bool) \<Rightarrow> bool \<Rightarrow> bool \<Rightarrow> crypt_world \<Rightarrow> session_object \<times> crypt_world" where
  "TLS_Session_new fail ctx isServer w =
     (if \<not> ctx then (session_null, w)
      else
        (case crypt_alloc fail CC_SSL_new w of
           (None, w1) \<Rightarrow> (session_null, w1)
         | (Some ssl, w1) \<Rightarrow>
             let (readBio, w2) = crypt_alloc fail CC_BIO_new w1;
                 (writeBio, w3) = crypt_alloc fail CC_BIO_new w2
             in if readBio = None \<or> writeBio = None
                then (session_null,
                      crypt_do (bio_free_calls readBio @ bio_free_calls writeBio @ [CC_SSL_free ssl]) w3)
                else (\<lparr>sn_ssl = Some ssl, sn_readBio = readBio, sn_writeBio = writeBio\<rparr>,
                      crypt_do [CC_set_mem_eof_return readBio, CC_set_mem_eof_return writeBio,
                                CC_SSL_set_bio ssl readBio writeBio, state_call isServer ssl] w3)))"

definition DTLS_Session_new ::
  "(nat \<Rightarrow> bool) \<Rightarrow> bool \<Rightarrow> bool \<Rightarrow> crypt_world \<Rightarrow> session_object \<times> crypt_world" where
  "DTLS_Session_new fail ctx isServer w =
     (if \<not> ctx then (session_null, w)
      else
        (case crypt_alloc fail CC_SSL_new w of
           (None, w1) \<Rightarrow> (session_null, w1)
         | (Some ssl, w1) \<Rightarrow>
             let (readBio, w2) = crypt_alloc fail CC_BIO_new (crypt_do [state_call isServer ssl] w1);
                 (writeBio, w3) = crypt_alloc fail CC_BIO_new w2
             in if readBio = None \<or> writeBio = None
                then (session_null,
                      crypt_do (bio_free_calls readBio @ bio_free_calls writeBio @ [CC_SSL_free ssl]) w3)
                else (\<lparr>sn_ssl = Some ssl, sn_readBio = readBio, sn_writeBio = writeBio\<rparr>,
                      crypt_do [CC_set_mem_eof_return readBio, CC_set_mem_eof_return writeBio,
                                CC_SSL_set_bio ssl readBio writeBio] w3)))"

text \<open>
  The context and the buffers are not tested here; \<open>SSL_new\<close> of a null context gives null.
\<close>

definition MediaDTLS_Session_new ::
  "(nat \<Rightarrow> bool) \<Rightarrow> bool \<Rightarrow> bool \<Rightarrow> crypt_world \<Rightarrow> session_object \<times> crypt_world" where
  "MediaDTLS_Session_new fail ctx isServer w =
     (case if ctx then crypt_alloc fail CC_SSL_new w else (None, w) of
        (None, w1) \<Rightarrow> (session_null, w1)
      | (Some ssl, w1) \<Rightarrow>
          let (readBio, w2) = crypt_alloc fail CC_BIO_new w1;
              (writeBio, w3) = crypt_alloc fail CC_BIO_new w2
          in (\<lparr>sn_ssl = Some ssl, sn_readBio = readBio, sn_writeBio = writeBio\<rparr>,
              crypt_do [CC_set_mem_eof_return readBio, CC_set_mem_eof_return writeBio,
                        CC_SSL_set_bio ssl readBio writeBio, CC_set_link_mtu ssl,
                        state_call isServer ssl] w3))"

text \<open>The rest has the same text in the three classes.\<close>

definition Session_cleanup :: "session_object \<Rightarrow> crypt_world \<Rightarrow> session_object \<times> crypt_world" where
  "Session_cleanup s w =
     (case sn_ssl s of
        None \<Rightarrow> (s, w)
      | Some ssl \<Rightarrow> (session_null, crypt_do [CC_SSL_free ssl] w))"

text \<open>The new object and what is left of the other one.\<close>

definition Session_move :: "session_object \<Rightarrow> session_object \<times> session_object" where
  "Session_move other =
     (\<lparr>sn_ssl = sn_ssl other, sn_readBio = sn_readBio other, sn_writeBio = sn_writeBio other\<rparr>, session_null)"

text \<open>
  Move assignment to another object: the new value, what is left of the other one, the world.
\<close>

definition Session_assign ::
  "session_object \<Rightarrow> session_object \<Rightarrow> crypt_world \<Rightarrow> session_object \<times> session_object \<times> crypt_world" where
  "Session_assign this other w =
     (case Session_cleanup this w of
        (_, w') \<Rightarrow> (case Session_move other of (s, other') \<Rightarrow> (s, other', w')))"

section \<open>Programs that use sessions\<close>

datatype session_class = CLASS_TLS | CLASS_DTLS | CLASS_MediaDTLS

definition Session_new ::
  "(nat \<Rightarrow> bool) \<Rightarrow> session_class \<Rightarrow> bool \<Rightarrow> bool \<Rightarrow> crypt_world \<Rightarrow> session_object \<times> crypt_world" where
  "Session_new fail k = (case k of CLASS_TLS \<Rightarrow> TLS_Session_new fail | CLASS_DTLS \<Rightarrow> DTLS_Session_new fail
     | CLASS_MediaDTLS \<Rightarrow> MediaDTLS_Session_new fail)"

record session_program =
  sp_vars :: "nat \<rightharpoonup> session_object"
  sp_world :: crypt_world

definition session_program_init :: session_program where
  "session_program_init = \<lparr>sp_vars = Map.empty, sp_world = \<lparr>cw_next = 0, cw_calls = []\<rparr>\<rparr>"

datatype session_op =
    SNO_construct nat session_class bool bool  \<comment> \<open>the context is not null, server\<close>
  | SNO_move nat nat  \<comment> \<open>a new variable from an old one\<close>
  | SNO_assign nat nat  \<comment> \<open>\<open>x = std::move(y)\<close>\<close>
  | SNO_destroy nat

text \<open>An operation on variables that are not in scope is none.\<close>

fun session_step :: "(nat \<Rightarrow> bool) \<Rightarrow> session_program \<Rightarrow> session_op \<Rightarrow> session_program" where
  "session_step fail p (SNO_construct x k ctx isServer) =
     (if sp_vars p x \<noteq> None then p
      else (case Session_new fail k ctx isServer (sp_world p) of
              (s, w) \<Rightarrow> \<lparr>sp_vars = (sp_vars p)(x \<mapsto> s), sp_world = w\<rparr>))"
| "session_step fail p (SNO_move x y) =
     (case (sp_vars p x, sp_vars p y) of
        (None, Some other) \<Rightarrow>
          (case Session_move other of (s, other') \<Rightarrow> p\<lparr>sp_vars := (sp_vars p)(x \<mapsto> s, y \<mapsto> other')\<rparr>)
      | _ \<Rightarrow> p)"
| "session_step fail p (SNO_assign x y) =
     (case (sp_vars p x, sp_vars p y) of
        (Some this, Some other) \<Rightarrow>
          if x = y then p
          else (case Session_assign this other (sp_world p) of
                  (s, other', w) \<Rightarrow> \<lparr>sp_vars = (sp_vars p)(x \<mapsto> s, y \<mapsto> other'), sp_world = w\<rparr>)
      | _ \<Rightarrow> p)"
| "session_step fail p (SNO_destroy x) =
     (case sp_vars p x of
        None \<Rightarrow> p
      | Some this \<Rightarrow>
          \<lparr>sp_vars = (sp_vars p)(x := None), sp_world = snd (Session_cleanup this (sp_world p))\<rparr>)"

section \<open>The ledger\<close>

text \<open>
  The connections that exist with the buffers they own, and the buffers that no connection owns.
  A call on an object that does not exist is an error, \<open>None\<close>: a double free, a use after a free
  or a null pointer.
\<close>

record ledger =
  lg_ssl :: "nat \<rightharpoonup> nat set"
  lg_bio :: "nat set"

fun ledger_step :: "ledger \<Rightarrow> crypt_call \<Rightarrow> ledger option" where
  "ledger_step L (CC_SSL_new s) = (if lg_ssl L s \<noteq> None then None else Some (L\<lparr>lg_ssl := (lg_ssl L)(s \<mapsto> {})\<rparr>))"
| "ledger_step L (CC_SSL_free s) = (if lg_ssl L s = None then None else Some (L\<lparr>lg_ssl := (lg_ssl L)(s := None)\<rparr>))"
| "ledger_step L (CC_BIO_new b) = (if b \<in> lg_bio L then None else Some (L\<lparr>lg_bio := insert b (lg_bio L)\<rparr>))"
| "ledger_step L (CC_BIO_free b) = (if b \<notin> lg_bio L then None else Some (L\<lparr>lg_bio := lg_bio L - {b}\<rparr>))"
| "ledger_step L (CC_set_mem_eof_return b) =
     (case b of None \<Rightarrow> None | Some b' \<Rightarrow> if b' \<in> lg_bio L then Some L else None)"
| "ledger_step L (CC_SSL_set_bio s r w) =
     (if lg_ssl L s = Some {} \<and> set_option r \<union> set_option w \<subseteq> lg_bio L
      then Some (L\<lparr>lg_ssl := (lg_ssl L)(s \<mapsto> set_option r \<union> set_option w),
                   lg_bio := lg_bio L - (set_option r \<union> set_option w)\<rparr>)
      else None)"
| "ledger_step L (CC_set_accept_state s) = (if lg_ssl L s = None then None else Some L)"
| "ledger_step L (CC_set_connect_state s) = (if lg_ssl L s = None then None else Some L)"
| "ledger_step L (CC_set_link_mtu s) = (if lg_ssl L s = None then None else Some L)"

fun ledger_run :: "ledger \<Rightarrow> crypt_call list \<Rightarrow> ledger option" where
  "ledger_run L [] = Some L"
| "ledger_run L (c # cs) = (case ledger_step L c of None \<Rightarrow> None | Some L' \<Rightarrow> ledger_run L' cs)"

definition ledger_empty :: ledger where
  "ledger_empty = \<lparr>lg_ssl = Map.empty, lg_bio = {}\<rparr>"

lemma ledger_run_append:
  "ledger_run L (xs @ ys) = (case ledger_run L xs of None \<Rightarrow> None | Some L' \<Rightarrow> ledger_run L' ys)"
  by (induction xs arbitrary: L) (auto split: option.splits)

section \<open>Who holds what\<close>

text \<open>The connection of a variable, none where the variable is not in scope.\<close>

definition ssl_of :: "session_object option \<Rightarrow> nat set" where
  "ssl_of v = (case v of None \<Rightarrow> {} | Some s \<Rightarrow> set_option (sn_ssl s))"

definition sessions_held :: "(nat \<rightharpoonup> session_object) \<Rightarrow> nat set" where
  "sessions_held vars = (\<Union>x. ssl_of (vars x))"

text \<open>No connection is held by two variables.\<close>

definition sessions_distinct :: "(nat \<rightharpoonup> session_object) \<Rightarrow> bool" where
  "sessions_distinct vars \<longleftrightarrow>
     (\<forall>x y ssl. ssl \<in> ssl_of (vars x) \<longrightarrow> ssl \<in> ssl_of (vars y) \<longrightarrow> x = y)"

lemma ssl_of_simps [simp]:
  "ssl_of None = {}"
  "ssl_of (Some s) = set_option (sn_ssl s)"
  by (simp_all add: ssl_of_def)

definition ledger_ok :: "crypt_world \<Rightarrow> ledger \<Rightarrow> bool" where
  "ledger_ok w L \<longleftrightarrow> ledger_run ledger_empty (cw_calls w) = Some L \<and> lg_bio L = {} \<and>
     (\<forall>ssl \<in> dom (lg_ssl L). ssl < cw_next w)"

definition session_program_inv :: "session_program \<Rightarrow> bool" where
  "session_program_inv p \<longleftrightarrow>
     (\<exists>L. ledger_ok (sp_world p) L \<and> dom (lg_ssl L) = sessions_held (sp_vars p) \<and>
        sessions_distinct (sp_vars p))"

lemmas session_new_defs = Session_new_def TLS_Session_new_def DTLS_Session_new_def
  MediaDTLS_Session_new_def crypt_alloc_def crypt_do_def bio_free_calls_def state_call_def session_null_def

lemma ledger_ok_fresh: "ledger_ok w L \<Longrightarrow> lg_ssl L (cw_next w) = None"
  by (meson domI domIff ledger_ok_def less_irrefl)

text \<open>A constructor leaves one more connection, or all as it was.\<close>

lemma Session_new_ok:
  assumes ok: "ledger_ok w L" and new: "Session_new fail k ctx isServer w = (s, w')"
    and allowed: "k \<noteq> CLASS_MediaDTLS \<or> (\<forall>n. \<not> fail n)"
  shows "\<exists>L'. ledger_ok w' L' \<and>
     dom (lg_ssl L') = dom (lg_ssl L) \<union> ssl_of (Some s) \<and> ssl_of (Some s) \<inter> dom (lg_ssl L) = {}"
proof -
  define n where "n = cw_next w"
  have run: "ledger_run ledger_empty (cw_calls w) = Some L" and bio: "lg_bio L = {}"
    and less: "\<And>ssl. ssl \<in> dom (lg_ssl L) \<Longrightarrow> ssl < n"
    using ok by (auto simp: ledger_ok_def n_def)
  have fresh: "lg_ssl L n = None" using ledger_ok_fresh [OF ok] by (simp add: n_def)
  have kept: "ledger_ok w' L" if "cw_calls w' = cw_calls w @ cs" "ledger_run L cs = Some L"
      "n \<le> cw_next w'" for cs
    using that run bio less by (force simp: ledger_ok_def ledger_run_append)
  have grown: "ledger_ok w' L'" if "cw_calls w' = cw_calls w @ cs" "ledger_run L cs = Some L'"
      "n < cw_next w'" "lg_bio L' = {}" "dom (lg_ssl L') = insert n (dom (lg_ssl L))" for cs L'
    using that run less by (force simp: ledger_ok_def ledger_run_append)
  have L: "L\<lparr>lg_ssl := lg_ssl L, lg_bio := {}\<rparr> = L" using bio by (cases L) simp
  let ?L = "L\<lparr>lg_ssl := (lg_ssl L)(n \<mapsto> {n + 1, n + 2}), lg_bio := {}\<rparr>"
  consider (null) "sn_ssl s = None" "cw_calls w' = cw_calls w" "n \<le> cw_next w'"
    | (undone) cs where "sn_ssl s = None" "cw_calls w' = cw_calls w @ cs" "ledger_run L cs = Some L" "n \<le> cw_next w'"
    | (made) cs where "sn_ssl s = Some n" "cw_calls w' = cw_calls w @ cs" "ledger_run L cs = Some ?L" "n < cw_next w'"
  proof (cases "ctx \<and> \<not> fail n")
    case False
    with new have "sn_ssl s = None" "cw_calls w' = cw_calls w" "n \<le> cw_next w'"
      by (auto simp: session_new_defs n_def Let_def split: session_class.splits if_splits)
    then show ?thesis by (rule that(1))
  next
    case True
    show ?thesis
    proof (cases "fail (Suc n) \<or> fail (Suc (Suc n))")
      case bad: True
      with allowed have "k \<noteq> CLASS_MediaDTLS" by blast
      with True bad new have "sn_ssl s = None \<and> n \<le> cw_next w' \<and>
          (\<exists>cs. cw_calls w' = cw_calls w @ cs \<and> ledger_run L cs = Some L)"
        using fresh bio
        by (auto simp: session_new_defs n_def [symmetric] Let_def fun_upd_idem L
            split: session_class.splits if_splits)
      with that(2) show ?thesis by blast
    next
      case good: False
      with True new have "sn_ssl s = Some n \<and> n < cw_next w' \<and>
          (\<exists>cs. cw_calls w' = cw_calls w @ cs \<and> ledger_run L cs = Some ?L)"
        using fresh bio
        by (auto simp: session_new_defs n_def [symmetric] Let_def insert_commute Diff_insert
            split: session_class.splits if_splits)
      with that(3) show ?thesis by blast
    qed
  qed
  then show ?thesis
  proof cases
    case null
    with kept [of "[]"] show ?thesis by auto
  next
    case undone
    with kept have "ledger_ok w' L" by blast
    with undone show ?thesis by auto
  next
    case made
    then have "ledger_ok w' ?L" by (intro grown) auto
    with made fresh show ?thesis by (intro exI [of _ ?L]) auto
  qed
qed

lemma sessions_held_upd:
  assumes "sessions_distinct vars"
  shows "sessions_held (vars(x := v)) = sessions_held vars - ssl_of (vars x) \<union> ssl_of v"
proof -
  have "y = x" if "ssl \<in> ssl_of (vars x)" "ssl \<in> ssl_of (vars y)" for ssl y
    using assms that by (auto simp: sessions_distinct_def)
  then show ?thesis
    unfolding sessions_held_def by (auto split: if_splits)
qed

lemma sessions_distinct_upd:
  assumes "sessions_distinct vars" "ssl_of v \<inter> (sessions_held vars - ssl_of (vars x)) = {}"
  shows "sessions_distinct (vars(x := v))"
proof -
  have "y = x" if "ssl \<in> ssl_of v" "ssl \<in> ssl_of (vars y)" for ssl y
    using assms that unfolding sessions_distinct_def sessions_held_def disjoint_iff Diff_iff by blast
  with assms(1) show ?thesis
    unfolding sessions_distinct_def fun_upd_apply by metis
qed

lemma Session_cleanup_ok:
  assumes "ledger_ok w L" "ssl_of (Some s) \<subseteq> dom (lg_ssl L)"
  shows "\<exists>L'. ledger_ok (snd (Session_cleanup s w)) L' \<and> dom (lg_ssl L') = dom (lg_ssl L) - ssl_of (Some s)"
proof (cases "sn_ssl s")
  case None
  with assms show ?thesis by (auto simp: Session_cleanup_def)
next
  case (Some ssl)
  let ?L = "L\<lparr>lg_ssl := (lg_ssl L)(ssl := None)\<rparr>"
  have "ledger_ok (snd (Session_cleanup s w)) ?L"
    using assms Some
    by (auto simp: Session_cleanup_def ledger_ok_def crypt_do_def ledger_run_append split: if_splits)
  with Some show ?thesis by (intro exI [of _ ?L]) auto
qed

lemma sn_ssl_moved [simp]:
  "sn_ssl (fst (Session_move other)) = sn_ssl other"
  "sn_ssl (snd (Session_move other)) = None"
  by (simp_all add: Session_move_def session_null_def)

text \<open>Moving from \<open>y\<close> to \<open>x\<close>, whose own connection is gone.\<close>

lemma sessions_moved:
  assumes "sessions_distinct vars" "x \<noteq> y" "vars y = Some other"
  defines "vars' \<equiv> vars(x \<mapsto> fst (Session_move other), y \<mapsto> snd (Session_move other))"
  shows "sessions_distinct vars'" "sessions_held vars' = sessions_held vars - ssl_of (vars x)"
proof -
  let ?v = "vars(y \<mapsto> snd (Session_move other))"
  have v': "vars' = ?v(x \<mapsto> fst (Session_move other))"
    using assms(2) by (simp add: vars'_def fun_upd_twist)
  have d: "sessions_distinct ?v"
    by (rule sessions_distinct_upd [OF assms(1)]) simp
  have h: "sessions_held ?v = sessions_held vars - ssl_of (vars y)"
    using sessions_held_upd [OF assms(1), of y "Some (snd (Session_move other))"] by simp
  have moved: "ssl_of (Some (fst (Session_move other))) = ssl_of (vars y)"
    using assms(3) by simp
  show "sessions_distinct vars'"
    unfolding v' by (rule sessions_distinct_upd [OF d]) (simp only: moved h, blast)
  have xy: "?v x = vars x" using assms(2) by simp
  have sub: "ssl_of (vars y) \<subseteq> sessions_held vars" "ssl_of (vars x) \<inter> ssl_of (vars y) = {}"
    using assms(1,2) unfolding sessions_held_def sessions_distinct_def by auto
  show "sessions_held vars' = sessions_held vars - ssl_of (vars x)"
    unfolding v' sessions_held_upd [OF d] h moved xy using sub by auto
qed

text \<open>The constructions that are safe: those of MediaDTLS do not test their buffers.\<close>

fun session_op_allowed :: "(nat \<Rightarrow> bool) \<Rightarrow> session_op \<Rightarrow> bool" where
  "session_op_allowed fail (SNO_construct x k ctx isServer) = (k \<noteq> CLASS_MediaDTLS \<or> (\<forall>n. \<not> fail n))"
| "session_op_allowed fail _ = True"

lemma session_step_inv:
  assumes "session_program_inv p" "session_op_allowed fail op"
  shows "session_program_inv (session_step fail p op)"
proof -
  from assms(1) obtain L where ok: "ledger_ok (sp_world p) L"
    and dom: "dom (lg_ssl L) = sessions_held (sp_vars p)" and dist: "sessions_distinct (sp_vars p)"
    by (auto simp: session_program_inv_def)
  have sub: "ssl_of (sp_vars p x) \<subseteq> dom (lg_ssl L)" for x
    unfolding dom sessions_held_def by auto
  show ?thesis
  proof (cases op)
    case (SNO_construct x k ctx isServer)
    show ?thesis
    proof (cases "sp_vars p x")
      case None
      obtain s w' where new: "Session_new fail k ctx isServer (sp_world p) = (s, w')" by fastforce
      obtain L' where L': "ledger_ok w' L'" "dom (lg_ssl L') = dom (lg_ssl L) \<union> ssl_of (Some s)"
          "ssl_of (Some s) \<inter> dom (lg_ssl L) = {}"
        using Session_new_ok [OF ok new] assms(2) SNO_construct by (auto simp del: ssl_of_simps)
      have "sessions_distinct ((sp_vars p)(x \<mapsto> s))"
        using L'(3) dom by (intro sessions_distinct_upd [OF dist]) auto
      with L' None new SNO_construct show ?thesis
        by (auto simp: session_program_inv_def sessions_held_upd [OF dist] dom)
    qed (use assms SNO_construct in simp)
  next
    case (SNO_move x y)
    show ?thesis
    proof (cases "sp_vars p x = None \<and> sp_vars p y \<noteq> None")
      case True
      then obtain other where v: "sp_vars p x = None" "sp_vars p y = Some other" by blast
      then have "x \<noteq> y" by auto
      with sessions_moved [OF dist, of x y other] ok dom v SNO_move show ?thesis
        by (auto simp: session_program_inv_def case_prod_beta)
    qed (use assms SNO_move in \<open>auto split: option.splits\<close>)
  next
    case (SNO_assign x y)
    show ?thesis
    proof (cases "x \<noteq> y \<and> sp_vars p x \<noteq> None \<and> sp_vars p y \<noteq> None")
      case True
      then obtain this other where v: "sp_vars p x = Some this" "sp_vars p y = Some other" by blast
      obtain L' where L': "ledger_ok (snd (Session_cleanup this (sp_world p))) L'"
          "dom (lg_ssl L') = dom (lg_ssl L) - ssl_of (Some this)"
        using Session_cleanup_ok [OF ok, of this] sub [of x] v by auto
      have "sessions_distinct ((sp_vars p)(x \<mapsto> fst (Session_move other), y \<mapsto> snd (Session_move other)))"
        "sessions_held ((sp_vars p)(x \<mapsto> fst (Session_move other), y \<mapsto> snd (Session_move other))) =
           sessions_held (sp_vars p) - ssl_of (Some this)"
        using sessions_moved [OF dist, of x y other] True v by simp_all
      with L' True v SNO_assign dom show ?thesis
        by (auto simp: session_program_inv_def Session_assign_def case_prod_beta)
    qed (use assms SNO_assign in \<open>auto split: option.splits\<close>)
  next
    case (SNO_destroy x)
    show ?thesis
    proof (cases "sp_vars p x")
      case (Some this)
      obtain L' where L': "ledger_ok (snd (Session_cleanup this (sp_world p))) L'"
          "dom (lg_ssl L') = dom (lg_ssl L) - ssl_of (Some this)"
        using Session_cleanup_ok [OF ok, of this] sub [of x] Some by auto
      have "sessions_distinct ((sp_vars p)(x := None))"
        by (intro sessions_distinct_upd [OF dist]) simp
      with L' Some SNO_destroy show ?thesis
        by (auto simp: session_program_inv_def sessions_held_upd [OF dist] dom)
    qed (use assms SNO_destroy in simp)
  qed
qed

section \<open>Properties\<close>

text \<open>
  Claim C33. In any program that constructs, moves, assigns and destroys sessions, no object of
  OpenSSL is freed twice or used after it is freed or null, every connection that exists is held by
  exactly one variable, and no buffer is left over; so when the variables are gone nothing is left.
  The sessions of TLS.hpp and DTLS.hpp may have any allocation fail. The class of MediaDTLS.hpp
  does not test its buffers: a program with such sessions is covered only if no allocation fails,
  and \<open>MediaDTLS_uses_null_buffer\<close> shows what happens otherwise.
\<close>

theorem sessions_own_their_objects:
  assumes "\<forall>op \<in> set ops. session_op_allowed fail op"
  shows "\<exists>L. ledger_run ledger_empty (cw_calls (sp_world (foldl (session_step fail) session_program_init ops))) =
        Some L \<and> lg_bio L = {} \<and>
      dom (lg_ssl L) = sessions_held (sp_vars (foldl (session_step fail) session_program_init ops)) \<and>
      sessions_distinct (sp_vars (foldl (session_step fail) session_program_init ops))"
proof -
  have "session_program_inv (foldl (session_step fail) p ops)" if "session_program_inv p" for p
    using that assms by (induction ops arbitrary: p) (auto intro: session_step_inv)
  moreover have "session_program_inv session_program_init"
    by (auto simp: session_program_inv_def session_program_init_def ledger_ok_def ledger_empty_def
        sessions_held_def sessions_distinct_def)
  ultimately have "session_program_inv (foldl (session_step fail) session_program_init ops)" by blast
  then show ?thesis
    unfolding session_program_inv_def ledger_ok_def by blast
qed

text \<open>A server session whose second buffer fails, a client session that is moved, both gone at the end.\<close>

theorem sessions_own_their_objects_witness:
  "\<exists>L. ledger_run ledger_empty (cw_calls (sp_world (foldl (session_step (\<lambda>n. n = 2)) session_program_init
     [SNO_construct 0 CLASS_TLS True True, SNO_construct 1 CLASS_DTLS True False, SNO_move 2 1,
      SNO_assign 0 2, SNO_destroy 0]))) = Some L"
  using sessions_own_their_objects [of
    "[SNO_construct 0 CLASS_TLS True True, SNO_construct 1 CLASS_DTLS True False, SNO_move 2 1,
      SNO_assign 0 2, SNO_destroy 0]" "\<lambda>n. n = 2"]
  by (simp del: foldl_Cons session_step.simps) blast

text \<open>What happens otherwise: the null pointer reaches the first call on the buffer.\<close>

theorem MediaDTLS_uses_null_buffer:
  "ledger_run ledger_empty (cw_calls (sp_world (session_step (\<lambda>n. n = 2) session_program_init
     (SNO_construct 0 CLASS_MediaDTLS True False)))) = None"
  by (simp add: session_new_defs session_program_init_def ledger_empty_def)

end
