(* ===== verification/CoreShutdown.thy ===== *)
theory CoreShutdown
  imports Core
begin

text \<open>
  Core.cpp: the construction of the objects of the first layer, and \<open>shutdown\<close>, which runs on the
  thread of the user interface while the threads of the pool go on with the jobs that wait. The
  destructor of the pool returns once its queue is empty (ThreadPool.thy), the other actions do
  not wait for the pool. No job is submitted any more: they are submitted by signals that this
  thread would have to deliver.
\<close>

section \<open>Objects and actions\<close>

datatype core_object =
    OB_threadPool | OB_networkService | OB_cameraStore | OB_deviceStore | OB_serverStatusStore
  | OB_alarmDispatcher

definition Core_constructLayer1 :: "core_object list" where
  "Core_constructLayer1 =
     [OB_threadPool, OB_networkService, OB_cameraStore, OB_deviceStore, OB_serverStatusStore,
      OB_alarmDispatcher]"

datatype shutdown_action = SD_clearVideos | SD_disconnect | SD_destroy core_object

definition Core_shutdown :: "shutdown_action list" where
  "Core_shutdown =
     [SD_clearVideos, SD_disconnect, SD_destroy OB_alarmDispatcher, SD_destroy OB_serverStatusStore,
      SD_destroy OB_deviceStore, SD_destroy OB_cameraStore, SD_destroy OB_networkService,
      SD_destroy OB_threadPool]"

text \<open>The objects whose methods a job calls.\<close>

fun Core_job_uses :: "'j json_ops \<Rightarrow> Core_job \<Rightarrow> core_object set" where
  "Core_job_uses J (JOB_cameraStore json) = {OB_cameraStore}"
| "Core_job_uses J (JOB_deviceStore_camera json) = {OB_deviceStore}"
| "Core_job_uses J (JOB_deviceStore_available json) = {OB_deviceStore}"
| "Core_job_uses J (JOB_serverStatusStore json) = {OB_serverStatusStore}"
| "Core_job_uses J (JOB_meta json) =
     (case Core_meta_reading J json of Inr (Some _) \<Rightarrow> {OB_cameraStore} | _ \<Rightarrow> {})"
| "Core_job_uses J (JOB_alarm json) = {}"
| "Core_job_uses J (JOB_personCount json) =
     (case Core_person_reading J json of Inr (Some _) \<Rightarrow> {OB_cameraStore} | _ \<Rightarrow> {})"
| "Core_job_uses J (JOB_image data meta) =
     (case Core_image J (\<lambda>_. '''') data meta CameraStore_init of Inr (_ # _) \<Rightarrow> {OB_cameraStore} | _ \<Rightarrow> {})"

section \<open>A shutdown\<close>

text \<open>\<open>sh_ran\<close> lists the jobs that have run, with what they needed that was gone.\<close>

record shutdown_state =
  sh_alive :: "core_object set"
  sh_actions :: "shutdown_action list"
  sh_queue :: "Core_job list"
  sh_ran :: "(Core_job \<times> core_object set) list"

definition shutdown_start :: "shutdown_action list \<Rightarrow> Core_job list \<Rightarrow> shutdown_state" where
  "shutdown_start acts q = \<lparr>sh_alive = set Core_constructLayer1, sh_actions = acts, sh_queue = q, sh_ran = []\<rparr>"

inductive shutdown_step :: "'j json_ops \<Rightarrow> shutdown_state \<Rightarrow> shutdown_state \<Rightarrow> bool" for J where
  act: "sh_actions s = a # acts \<Longrightarrow> (a = SD_destroy OB_threadPool \<Longrightarrow> sh_queue s = []) \<Longrightarrow>
     shutdown_step J s (s\<lparr>sh_actions := acts,
       sh_alive := (case a of SD_destroy ob \<Rightarrow> sh_alive s - {ob} | _ \<Rightarrow> sh_alive s)\<rparr>)"
| job: "OB_threadPool \<in> sh_alive s \<Longrightarrow> sh_queue s = j # q \<Longrightarrow>
     shutdown_step J s (s\<lparr>sh_queue := q, sh_ran := sh_ran s @ [(j, Core_job_uses J j - sh_alive s)]\<rparr>)"

inductive_cases shutdown_stepE: "shutdown_step J s s'"

abbreviation shutdown_runs :: "'j json_ops \<Rightarrow> shutdown_state \<Rightarrow> shutdown_state \<Rightarrow> bool" where
  "shutdown_runs J \<equiv> (shutdown_step J)\<^sup>*\<^sup>*"

text \<open>No job has called a method of an object that is destroyed.\<close>

definition shutdown_faultless :: "shutdown_state \<Rightarrow> bool" where
  "shutdown_faultless s \<longleftrightarrow> list_all (\<lambda>(j, gone). gone = {}) (sh_ran s)"

section \<open>Lemmas\<close>

text \<open>Jobs are neither lost nor run twice.\<close>

lemma shutdown_runs_jobs:
  "shutdown_runs J s s' \<Longrightarrow> map fst (sh_ran s') @ sh_queue s' = map fst (sh_ran s) @ sh_queue s"
  by (induction rule: rtranclp_induct) (auto elim!: shutdown_stepE)

text \<open>What stays true while the pool is there: the destroy of the pool is still to come.\<close>

definition shutdown_pool :: "shutdown_state \<Rightarrow> bool" where
  "shutdown_pool s \<longleftrightarrow> (OB_threadPool \<notin> sh_alive s \<longrightarrow> sh_queue s = []) \<and>
     (OB_threadPool \<in> sh_alive s \<longrightarrow> SD_destroy OB_threadPool \<in> set (sh_actions s))"

lemma shutdown_pool_step:
  "shutdown_step J s s' \<Longrightarrow> shutdown_pool s \<Longrightarrow> shutdown_pool s'"
  by (auto elim!: shutdown_stepE simp: shutdown_pool_def split: shutdown_action.splits)

lemma shutdown_pool_run: "shutdown_runs J s s' \<Longrightarrow> shutdown_pool s \<Longrightarrow> shutdown_pool s'"
  by (induction rule: rtranclp_induct) (auto intro: shutdown_pool_step)

text \<open>A run that does the actions without the pool first, then all jobs.\<close>

fun acts_alive :: "shutdown_action list \<Rightarrow> core_object set \<Rightarrow> core_object set" where
  "acts_alive [] alive = alive"
| "acts_alive (a # acts) alive =
     acts_alive acts (case a of SD_destroy ob \<Rightarrow> alive - {ob} | _ \<Rightarrow> alive)"

lemma shutdown_do_acts:
  assumes "SD_destroy OB_threadPool \<notin> set acts"
  shows "sh_actions s = acts @ rest \<Longrightarrow>
    shutdown_runs J s (s\<lparr>sh_actions := rest, sh_alive := acts_alive acts (sh_alive s)\<rparr>)"
  using assms
proof (induction acts arbitrary: s)
  case (Cons a acts)
  let ?s = "s\<lparr>sh_actions := acts @ rest,
    sh_alive := (case a of SD_destroy ob \<Rightarrow> sh_alive s - {ob} | _ \<Rightarrow> sh_alive s)\<rparr>"
  have "shutdown_step J s ?s"
    using Cons.prems by (intro shutdown_step.act) auto
  moreover have "shutdown_runs J ?s (?s\<lparr>sh_actions := rest, sh_alive := acts_alive acts (sh_alive ?s)\<rparr>)"
    using Cons.prems by (intro Cons.IH) auto
  ultimately show ?case by (simp add: converse_rtranclp_into_rtranclp)
next
  case Nil
  then have "s\<lparr>sh_actions := rest\<rparr> = s" by (cases s) simp
  then show ?case by simp
qed

lemma shutdown_do_jobs:
  "OB_threadPool \<in> sh_alive s \<Longrightarrow>
   shutdown_runs J s (s\<lparr>sh_queue := [],
     sh_ran := sh_ran s @ map (\<lambda>j. (j, Core_job_uses J j - sh_alive s)) (sh_queue s)\<rparr>)"
proof (induction "sh_queue s" arbitrary: s)
  case Nil
  then have "s\<lparr>sh_queue := [],
      sh_ran := sh_ran s @ map (\<lambda>j. (j, Core_job_uses J j - sh_alive s)) (sh_queue s)\<rparr> = s"
    by (cases s) simp
  then show ?case by (metis rtranclp.rtrancl_refl)
next
  case (Cons j q)
  let ?s = "s\<lparr>sh_queue := q, sh_ran := sh_ran s @ [(j, Core_job_uses J j - sh_alive s)]\<rparr>"
  have "shutdown_step J s ?s"
    using Cons.hyps(2) Cons.prems by (intro shutdown_step.job) auto
  moreover have "shutdown_runs J ?s (?s\<lparr>sh_queue := [],
      sh_ran := sh_ran ?s @ map (\<lambda>j. (j, Core_job_uses J j - sh_alive ?s)) (sh_queue ?s)\<rparr>)"
    using Cons.prems by (intro Cons.hyps(1)) auto
  ultimately show ?case
    using Cons.hyps(2) [symmetric] by (simp add: converse_rtranclp_into_rtranclp)
qed

lemma Core_job_uses_stores:
  "Core_job_uses J j \<subseteq> {OB_cameraStore, OB_deviceStore, OB_serverStatusStore}"
  by (cases j) (auto split: sum.splits option.splits list.splits)

text \<open>No store goes before the pool.\<close>

fun pool_first :: "shutdown_action list \<Rightarrow> bool" where
  "pool_first [] = True"
| "pool_first (SD_destroy ob # acts) =
     (ob = OB_threadPool \<or>
      ob \<notin> {OB_cameraStore, OB_deviceStore, OB_serverStatusStore} \<and> pool_first acts)"
| "pool_first (_ # acts) = pool_first acts"

definition shutdown_safe :: "shutdown_state \<Rightarrow> bool" where
  "shutdown_safe s \<longleftrightarrow> shutdown_faultless s \<and>
     (sh_queue s = [] \<or>
      {OB_cameraStore, OB_deviceStore, OB_serverStatusStore} \<subseteq> sh_alive s \<and> pool_first (sh_actions s))"

lemma shutdown_safe_step:
  assumes "shutdown_step J s s'" "shutdown_safe s"
  shows "shutdown_safe s'"
  using assms(1)
proof cases
  case (act a acts)
  with assms(2) show ?thesis
    by (cases a) (auto simp: shutdown_safe_def shutdown_faultless_def)
next
  case (job j q)
  with assms(2) Core_job_uses_stores [of J j] have "Core_job_uses J j - sh_alive s = {}"
    by (auto simp: shutdown_safe_def)
  with job assms(2) show ?thesis
    by (auto simp: shutdown_safe_def shutdown_faultless_def)
qed

lemma shutdown_safe_run: "shutdown_runs J s s' \<Longrightarrow> shutdown_safe s \<Longrightarrow> shutdown_safe s'"
  by (induction rule: rtranclp_induct) (auto intro: shutdown_safe_step)

text \<open>A job misses only what it uses.\<close>

lemma shutdown_gone:
  "shutdown_runs J s s' \<Longrightarrow> list_all (\<lambda>(j, gone). gone \<subseteq> Core_job_uses J j) (sh_ran s) \<Longrightarrow>
   list_all (\<lambda>(j, gone). gone \<subseteq> Core_job_uses J j) (sh_ran s')"
  by (induction rule: rtranclp_induct) (auto elim!: shutdown_stepE)

text \<open>The run of the code in which the pool is as slow as it can be.\<close>

lemma shutdown_slow_pool:
  "shutdown_runs J (shutdown_start Core_shutdown q)
     \<lparr>sh_alive = {OB_threadPool}, sh_actions = [SD_destroy OB_threadPool], sh_queue = [],
      sh_ran = map (\<lambda>j. (j, Core_job_uses J j)) q\<rparr>"
proof -
  let ?s = "\<lparr>sh_alive = {OB_threadPool}, sh_actions = [SD_destroy OB_threadPool], sh_queue = q, sh_ran = []\<rparr>"
  have "shutdown_runs J (shutdown_start Core_shutdown q)
      ((shutdown_start Core_shutdown q)\<lparr>sh_actions := [SD_destroy OB_threadPool],
         sh_alive := acts_alive (butlast Core_shutdown) (sh_alive (shutdown_start Core_shutdown q))\<rparr>)"
    by (rule shutdown_do_acts) (simp_all add: Core_shutdown_def shutdown_start_def)
  moreover have "acts_alive (butlast Core_shutdown) (sh_alive (shutdown_start Core_shutdown q)) = {OB_threadPool}"
    by (auto simp: Core_shutdown_def shutdown_start_def Core_constructLayer1_def)
  ultimately have "shutdown_runs J (shutdown_start Core_shutdown q) ?s"
    by (simp add: shutdown_start_def)
  moreover have "Core_job_uses J j - {OB_threadPool} = Core_job_uses J j" for j
    using Core_job_uses_stores [of J j] by auto
  then have "shutdown_runs J ?s (?s\<lparr>sh_queue := [], sh_ran := map (\<lambda>j. (j, Core_job_uses J j)) q\<rparr>)"
    using shutdown_do_jobs [of ?s J] by simp
  ultimately show ?thesis by simp
qed

section \<open>Properties\<close>

text \<open>
  Claim C34. A shutdown runs every job that waits exactly once and in order before it is over. It
  destroys the stores before the pool, so it is safe in every interleaving with the threads of
  the pool only if no waiting job uses a store; if the pool went before the stores it would be
  safe whatever waits.
\<close>

theorem Core_shutdown_safe_iff_idle:
  "(\<forall>s. shutdown_runs J (shutdown_start Core_shutdown q) s \<longrightarrow> shutdown_faultless s) =
     (\<forall>j \<in> set q. Core_job_uses J j = {}) \<and>
   (\<forall>s. shutdown_runs J (shutdown_start Core_shutdown q) s \<longrightarrow> sh_actions s = [] \<longrightarrow> map fst (sh_ran s) = q) \<and>
   (pool_first acts \<longrightarrow>
      (\<forall>s. shutdown_runs J (shutdown_start acts q) s \<longrightarrow> shutdown_faultless s))"
proof (intro conjI allI impI iffI ballI)
  fix j
  assume "\<forall>s. shutdown_runs J (shutdown_start Core_shutdown q) s \<longrightarrow> shutdown_faultless s" and "j \<in> set q"
  with shutdown_slow_pool [of J q] show "Core_job_uses J j = {}"
    by (auto simp: shutdown_faultless_def list_all_iff)
next
  fix s
  assume idle: "\<forall>j \<in> set q. Core_job_uses J j = {}"
    and run: "shutdown_runs J (shutdown_start Core_shutdown q) s"
  have "map fst (sh_ran s) @ sh_queue s = q"
    using shutdown_runs_jobs [OF run] by (simp add: shutdown_start_def)
  then have "fst ` set (sh_ran s) \<subseteq> set q" by (metis list.set_map set_append Un_upper1)
  moreover have "\<forall>(j, gone) \<in> set (sh_ran s). gone \<subseteq> Core_job_uses J j"
    using shutdown_gone [OF run] by (simp add: shutdown_start_def list_all_iff)
  ultimately show "shutdown_faultless s"
    using idle unfolding shutdown_faultless_def list_all_iff by fastforce
next
  fix s
  assume run: "shutdown_runs J (shutdown_start Core_shutdown q) s" and "sh_actions s = []"
  moreover have "shutdown_pool (shutdown_start Core_shutdown q)"
    by (simp add: shutdown_pool_def shutdown_start_def Core_shutdown_def Core_constructLayer1_def)
  ultimately have "sh_queue s = []"
    using shutdown_pool_run [OF run] by (auto simp: shutdown_pool_def)
  with shutdown_runs_jobs [OF run] show "map fst (sh_ran s) = q"
    by (simp add: shutdown_start_def)
next
  fix s
  assume "pool_first acts" and run: "shutdown_runs J (shutdown_start acts q) s"
  then have "shutdown_safe (shutdown_start acts q)"
    by (auto simp: shutdown_safe_def shutdown_start_def shutdown_faultless_def Core_constructLayer1_def)
  from shutdown_safe_run [OF run this] show "shutdown_faultless s"
    by (simp add: shutdown_safe_def)
qed

text \<open>A camera packet that waits when the program ends.\<close>

theorem Core_shutdown_safe_iff_idle_witness:
  "\<exists>s. shutdown_runs (jv_ops []) (shutdown_start Core_shutdown [JOB_cameraStore '''']) s \<and>
     \<not> shutdown_faultless s"
  using Core_shutdown_safe_iff_idle [of "jv_ops []" "[JOB_cameraStore '''']" "[]"] by auto

end
