(* ===== verification/GridSignals.thy ===== *)
theory GridSignals
  imports Core
begin

text \<open>
  What the signals of the camera model tell a listener: whatever is called, the slots that were
  announced last are the slots of the grid, and the signals name no camera but those of the grid
  and of the snapshot.
\<close>

section \<open>The listener\<close>

definition grid_slots :: "CameraModel \<Rightarrow> SlotInfo list" where
  "grid_slots m = map CameraModel_slotInfo (cm_cameras m)"

fun announced :: "SlotInfo list \<Rightarrow> CameraModel_event \<Rightarrow> SlotInfo list" where
  "announced slots (CM_slotsUpdated slots') = slots'"
| "announced slots _ = slots"

fun event_cameras :: "CameraModel_event \<Rightarrow> string set" where
  "event_cameras (CM_slotsUpdated slots) = si_cameraId ` set slots"
| "event_cameras (CM_cameraIdsUpdated cids) = set cids"
| "event_cameras (CM_cameraOnline cid) = {cid}"
| "event_cameras _ = {}"

text \<open>
  From \<open>m\<close> to \<open>m'\<close> the model only emits signals about the cameras \<open>K\<close>; and with the signals a
  listener that knew the slots of \<open>m\<close> knows those of \<open>m'\<close>.
\<close>

definition grid_grows :: "string set \<Rightarrow> CameraModel \<Rightarrow> CameraModel \<Rightarrow> bool" where
  "grid_grows K m m' \<longleftrightarrow>
     (\<exists>evs. cm_events m' = cm_events m @ evs \<and> list_all (\<lambda>ev. event_cameras ev \<subseteq> K) evs)"

definition grid_tracks :: "string set \<Rightarrow> CameraModel \<Rightarrow> CameraModel \<Rightarrow> bool" where
  "grid_tracks K m m' \<longleftrightarrow>
     (\<exists>evs. cm_events m' = cm_events m @ evs \<and> list_all (\<lambda>ev. event_cameras ev \<subseteq> K) evs \<and>
        foldl announced (grid_slots m) evs = grid_slots m')"

named_theorems track_intros \<open>operations whose signals keep a listener informed\<close>

lemma grid_growsI:
  "cm_events m' = cm_events m @ evs \<Longrightarrow> list_all (\<lambda>ev. event_cameras ev \<subseteq> K) evs \<Longrightarrow> grid_grows K m m'"
  by (auto simp: grid_grows_def)

lemma grid_tracksI:
  "cm_events m' = cm_events m @ evs \<Longrightarrow> list_all (\<lambda>ev. event_cameras ev \<subseteq> K) evs \<Longrightarrow>
   foldl announced (grid_slots m) evs = grid_slots m' \<Longrightarrow> grid_tracks K m m'"
  by (auto simp: grid_tracks_def)

lemma grid_tracks_refl [track_intros, simp]: "grid_tracks K m m"
  by (simp add: grid_tracks_def)

lemma grid_tracks_trans:
  assumes "grid_tracks K m m'" "grid_tracks K m' m''"
  shows "grid_tracks K m m''"
proof -
  from assms obtain evs evs' where
    "cm_events m' = cm_events m @ evs" "list_all (\<lambda>ev. event_cameras ev \<subseteq> K) evs"
    "foldl announced (grid_slots m) evs = grid_slots m'"
    "cm_events m'' = cm_events m' @ evs'" "list_all (\<lambda>ev. event_cameras ev \<subseteq> K) evs'"
    "foldl announced (grid_slots m') evs' = grid_slots m''"
    unfolding grid_tracks_def by blast
  then show ?thesis by (intro grid_tracksI [of _ _ "evs @ evs'"]) auto
qed

lemma grid_slots_cameras: "si_cameraId ` set (grid_slots m) = CameraModel_ids m"
  by (force simp: grid_slots_def CameraModel_slotInfo_def CameraModel_ids_def)

lemma CameraModel_cids_subset: "set (CameraModel_cids cams seen) \<subseteq> ce_cameraId ` set cams"
  by (induction cams arbitrary: seen) auto

text \<open>The two signals of \<open>_emitSlotsUpdated\<close>.\<close>

lemma grid_slots_events:
  assumes "CameraModel_ids m \<subseteq> K"
  shows "event_cameras (CM_slotsUpdated (grid_slots m)) \<subseteq> K"
    "event_cameras (CM_cameraIdsUpdated (CameraModel_cids (cm_cameras m) {})) \<subseteq> K"
  using assms grid_slots_cameras [of m] CameraModel_cids_subset [of "cm_cameras m" "{}"]
  by (simp_all add: CameraModel_ids_def)

lemma grid_tracks_emitSlots:
  assumes "grid_grows K m m'" "CameraModel_ids m' \<subseteq> K"
  shows "grid_tracks K m (CameraModel_emitSlotsUpdated m')"
proof -
  from assms(1) obtain evs where
    evs: "cm_events m' = cm_events m @ evs" "list_all (\<lambda>ev. event_cameras ev \<subseteq> K) evs"
    unfolding grid_grows_def by blast
  then have events: "cm_events (CameraModel_emitSlotsUpdated m') = cm_events m @ evs @
      [CM_slotsUpdated (grid_slots m'), CM_cameraIdsUpdated (CameraModel_cids (cm_cameras m') {})]"
    by (simp add: grid_slots_def)
  have same: "grid_slots (CameraModel_emitSlotsUpdated m') = grid_slots m'"
    by (simp add: grid_slots_def)
  show ?thesis
    using evs grid_slots_events [OF assms(2)]
    by (intro grid_tracksI [OF events]) (simp_all add: same del: event_cameras.simps)
qed

text \<open>Operations that keep the slots and announce none.\<close>

lemma grid_tracks_emit:
  assumes "grid_tracks K m m'" "\<And>slots. announced slots ev = slots" "event_cameras ev = {}"
  shows "grid_tracks K m (CameraModel_emit ev m')"
proof (rule grid_tracks_trans [OF assms(1)])
  show "grid_tracks K m' (CameraModel_emit ev m')"
    using assms(2,3) by (intro grid_tracksI [of _ _ "[ev]"]) (auto simp: grid_slots_def)
qed

lemma grid_tracks_rows:
  "cm_events m' = cm_events m \<Longrightarrow> grid_slots m' = grid_slots m \<Longrightarrow> grid_tracks K m m'"
  by (intro grid_tracksI [of _ _ "[]"]) auto

lemma grid_tracks_row_update:
  assumes "i < length (cm_cameras m)" "CameraModel_slotInfo e = CameraModel_slotInfo (cm_cameras m ! i)"
  shows "grid_tracks K m (CameraModel_emit (CM_dataChanged r roles) (m\<lparr>cm_cameras := (cm_cameras m)[i := e]\<rparr>))"
proof -
  have "grid_slots (m\<lparr>cm_cameras := (cm_cameras m)[i := e]\<rparr>) = grid_slots m"
    using assms by (simp add: grid_slots_def map_update list_update_same_conv)
  then show ?thesis by (intro grid_tracks_emit grid_tracks_rows) simp_all
qed

section \<open>The operations\<close>

lemma CameraModel_setOnline_tracks [track_intros]: "grid_tracks K m (CameraModel_setOnline i b m)"
  unfolding CameraModel_setOnline_def
  by (auto intro!: grid_tracks_row_update simp: CameraModel_slotInfo_def)

lemma CameraModel_setData_tracks [track_intros]:
  "grid_tracks K m (fst (CameraModel_setData f g index v role m))"
  unfolding CameraModel_setData_def Let_def
  by (auto intro!: grid_tracks_row_update simp: CameraModel_slotInfo_def
      split: option.splits CameraRole.splits)

lemma CameraModel_updateSensorInfo_tracks [track_intros]:
  "grid_tracks K m (CameraModel_updateSensorInfo cid h l ti tm m)"
proof -
  have "grid_tracks K m (m\<lparr>cm_cameras := map (\<lambda>e. if ce_cameraId e = cid then e\<lparr>ce_deviceInfo := g e\<rparr> else e)
      (cm_cameras m)\<rparr>)" for g
    by (rule grid_tracks_rows) (auto simp: grid_slots_def CameraModel_slotInfo_def)
  then show ?thesis
    unfolding CameraModel_updateSensorInfo_def Let_def by (simp add: grid_tracks_emit)
qed

lemma CameraModel_swapSlots_tracks [track_intros]:
  assumes "CameraModel_ids m \<subseteq> K"
  shows "grid_tracks K m (CameraModel_swapSlots i j m)"
proof -
  have "CameraModel_ids (CameraModel_swapSlots i j m) \<subseteq> K"
    using assms CameraModel_swap_ids by (rule order_trans [rotated])
  then show ?thesis
    unfolding CameraModel_swapSlots_def Let_def
    by (auto intro!: grid_tracks_emit grid_tracks_emitSlots grid_growsI [of _ _ "[]"]
        simp: CameraModel_ids_def split: if_splits)
qed

lemma CameraModel_split_tracks [track_intros]:
  assumes "CameraModel_ids m \<subseteq> K"
  shows "grid_tracks K m (fst (CameraModel_splitSlotAtIndex row n d auto m))"
proof (cases rule: CameraModel_splitSlotAtIndex_cases [of row n d auto m])
  case (split us orig vs)
  have ids: "CameraModel_ids (fst (CameraModel_splitSlotAtIndex row n d auto m)) \<subseteq> K"
    using assms by (simp add: CameraModel_split_ids)
  let ?m = "fst (CameraModel_splitSlotAtIndex row n d auto m)"
  have events: "cm_events ?m = cm_events m @ [CM_beginRemoveRows row row, CM_endRemoveRows,
      CM_beginInsertRows row (row + n - 1), CM_endInsertRows, CM_slotsUpdated (grid_slots ?m),
      CM_cameraIdsUpdated (CameraModel_cids (cm_cameras ?m) {})]"
    by (simp add: CameraModel_splitSlotAtIndex_closed [OF split] Let_def grid_slots_def)
  show ?thesis
    using grid_slots_events [OF ids]
    by (intro grid_tracksI [OF events]) (simp_all del: event_cameras.simps(1,2))
qed simp

lemma CameraModel_auto_tracks [track_intros]:
  "CameraModel_ids m \<subseteq> K \<Longrightarrow> grid_tracks K m (fst (CameraModel_applyAutoSplitForSlot tbl slotId m))"
  by (auto simp: CameraModel_applyAutoSplitForSlot_def CameraModel_autoSplitForIndex_def Let_def
      intro: track_intros)

lemma CameraModel_merge_tracks [track_intros]:
  assumes "CameraModel_ids m \<subseteq> K"
  shows "grid_tracks K m (fst (CameraModel_mergeGroupByIndex row m))"
proof (cases rule: CameraModel_mergeGroupByIndex_cases [of row m])
  case (merged us first vs g)
  let ?m = "fst (CameraModel_mergeGroupByIndex row m)"
  have ids: "CameraModel_ids ?m \<subseteq> K"
    using assms CameraModel_merge_ids by (rule order_trans [rotated])
  obtain ks r where events: "cm_events ?m = cm_events m @ CameraModel_removal_events ks @
      [CM_dataChanged r [], CM_slotsUpdated (grid_slots ?m),
       CM_cameraIdsUpdated (CameraModel_cids (cm_cameras ?m) {})]"
    by (simp add: CameraModel_mergeGroupByIndex_closed [OF merged] Let_def grid_slots_def)
  have "list_all (\<lambda>ev. event_cameras ev \<subseteq> K) (CameraModel_removal_events ks)"
    by (simp add: CameraModel_removal_events_def list_all_iff)
  then show ?thesis
    using grid_slots_events [OF ids]
    by (intro grid_tracksI [OF events]) (simp_all del: event_cameras.simps(1,2))
qed simp

lemma CameraModel_clearAll_tracks [track_intros]: "grid_tracks K m (CameraModel_clearAll m)"
  unfolding CameraModel_clearAll_def Let_def
  by (rule grid_tracks_emitSlots)
     (auto intro!: grid_growsI [of _ _ "[CM_beginResetModel, CM_endResetModel _]"] simp: CameraModel_ids_def)

section \<open>A new snapshot\<close>

lemma CameraModel_refresh_rows_events:
  assumes "cm_cameras m = us @ vs" "length us = i"
  shows "\<exists>evs. cm_events (CameraModel_refresh_rows byCid i m) = cm_events m @ evs \<and>
    list_all (\<lambda>ev. event_cameras ev \<subseteq> ce_cameraId ` set vs) evs"
  using assms
proof (induction vs arbitrary: us i m)
  case Nil
  then show ?case by (subst CameraModel_refresh_rows.simps) auto
next
  case (Cons c vs)
  obtain e on roles where r: "CameraModel_refresh byCid c = (e, on, roles)"
    by (metis prod.exhaust)
  then have e: "ce_cameraId e = ce_cameraId c"
    using CameraModel_refresh_fst [of byCid c] by (metis CameraModel_refreshed_simps(2) fst_conv)
  let ?evs = "(if on then [CM_cameraOnline (ce_cameraId e)] else []) @
      (if roles \<noteq> [] then [CM_dataChanged (int i) roles] else [])"
  let ?m = "m\<lparr>cm_cameras := us @ e # vs, cm_events := cm_events m @ ?evs\<rparr>"
  have "CameraModel_refresh_rows byCid i m = CameraModel_refresh_rows byCid (i + 1) ?m"
    using Cons.prems r
    by (subst CameraModel_refresh_rows.simps) (auto simp: Let_def CameraModel_emit_def nth_append)
  moreover obtain evs where "cm_events (CameraModel_refresh_rows byCid (i + 1) ?m) = cm_events ?m @ evs"
      "list_all (\<lambda>ev. event_cameras ev \<subseteq> ce_cameraId ` set vs) evs"
    using Cons.IH [of ?m "us @ [e]" "i + 1"] Cons.prems(2) by auto
  ultimately show ?case
    using e by (intro exI [of _ "?evs @ evs"]) (auto simp: list_all_iff)
qed

lemma CameraModel_keys_ids: "set (CameraModel_keys snapshot) = cd_cameraId ` set snapshot - {''''}"
  by (auto simp: CameraModel_keys_def)

lemma CameraModel_onStoreUpdated_tracks [track_intros]:
  assumes "CameraModel_ids m \<subseteq> K" "cd_cameraId ` set snapshot - {''''} \<subseteq> K" "\<And>ks. set (order ks) = set ks"
  shows "grid_tracks K m (CameraModel_onStoreUpdated order tbl snapshot m)"
proof -
  have autos: "grid_tracks K m' (foldl (\<lambda>m slotId. fst (CameraModel_applyAutoSplitForSlot tbl slotId m)) m' slots)"
    if "CameraModel_ids m' \<subseteq> K" for m' slots
    using that
  proof (induction slots arbitrary: m')
    case (Cons s slots)
    let ?m = "fst (CameraModel_applyAutoSplitForSlot tbl s m')"
    show ?case
      using grid_tracks_trans [OF CameraModel_auto_tracks [OF Cons.prems, of tbl s] Cons.IH [of ?m]] Cons.prems
      by (simp add: CameraModel_auto_ids)
  qed simp
  let ?byCid = "CameraModel_byCid snapshot"
  let ?m1 = "CameraModel_refresh_rows ?byCid 0 m"
  let ?rep = "{cid \<in> set (map ce_cameraId (cm_cameras m)). ?byCid cid \<noteq> None}"
  let ?new = "CameraModel_newEntries ?byCid ?rep (order (CameraModel_keys snapshot)) (cm_nextSlotId ?m1)"
  let ?m2 = "CameraModel_insertNew ?new ?m1"
  obtain evs where m1: "cm_events ?m1 = cm_events m @ evs"
      "list_all (\<lambda>ev. event_cameras ev \<subseteq> CameraModel_ids m) evs"
    using CameraModel_refresh_rows_events [of m "[]" "cm_cameras m" 0 ?byCid] by (auto simp: CameraModel_ids_def)
  have same: "CameraModel_ids ?m1 = CameraModel_ids m"
    by (rule CameraModel_refresh_all [of ?byCid m]) (simp add: CameraModel_ids_def image_image)
  have new: "ce_cameraId ` set ?new \<subseteq> set (CameraModel_keys snapshot)"
    using assms(3) by (auto simp: set_map [symmetric] CameraModel_newEntries_cids simp del: set_map)
  have "CameraModel_ids ?m2 = CameraModel_ids ?m1 \<union> ce_cameraId ` set ?new"
    by (simp add: CameraModel_ids_def image_Un)
  then have ids: "CameraModel_ids ?m2 \<subseteq> K"
    using assms(1) order_trans [OF new, of K] assms(2) by (simp add: same CameraModel_keys_ids)
  have "grid_grows K m ?m2"
    using m1 assms(1)
    by (intro grid_growsI [of _ _ "evs @ (if ?new = [] then [] else [CM_beginInsertRows (int (length (cm_cameras ?m1)))
          (int (length (cm_cameras ?m1)) + int (length ?new) - 1), CM_endInsertRows])"]) (auto simp: list_all_iff)
  from grid_tracks_emitSlots [OF this ids]
  have "grid_tracks K m (CameraModel_emitSlotsUpdated ?m2)" .
  moreover have "CameraModel_ids (CameraModel_emitSlotsUpdated ?m2) \<subseteq> K"
    using ids by (simp add: CameraModel_ids_def)
  ultimately show ?thesis
    unfolding CameraModel_onStoreUpdated_def Let_def by (intro grid_tracks_trans [OF _ autos])
qed

text \<open>What the user calls.\<close>

lemma CameraModel_user_tracks:
  assumes "CameraModel_ids m \<subseteq> K" "Core_user_op x"
  shows "grid_tracks K m (CameraModel_step tbl m x)"
  using assms
  by (cases x) (auto simp: CameraModel_splitSlot_def CameraModel_mergeSlots_def Let_def intro: track_intros)

end
