(* ===== verification/CoreVideo.thy ===== *)
theory CoreVideo
  imports GridSignals Video Settings
begin

text \<open>
  Core.cpp: the video manager and the settings in the wiring of the program. The URL provider
  asks the camera store, the provider of the frame rate asks the settings, the signals of the
  camera model for slots, camera ids and cameras that come back online call the manager at once,
  and a change of the frame rate goes to every worker. The state is that of Core with the manager
  and the settings; every step is a step of Core or a call on the settings.
\<close>

section \<open>State and wiring\<close>

record CoreVideo =
  cv_core :: Core
  cv_video :: VideoManager
  cv_settings :: SettingsController
  cv_stored :: settings_store

definition CoreVideo_providers :: "CameraStore \<Rightarrow> SettingsController \<Rightarrow> video_providers" where
  "CoreVideo_providers store settings =
     \<lparr>vp_url = Some (\<lambda>cid. cs_sourceUrl (CameraStore_getCameraStruct cid store)),
      vp_fps = Some (set_fps settings)\<rparr>"

definition CoreVideo_init ::
  "settings_ops \<Rightarrow> ('q, 'm) qt_object_ops_scheme \<Rightarrow> string option \<Rightarrow> settings_store \<Rightarrow> CoreVideo" where
  "CoreVideo_init O' Q file stored =
     \<lparr>cv_core = Core_init, cv_video = VideoManager_init, cv_settings = SettingsController_new O' Q file stored,
      cv_stored = stored\<rparr>"

text \<open>The three connections of the camera model to the manager.\<close>

definition CoreVideo_event :: "video_providers \<Rightarrow> CameraModel_event \<Rightarrow> VideoManager \<Rightarrow> VideoManager" where
  "CoreVideo_event P ev vm =
     (case ev of
        CM_slotsUpdated slots \<Rightarrow> VideoManager_registerSlots P slots vm
      | CM_cameraIdsUpdated cids \<Rightarrow> VideoManager_registerCameraIds P cids vm
      | CM_cameraOnline cid \<Rightarrow> VideoManager_restartWorker P cid vm
      | _ \<Rightarrow> vm)"

definition CoreVideo_events :: "video_providers \<Rightarrow> CameraModel_event list \<Rightarrow> VideoManager \<Rightarrow> VideoManager" where
  "CoreVideo_events P evs vm = foldl (\<lambda>vm ev. CoreVideo_event P ev vm) vm evs"

text \<open>A step of Core, with the signals that the camera model emits in it.\<close>

definition CoreVideo_update :: "Core \<Rightarrow> CoreVideo \<Rightarrow> CoreVideo" where
  "CoreVideo_update c' cv =
     (let evs = drop (length (cm_events (core_cameraModel (cv_core cv)))) (cm_events (core_cameraModel c'))
      in cv\<lparr>cv_core := c',
            cv_video := CoreVideo_events (CoreVideo_providers (core_cameraStore c') (cv_settings cv)) evs
              (cv_video cv)\<rparr>)"

text \<open>A call on the settings, with the connection of \<open>fpsChanged\<close>.\<close>

definition CoreVideo_settings :: "SettingsController \<times> settings_store \<Rightarrow> CoreVideo \<Rightarrow> CoreVideo" where
  "CoreVideo_settings cs cv =
     (let sigs = drop (length (set_signals (cv_settings cv))) (set_signals (fst cs));
          cv1 = cv\<lparr>cv_settings := fst cs, cv_stored := snd cs\<rparr>
      in if SS_fpsChanged \<in> set sigs
         then cv1\<lparr>cv_video := VideoManager_setFpsLimit (set_fps (fst cs)) (cv_video cv1)\<rparr> else cv1)"

text \<open>The logout clears the manager before the camera model.\<close>

definition CoreVideo_logout :: "CoreVideo \<Rightarrow> CoreVideo" where
  "CoreVideo_logout cv =
     CoreVideo_update (Core_onSignal SIG_logoutRequested (cv_core cv))
       (cv\<lparr>cv_video := VideoManager_clearAll (cv_video cv)\<rparr>)"

text \<open>What happens behind the signals: jobs, posted calls, and calls of the user.\<close>

inductive CoreVideo_inner ::
  "'j json_ops \<Rightarrow> 'q qt_ops \<Rightarrow> (bytes \<Rightarrow> string) \<Rightarrow> (string \<times> int) list \<Rightarrow>
   settings_ops \<Rightarrow> ('p, 'm) qt_object_ops_scheme \<Rightarrow> CoreVideo \<Rightarrow> CoreVideo \<Rightarrow> bool"
  for J Q toBase64 tbl O' R
where
  job: "\<not> core_aborted (cv_core cv) \<Longrightarrow> core_jobs (cv_core cv) = js @ j # js' \<Longrightarrow>
     CoreVideo_inner J Q toBase64 tbl O' R cv
       (CoreVideo_update (Core_runJob J toBase64 now j ((cv_core cv)\<lparr>core_jobs := js @ js'\<rparr>)) cv)"
| call: "\<not> core_aborted (cv_core cv) \<Longrightarrow> core_calls (cv_core cv) = call # calls \<Longrightarrow>
     (\<And>ks. set (order ks) = set ks) \<Longrightarrow>
     CoreVideo_inner J Q toBase64 tbl O' R cv
       (CoreVideo_update (Core_runCall Q tbl order now call ((cv_core cv)\<lparr>core_calls := calls\<rparr>)) cv)"
| user_grid: "\<not> core_aborted (cv_core cv) \<Longrightarrow> Core_user_op x \<Longrightarrow>
     CoreVideo_inner J Q toBase64 tbl O' R cv
       (CoreVideo_update ((cv_core cv)\<lparr>core_cameraModel :=
          CameraModel_step tbl (core_cameraModel (cv_core cv)) x\<rparr>) cv)"
| user_alarm: "\<not> core_aborted (cv_core cv) \<Longrightarrow>
     CoreVideo_inner J Q toBase64 tbl O' R cv
       (CoreVideo_update ((cv_core cv)\<lparr>core_alarmController :=
          AlarmController_dismiss k (core_alarmController (cv_core cv))\<rparr>) cv)"
| settings: "\<not> core_aborted (cv_core cv) \<Longrightarrow>
     CoreVideo_inner J Q toBase64 tbl O' R cv
       (CoreVideo_settings (SettingsController_step O' R (cv_settings cv, cv_stored cv) x) cv)"

inductive_cases CoreVideo_innerE: "CoreVideo_inner J Q toBase64 tbl O' R cv cv'"

definition CoreVideo_signal :: "Core_signal \<Rightarrow> CoreVideo \<Rightarrow> CoreVideo" where
  "CoreVideo_signal sig cv =
     (if sig = SIG_logoutRequested then CoreVideo_logout cv
      else CoreVideo_update (Core_onSignal sig (cv_core cv)) cv)"

inductive CoreVideo_step ::
  "'j json_ops \<Rightarrow> 'q qt_ops \<Rightarrow> (bytes \<Rightarrow> string) \<Rightarrow> (string \<times> int) list \<Rightarrow>
   settings_ops \<Rightarrow> ('p, 'm) qt_object_ops_scheme \<Rightarrow> CoreVideo \<Rightarrow> CoreVideo \<Rightarrow> bool"
  for J Q toBase64 tbl O' R
where
  signal: "\<not> core_aborted (cv_core cv) \<Longrightarrow> CoreVideo_step J Q toBase64 tbl O' R cv (CoreVideo_signal sig cv)"
| inner: "CoreVideo_inner J Q toBase64 tbl O' R cv cv' \<Longrightarrow> CoreVideo_step J Q toBase64 tbl O' R cv cv'"

inductive_cases CoreVideo_stepE: "CoreVideo_step J Q toBase64 tbl O' R cv cv'"

inductive CoreVideo_reachable ::
  "'j json_ops \<Rightarrow> 'q qt_ops \<Rightarrow> (bytes \<Rightarrow> string) \<Rightarrow> (string \<times> int) list \<Rightarrow>
   settings_ops \<Rightarrow> ('p, 'm) qt_object_ops_scheme \<Rightarrow> CoreVideo \<Rightarrow> bool"
  for J Q toBase64 tbl O' R
where
  start: "CoreVideo_reachable J Q toBase64 tbl O' R (CoreVideo_init O' R file stored)"
| step: "CoreVideo_reachable J Q toBase64 tbl O' R cv \<Longrightarrow> CoreVideo_step J Q toBase64 tbl O' R cv cv' \<Longrightarrow>
     CoreVideo_reachable J Q toBase64 tbl O' R cv'"

text \<open>Core does not notice the video manager.\<close>

lemma CoreVideo_update_core [simp]:
  "cv_core (CoreVideo_update c' cv) = c'" "cv_settings (CoreVideo_update c' cv) = cv_settings cv"
  by (simp_all add: CoreVideo_update_def Let_def)

lemma CoreVideo_settings_core [simp]:
  "cv_core (CoreVideo_settings cs cv) = cv_core cv" "cv_settings (CoreVideo_settings cs cv) = fst cs"
  by (simp_all add: CoreVideo_settings_def Let_def)

lemma CoreVideo_step_core:
  assumes "CoreVideo_step J Q toBase64 tbl O' R cv cv'"
  shows "cv_core cv' = cv_core cv \<or> Core_step J Q toBase64 tbl (cv_core cv) (cv_core cv')"
  using assms
proof cases
  case (signal sig)
  then show ?thesis
    by (auto simp: CoreVideo_signal_def CoreVideo_logout_def simp del: Core_onSignal.simps intro: Core_step.intros)
next
  case inner
  then show ?thesis
    by cases (auto intro: Core_step.intros)
qed

lemma CoreVideo_reachable_core:
  "CoreVideo_reachable J Q toBase64 tbl O' R cv \<Longrightarrow> Core_reachable J Q toBase64 tbl (cv_core cv)"
proof (induction rule: CoreVideo_reachable.induct)
  case (start json stored)
  show ?case by (simp add: CoreVideo_init_def Core_reachable.start)
next
  case (step cv cv')
  with CoreVideo_step_core [OF step.hyps(2)] show ?case
    by (metis Core_reachable.step)
qed

section \<open>What the manager knows\<close>

definition slot_map :: "SlotInfo list \<Rightarrow> int \<rightharpoonup> string" where
  "slot_map slots = foldl (\<lambda>m si. m(si_slotId si \<mapsto> si_cameraId si)) Map.empty slots"

lemma dom_slot_map: "dom (slot_map slots) = si_slotId ` set slots"
proof -
  have "dom (foldl (\<lambda>m si. m(si_slotId si \<mapsto> si_cameraId si)) M sis) = dom M \<union> si_slotId ` set sis"
    for M and sis :: "SlotInfo list"
    by (induction sis arbitrary: M) auto
  then show ?thesis by (simp add: slot_map_def)
qed

text \<open>Workers only of the cameras \<open>K\<close>, all with the frame rate of the settings.\<close>

definition workers_ok :: "int \<Rightarrow> string set \<Rightarrow> VideoManager \<Rightarrow> bool" where
  "workers_ok fps K vm \<longleftrightarrow>
     VideoManager_inv vm \<and> dom (vm_workers vm) \<subseteq> K \<and>
     (\<forall>cid w. vm_workers vm cid = Some w \<longrightarrow> vw_fpsLimit w = fps)"

text \<open>The manager has the slots, and a worker for each of their cameras.\<close>

definition video_tracks :: "int \<Rightarrow> string set \<Rightarrow> SlotInfo list \<Rightarrow> VideoManager \<Rightarrow> bool" where
  "video_tracks fps K slots vm \<longleftrightarrow>
     workers_ok fps K vm \<and> vm_slots vm = slot_map slots \<and>
     si_cameraId ` set slots - {''''} \<subseteq> dom (vm_workers vm)"

lemma VideoManager_create_fps:
  assumes "vp_fps P = Some fps" "workers_ok fps K vm" "cid \<in> K" "cid \<noteq> ''''"
  shows "workers_ok fps K (VideoManager_create P cid vm)"
proof -
  have "vw_fpsLimit (VideoWorker_startStream (VideoManager_configure P cid w)) = fps" for w
    using assms(1) by (auto simp: video_defs Let_def)
  moreover have "VideoManager_inv (VideoManager_create P cid vm)"
    using assms(2,4) by (simp add: workers_ok_def VideoManager_create_inv)
  ultimately show ?thesis
    using assms(2,3) unfolding workers_ok_def by (auto simp: VideoManager_create_def Let_def)
qed

lemma VideoManager_register_ok:
  "vp_fps P = Some fps \<Longrightarrow> workers_ok fps K vm \<Longrightarrow> cid \<in> K \<Longrightarrow> workers_ok fps K (VideoManager_register P cid vm)"
  by (simp add: VideoManager_register_def VideoManager_create_fps)

lemma VideoManager_registers_ok:
  "vp_fps P = Some fps \<Longrightarrow> workers_ok fps K vm \<Longrightarrow> set cids \<subseteq> K \<Longrightarrow>
   workers_ok fps K (foldl (\<lambda>vm cid. VideoManager_register P cid vm) vm cids)"
  by (induction cids arbitrary: vm) (auto simp: VideoManager_register_ok)

lemma VideoManager_restartWorker_ok:
  assumes "vp_fps P = Some fps" "workers_ok fps K vm" "cid \<in> K"
  shows "workers_ok fps K (VideoManager_restartWorker P cid vm)"
proof (cases "vm_workers vm cid")
  case None
  with assms show ?thesis
    by (simp add: VideoManager_restartWorker_def VideoManager_create_fps)
next
  case (Some w)
  have "vw_fpsLimit (VideoWorker_startStream (VideoManager_configure P cid v)) = fps" for v
    using assms(1) by (auto simp: video_defs Let_def)
  with assms Some show ?thesis
    using VideoManager_restartWorker_inv [of vm P cid]
    by (auto simp: workers_ok_def VideoManager_restartWorker_def Let_def)
qed

lemma foldl_map_register:
  "foldl (\<lambda>vm si. VideoManager_register P (si_cameraId si) vm) vm slots =
     foldl (\<lambda>vm cid. VideoManager_register P cid vm) vm (map si_cameraId slots)"
  by (induction slots arbitrary: vm) simp_all

lemma VideoManager_registerSlots_tracks:
  assumes "vp_fps P = Some fps" "workers_ok fps K vm" "si_cameraId ` set slots \<subseteq> K"
  shows "video_tracks fps K slots (VideoManager_registerSlots P slots vm)"
proof -
  let ?vm = "vm\<lparr>vm_slots := slot_map slots\<rparr>"
  let ?vm' = "foldl (\<lambda>vm si. VideoManager_register P (si_cameraId si) vm) ?vm slots"
  have vm': "VideoManager_registerSlots P slots vm = ?vm'"
    by (simp add: VideoManager_registerSlots_def slot_map_def Let_def)
  have "workers_ok fps K ?vm"
    using assms(2) by (simp add: workers_ok_def VideoManager_inv_def)
  then have "workers_ok fps K ?vm'"
    unfolding foldl_map_register using assms(1,3) by (intro VideoManager_registers_ok) auto
  moreover have "si_cameraId ` set slots - {''''} \<subseteq> dom (vm_workers ?vm')"
  proof
    fix cid assume "cid \<in> si_cameraId ` set slots - {''''}"
    then obtain si where "si \<in> set slots" "cid = si_cameraId si" "si_cameraId si \<noteq> ''''" by auto
    then show "cid \<in> dom (vm_workers ?vm')"
      using register_all_known [of si slots P ?vm] by blast
  qed
  ultimately show ?thesis
    unfolding video_tracks_def vm' by (simp add: register_all)
qed

text \<open>Nothing but the announcement of slots changes the slots, and workers stay.\<close>

lemma VideoManager_restartWorker_keeps:
  "vm_slots (VideoManager_restartWorker P cid vm) = vm_slots vm"
  "dom (vm_workers vm) \<subseteq> dom (vm_workers (VideoManager_restartWorker P cid vm))"
  by (auto simp: VideoManager_restartWorker_def VideoManager_create_def Let_def split: option.splits)

lemma VideoManager_registerCameraIds_keeps:
  "vm_slots (VideoManager_registerCameraIds P cids vm) = vm_slots vm"
  "dom (vm_workers vm) \<subseteq> dom (vm_workers (VideoManager_registerCameraIds P cids vm))"
proof -
  have "VideoManager_registerCameraIds P cids vm = foldl (\<lambda>vm si. VideoManager_register P (si_cameraId si) vm) vm
      (map (\<lambda>cid. \<lparr>si_slotId = 0, si_cameraId = cid\<rparr>) cids)"
    by (simp add: foldl_map_register VideoManager_registerCameraIds_def comp_def)
  then show "vm_slots (VideoManager_registerCameraIds P cids vm) = vm_slots vm"
      "dom (vm_workers vm) \<subseteq> dom (vm_workers (VideoManager_registerCameraIds P cids vm))"
    using register_all [THEN conjunct1] register_all [THEN conjunct2, THEN map_le_implies_dom_le] by simp_all
qed

lemma video_tracks_keep:
  assumes "video_tracks fps K slots vm" "workers_ok fps K vm'" "vm_slots vm' = vm_slots vm"
    "dom (vm_workers vm) \<subseteq> dom (vm_workers vm')"
  shows "video_tracks fps K slots vm'"
  using assms unfolding video_tracks_def by (metis order_trans)

lemma CoreVideo_event_tracks:
  assumes "vp_fps P = Some fps" "video_tracks fps K slots vm" "event_cameras ev \<subseteq> K"
  shows "video_tracks fps K (announced slots ev) (CoreVideo_event P ev vm)"
proof (cases ev)
  case (CM_slotsUpdated slots')
  with assms show ?thesis
    by (auto simp: CoreVideo_event_def video_tracks_def [of fps K slots] intro!: VideoManager_registerSlots_tracks)
next
  case (CM_cameraIdsUpdated cids)
  with assms have "workers_ok fps K (VideoManager_registerCameraIds P cids vm)"
    using VideoManager_registers_ok [of P fps K vm cids]
    by (simp add: VideoManager_registerCameraIds_def video_tracks_def)
  with assms(2) CM_cameraIdsUpdated show ?thesis
    by (simp add: CoreVideo_event_def video_tracks_keep VideoManager_registerCameraIds_keeps)
next
  case (CM_cameraOnline cid)
  with assms have "workers_ok fps K (VideoManager_restartWorker P cid vm)"
    by (simp add: VideoManager_restartWorker_ok video_tracks_def)
  with assms(2) CM_cameraOnline show ?thesis
    by (simp add: CoreVideo_event_def video_tracks_keep VideoManager_restartWorker_keeps)
qed (use assms in \<open>simp_all add: CoreVideo_event_def\<close>)

lemma CoreVideo_events_tracks:
  assumes "vp_fps P = Some fps"
  shows "video_tracks fps K slots vm \<Longrightarrow> list_all (\<lambda>ev. event_cameras ev \<subseteq> K) evs \<Longrightarrow>
    video_tracks fps K (foldl announced slots evs) (CoreVideo_events P evs vm)"
  unfolding CoreVideo_events_def
  by (induction evs arbitrary: slots vm) (auto simp: CoreVideo_event_tracks [OF assms])

lemma video_tracks_mono: "video_tracks fps K slots vm \<Longrightarrow> K \<subseteq> K' \<Longrightarrow> video_tracks fps K' slots vm"
  by (auto simp: video_tracks_def workers_ok_def)

lemma video_tracks_clear: "video_tracks fps K [] (VideoManager_clearAll vm)"
  by (simp add: video_tracks_def workers_ok_def VideoManager_clearAll_inv slot_map_def)
     (simp add: VideoManager_clearAll_def)

section \<open>The invariant\<close>

definition CoreVideo_inv :: "CoreVideo \<Rightarrow> bool" where
  "CoreVideo_inv cv \<longleftrightarrow> Core_inv (cv_core cv) \<and>
     video_tracks (set_fps (cv_settings cv)) (dom (cst_table (core_cameraStore (cv_core cv))))
       (grid_slots (core_cameraModel (cv_core cv))) (cv_video cv)"

text \<open>A step of Core that the signals of the camera model report, with a store that grows.\<close>

lemma CoreVideo_update_inv:
  assumes "CoreVideo_inv cv" "Core_inv c'"
    and "dom (cst_table (core_cameraStore (cv_core cv))) \<subseteq> dom (cst_table (core_cameraStore c'))"
    and "grid_tracks (dom (cst_table (core_cameraStore c'))) (core_cameraModel (cv_core cv)) (core_cameraModel c')"
  shows "CoreVideo_inv (CoreVideo_update c' cv)"
proof -
  let ?K = "dom (cst_table (core_cameraStore c'))"
  obtain evs where evs: "cm_events (core_cameraModel c') = cm_events (core_cameraModel (cv_core cv)) @ evs"
      "list_all (\<lambda>ev. event_cameras ev \<subseteq> ?K) evs"
      "foldl announced (grid_slots (core_cameraModel (cv_core cv))) evs = grid_slots (core_cameraModel c')"
    using assms(4) unfolding grid_tracks_def by blast
  have "video_tracks (set_fps (cv_settings cv)) ?K (grid_slots (core_cameraModel (cv_core cv))) (cv_video cv)"
    using assms(1,3) unfolding CoreVideo_inv_def by (blast intro: video_tracks_mono)
  from CoreVideo_events_tracks [OF _ this evs(2),
      of "CoreVideo_providers (core_cameraStore c') (cv_settings cv)"] assms(2) show ?thesis
    by (simp add: CoreVideo_inv_def CoreVideo_update_def Let_def evs(1,3) CoreVideo_providers_def)
qed

lemma CoreVideo_logout_inv:
  assumes "CoreVideo_inv cv"
  shows "CoreVideo_inv (CoreVideo_logout cv)"
proof -
  let ?c = "Core_onSignal SIG_logoutRequested (cv_core cv)"
  have events: "cm_events (core_cameraModel ?c) = cm_events (core_cameraModel (cv_core cv)) @
      [CM_beginResetModel, CM_endResetModel 0, CM_slotsUpdated [], CM_cameraIdsUpdated []]"
    and rest: "grid_slots (core_cameraModel ?c) = []" "core_cameraStore ?c = core_cameraStore (cv_core cv)"
    by (simp_all add: Core_logout_def CameraModel_clearAll_def CameraModel_rowCount_def grid_slots_def Let_def)
  let ?K = "dom (cst_table (core_cameraStore (cv_core cv)))"
  have "list_all (\<lambda>ev. event_cameras ev \<subseteq> ?K)
      [CM_beginResetModel, CM_endResetModel 0, CM_slotsUpdated [], CM_cameraIdsUpdated []]" by simp
  from CoreVideo_events_tracks [OF _ video_tracks_clear this,
      of "CoreVideo_providers (core_cameraStore ?c) (cv_settings cv)"]
  have "video_tracks (set_fps (cv_settings cv)) ?K []
      (CoreVideo_events (CoreVideo_providers (core_cameraStore ?c) (cv_settings cv))
        [CM_beginResetModel, CM_endResetModel 0, CM_slotsUpdated [], CM_cameraIdsUpdated []]
        (VideoManager_clearAll (cv_video cv)))"
    by (simp add: CoreVideo_providers_def)
  moreover have "Core_inv ?c"
    using assms Core_onSignal_inv [of "cv_core cv" SIG_logoutRequested] by (simp add: CoreVideo_inv_def)
  ultimately show ?thesis
    unfolding CoreVideo_inv_def CoreVideo_logout_def CoreVideo_update_def Let_def
    using events rest by (simp del: Core_onSignal.simps)
qed

text \<open>Without the signal the frame rate is what it was.\<close>

lemma SettingsController_step_fps:
  assumes "SettingsController_step O' R (c, s) x = (c', s')"
    and "SS_fpsChanged \<notin> set (drop (length (set_signals c)) (set_signals c'))"
  shows "set_fps c' = set_fps c"
proof (cases x)
  case (Pair op json)
  with assms show ?thesis
    by (cases op) (auto simp: settings_setter_defs SettingsController_load_def SettingsController_loadJson_def Let_def
        split: if_splits option.splits)
qed

lemma VideoManager_setFpsLimit_tracks:
  "video_tracks fps K slots vm \<Longrightarrow> video_tracks fps' K slots (VideoManager_setFpsLimit fps' vm)"
  by (auto simp: video_tracks_def workers_ok_def VideoManager_setFpsLimit_inv)
     (auto simp: VideoManager_setFpsLimit_def VideoWorker_setFpsLimit_def dom_def)

lemma CoreVideo_settings_inv:
  assumes "CoreVideo_inv cv"
  shows "CoreVideo_inv (CoreVideo_settings (SettingsController_step O' R (cv_settings cv, cv_stored cv) x) cv)"
proof -
  obtain c' s' where step: "SettingsController_step O' R (cv_settings cv, cv_stored cv) x = (c', s')" by fastforce
  show ?thesis
    using assms SettingsController_step_fps [OF step]
    by (auto simp: step CoreVideo_inv_def CoreVideo_settings_def Let_def VideoManager_setFpsLimit_tracks)
qed

text \<open>A job leaves the grid alone, and the camera store forgets no camera.\<close>

lemma Core_bind_frame [simp]:
  "core_cameraModel (Core_bind outcome call c) = core_cameraModel c"
  "core_cameraStore (Core_bind outcome call c) = core_cameraStore c"
  "core_cameraModel (Core_post calls c) = core_cameraModel c"
  "core_cameraStore (Core_post calls c) = core_cameraStore c"
  by (auto simp: Core_bind_def Core_post_def split: sum.splits option.splits)

lemma Core_runJob_frame:
  assumes "CameraStore_inv (core_cameraStore c)"
  shows "core_cameraModel (Core_runJob J toBase64 now j c) = core_cameraModel c"
    "dom (cst_table (core_cameraStore c)) \<subseteq> dom (cst_table (core_cameraStore (Core_runJob J toBase64 now j c)))"
proof -
  show "core_cameraModel (Core_runJob J toBase64 now j c) = core_cameraModel c"
    by (cases j) (auto split: prod.splits sum.splits option.splits)
  show "dom (cst_table (core_cameraStore c)) \<subseteq> dom (cst_table (core_cameraStore (Core_runJob J toBase64 now j c)))"
  proof (cases j)
    case (JOB_cameraStore json)
    with CameraStore_update_grows [of "core_cameraStore c" J json] show ?thesis
      by (cases "CameraStore_updateFromJson J json (core_cameraStore c)") simp
  next
    case (JOB_meta json)
    with Core_meta_inv [OF assms, of J json] show ?thesis
      by (cases "Core_meta J json (core_cameraStore c)") simp
  next
    case (JOB_personCount json)
    with Core_person_inv [OF assms, of J json] show ?thesis by simp
  qed (simp_all split: prod.splits sum.splits option.splits)
qed

lemma Core_runCall_frame:
  assumes "Core_inv c" "core_calls c = call # calls" "\<And>ks. set (order ks) = set ks"
  shows "core_cameraStore (Core_runCall Q tbl order now call (c\<lparr>core_calls := calls\<rparr>)) = core_cameraStore c"
    and "grid_tracks (dom (cst_table (core_cameraStore c))) (core_cameraModel c)
      (core_cameraModel (Core_runCall Q tbl order now call (c\<lparr>core_calls := calls\<rparr>)))"
proof -
  show "core_cameraStore (Core_runCall Q tbl order now call (c\<lparr>core_calls := calls\<rparr>)) = core_cameraStore c"
    by (cases call) simp_all
  have "CameraModel_ids (core_cameraModel c) \<subseteq> dom (cst_table (core_cameraStore c))"
      "Core_call_ids call \<subseteq> dom (cst_table (core_cameraStore c))"
    using assms(1,2) by (auto simp: Core_inv_def Core_known_def)
  then show "grid_tracks (dom (cst_table (core_cameraStore c))) (core_cameraModel c)
      (core_cameraModel (Core_runCall Q tbl order now call (c\<lparr>core_calls := calls\<rparr>)))"
  proof (cases call)
    case (CALL_cameraModel_onStoreUpdated data)
    have "cd_cameraId ` set data - {''''} \<subseteq> dom (cst_table (core_cameraStore c))"
      using \<open>Core_call_ids call \<subseteq> _\<close> CALL_cameraModel_onStoreUpdated by auto
    with CALL_cameraModel_onStoreUpdated \<open>CameraModel_ids _ \<subseteq> _\<close> show ?thesis
      by (simp add: CameraModel_onStoreUpdated_tracks assms(3))
  next
    case (CALL_cameraModel_updateSensorInfo cid info)
    then show ?thesis by (simp add: CameraModel_updateSensorInfo_tracks)
  qed simp_all
qed

lemma CoreVideo_signal_inv:
  assumes "\<not> core_aborted (cv_core cv)" "CoreVideo_inv cv"
  shows "CoreVideo_inv (CoreVideo_signal sig cv)"
proof (cases "sig = SIG_logoutRequested")
  case True
  with CoreVideo_logout_inv [OF assms(2)] show ?thesis by (simp add: CoreVideo_signal_def)
next
  case False
  have "Core_inv (Core_onSignal sig (cv_core cv))"
    using assms Core_step_inv [OF Core_step.signal] by (auto simp: CoreVideo_inv_def)
  moreover have "core_cameraModel (Core_onSignal sig (cv_core cv)) = core_cameraModel (cv_core cv)"
      "core_cameraStore (Core_onSignal sig (cv_core cv)) = core_cameraStore (cv_core cv)"
    using False by (cases sig; simp add: Core_submit_def)+
  ultimately show ?thesis
    using False by (auto simp: CoreVideo_signal_def intro: CoreVideo_update_inv [OF assms(2)])
qed

lemma CoreVideo_inner_inv:
  assumes "CoreVideo_inner J Q toBase64 tbl O' R cv cv'" "CoreVideo_inv cv"
  shows "CoreVideo_inv cv'"
proof -
  have inv: "Core_inv (cv_core cv)" and store: "CameraStore_inv (core_cameraStore (cv_core cv))"
    and ids: "CameraModel_ids (core_cameraModel (cv_core cv)) \<subseteq> dom (cst_table (core_cameraStore (cv_core cv)))"
    using assms(2) by (auto simp: CoreVideo_inv_def Core_inv_def Core_known_def)
  have core: "Core_inv c'" if "Core_step J Q toBase64 tbl (cv_core cv) c'" for c'
    using Core_step_inv [OF that inv] .
  show ?thesis
    using assms(1)
  proof cases
    case (job js j js' now)
    note frame = Core_runJob_frame [of "(cv_core cv)\<lparr>core_jobs := js @ js'\<rparr>" J toBase64 now j]
    show ?thesis
      unfolding job(1)
      by (rule CoreVideo_update_inv [OF assms(2) core [OF Core_step.job [OF job(2,3)]]])
         (use frame store in simp_all)
  next
    case (call call calls order now)
    note frame = Core_runCall_frame [OF inv call(3,4), of Q tbl now]
    show ?thesis
      unfolding call(1)
      by (rule CoreVideo_update_inv [OF assms(2) core [OF Core_step.call [OF call(2,3,4)]]])
         (use frame in simp_all)
  next
    case (user_grid x)
    show ?thesis
      unfolding user_grid(1)
      by (rule CoreVideo_update_inv [OF assms(2) core [OF Core_step.user_grid [OF user_grid(2,3)]]])
         (use CameraModel_user_tracks [OF ids user_grid(3)] in simp_all)
  next
    case (user_alarm k)
    show ?thesis
      unfolding user_alarm(1)
      by (rule CoreVideo_update_inv [OF assms(2) core [OF Core_step.user_alarm [OF user_alarm(2)]]]) simp_all
  next
    case (settings x)
    with CoreVideo_settings_inv [OF assms(2)] show ?thesis by simp
  qed
qed

lemma CoreVideo_step_inv:
  "CoreVideo_step J Q toBase64 tbl O' R cv cv' \<Longrightarrow> CoreVideo_inv cv \<Longrightarrow> CoreVideo_inv cv'"
  by (auto elim!: CoreVideo_stepE intro: CoreVideo_signal_inv CoreVideo_inner_inv)

lemma CoreVideo_init_inv: "CoreVideo_inv (CoreVideo_init O' R json stored)"
  using Core_init_inv VideoManager_inv_init
  by (simp add: CoreVideo_inv_def CoreVideo_init_def video_tracks_def workers_ok_def slot_map_def)
     (simp add: VideoManager_init_def Core_init_def CameraModel_init_def grid_slots_def)

lemma CoreVideo_reachable_inv:
  "CoreVideo_reachable J Q toBase64 tbl O' R cv \<Longrightarrow> CoreVideo_inv cv"
  by (induction rule: CoreVideo_reachable.induct) (auto intro: CoreVideo_init_inv CoreVideo_step_inv)

section \<open>Properties\<close>

text \<open>
  Claim C5. In every state of the program, whatever packets, jobs, posted calls, calls of the user,
  logouts and loads of the settings came before, every card of the grid finds by its slot the
  worker of its own camera, which streams the URL it is connected to at the frame rate of the
  settings; the manager has no slot that is not on the grid, and no worker of a camera that the
  store does not know.
\<close>

theorem CoreVideo_cards_play:
  assumes "CoreVideo_reachable J Q toBase64 tbl O' R cv"
  shows "list_all (\<lambda>e. \<exists>w. VideoManager_getWorkerBySlot (cv_video cv) (ce_slotId e) = Some w \<and>
        vw_cameraId w = ce_cameraId e \<and> vw_fpsLimit w = set_fps (cv_settings cv) \<and>
        vid_thread (vw_video w) = (if vw_connectionString w = '''' then None else Some (vw_connectionString w)))
      (cm_cameras (core_cameraModel (cv_core cv))) \<and>
    dom (vm_slots (cv_video cv)) = ce_slotId ` set (cm_cameras (core_cameraModel (cv_core cv))) \<and>
    dom (vm_workers (cv_video cv)) \<subseteq> dom (cst_table (core_cameraStore (cv_core cv)))"
proof -
  let ?m = "core_cameraModel (cv_core cv)" and ?vm = "cv_video cv"
  have inv: "CoreVideo_inv cv" by (rule CoreVideo_reachable_inv [OF assms])
  then have tr: "video_tracks (set_fps (cv_settings cv)) (dom (cst_table (core_cameraStore (cv_core cv)))) (grid_slots ?m) ?vm"
    and known: "CameraModel_ids ?m \<subseteq> dom (cst_table (core_cameraStore (cv_core cv))) - {''''}"
    and model: "CameraModel_inv ?m"
    by (simp_all add: CoreVideo_inv_def Core_inv_def Core_known_def)
  have distinct: "distinct (map si_slotId (grid_slots ?m))"
    using model by (simp add: CameraModel_inv_def grid_slots_def comp_def CameraModel_slotInfo_def)
  have card: "\<exists>w. VideoManager_getWorkerBySlot ?vm (ce_slotId e) = Some w \<and>
        vw_cameraId w = ce_cameraId e \<and> vw_fpsLimit w = set_fps (cv_settings cv) \<and>
        vid_thread (vw_video w) = (if vw_connectionString w = '''' then None else Some (vw_connectionString w))"
    if "e \<in> set (cm_cameras ?m)" for e
  proof -
    have si: "CameraModel_slotInfo e \<in> set (grid_slots ?m)" using that by (simp add: grid_slots_def)
    have slot: "vm_slots ?vm (ce_slotId e) = Some (ce_cameraId e)"
      using insert_slots_lookup [OF distinct si, of Map.empty] tr
      by (simp add: video_tracks_def slot_map_def CameraModel_slotInfo_def)
    have "ce_cameraId e \<in> CameraModel_ids ?m" using that by (simp add: CameraModel_ids_def)
    then have "ce_cameraId e \<in> dom (vm_workers ?vm)"
      using tr known grid_slots_cameras [of ?m] unfolding video_tracks_def by auto
    then obtain w where w: "vm_workers ?vm (ce_cameraId e) = Some w" by auto
    moreover have "VideoManager_inv ?vm" "vw_fpsLimit w = set_fps (cv_settings cv)"
      using tr w by (auto simp: video_tracks_def workers_ok_def)
    ultimately show ?thesis
      using VideoManager_invD [of ?vm "ce_cameraId e" w] slot
      by (simp add: VideoManager_getWorkerBySlot_def VideoManager_getWorker_def VideoManager_slotCameraId_def
          VideoWorker_ok_def)
  qed
  have "dom (vm_slots ?vm) = si_slotId ` set (grid_slots ?m)"
    using tr by (simp add: video_tracks_def dom_slot_map)
  also have "\<dots> = ce_slotId ` set (cm_cameras ?m)"
    by (force simp: grid_slots_def CameraModel_slotInfo_def)
  finally show ?thesis
    using card tr by (auto simp: list_all_iff video_tracks_def workers_ok_def)
qed

text \<open>A camera packet, its job and its call, and the card of the camera on the grid.\<close>

theorem CoreVideo_cards_play_witness:
  "\<exists>cv :: CoreVideo. map ce_cameraId (cm_cameras (core_cameraModel (cv_core cv))) = [''192.168.0.17/0''] \<and>
     dom (vm_slots (cv_video cv)) = ce_slotId ` set (cm_cameras (core_cameraModel (cv_core cv)))"
proof -
  let ?J = core_example_json and ?Q = core_example_qt and ?b = "\<lambda>_. ''''" and ?tbl = "[]"
  let ?O = "\<lparr>so_toBool = (\<lambda>v. False), so_toInt = (\<lambda>v. 0), so_toString = (\<lambda>v. ''''), so_parseInt = (\<lambda>_. 0)\<rparr>"
  let ?R = "qt_ops.extend core_example_qt \<lparr>q_contains = (\<lambda>q s. False)\<rparr> :: unit qt_object_ops"
  define cv0 where "cv0 = CoreVideo_init ?O ?R None Map.empty"
  define cv1 where "cv1 = CoreVideo_update (Core_onSignal (SIG_cameraListReceived ''cameras'') (cv_core cv0)) cv0"
  define cv2 where "cv2 = CoreVideo_update (Core_runJob ?J ?b 0 (JOB_cameraStore ''cameras'')
    ((cv_core cv1)\<lparr>core_jobs := [] @ [JOB_deviceStore_camera ''cameras'']\<rparr>)) cv1"
  define call where "call = hd (core_calls (cv_core cv2))"
  define cv3 where "cv3 = CoreVideo_update (Core_runCall ?Q ?tbl id 0 call ((cv_core cv2)\<lparr>core_calls := []\<rparr>)) cv2"
  have c0: "cv_core cv0 = Core_init" by (simp add: cv0_def CoreVideo_init_def)
  have c1: "cv_core cv1 = Core_onSignal (SIG_cameraListReceived ''cameras'') Core_init"
    by (simp add: cv1_def c0)
  have c2: "cv_core cv2 = Core_runJob ?J ?b 0 (JOB_cameraStore ''cameras'')
      ((Core_onSignal (SIG_cameraListReceived ''cameras'') Core_init)\<lparr>core_jobs := [] @ [JOB_deviceStore_camera ''cameras'']\<rparr>)"
    by (simp add: cv2_def c1)
  have "CoreVideo_step ?J ?Q ?b ?tbl ?O ?R cv0 cv1"
    using CoreVideo_step.signal [of cv0 ?J ?Q ?b ?tbl ?O ?R "SIG_cameraListReceived ''cameras''"]
    by (simp add: cv1_def CoreVideo_signal_def c0 Core_init_def)
  moreover have "CoreVideo_step ?J ?Q ?b ?tbl ?O ?R cv1 cv2"
    unfolding cv2_def by (intro CoreVideo_step.inner CoreVideo_inner.job) (simp_all add: c1 Core_submit_def Core_init_def)
  moreover have "core_calls (cv_core cv2) = [call] \<and> \<not> core_aborted (cv_core cv2)"
    unfolding call_def c2 by code_simp
  then have "CoreVideo_step ?J ?Q ?b ?tbl ?O ?R cv2 cv3"
    unfolding cv3_def by (intro CoreVideo_step.inner CoreVideo_inner.call) simp_all
  moreover have "CoreVideo_reachable ?J ?Q ?b ?tbl ?O ?R cv0"
    unfolding cv0_def by (rule CoreVideo_reachable.start)
  ultimately have reach: "CoreVideo_reachable ?J ?Q ?b ?tbl ?O ?R cv3"
    by (metis CoreVideo_reachable.step)
  have "map ce_cameraId (cm_cameras (core_cameraModel
      (Core_runCall ?Q ?tbl id 0 call ((cv_core cv2)\<lparr>core_calls := []\<rparr>)))) = [''192.168.0.17/0'']"
    unfolding call_def c2 by code_simp
  then have "map ce_cameraId (cm_cameras (core_cameraModel (cv_core cv3))) = [''192.168.0.17/0'']"
    by (simp only: cv3_def CoreVideo_update_core)
  then show ?thesis
    using CoreVideo_cards_play [OF reach] by (intro exI [where x = cv3]) blast
qed

end
