(* ===== verification/CoreSystem.thy ===== *)
theory CoreSystem
  imports CoreVideo Auth
begin

text \<open>
  Core.cpp: the pages, the bridge and the core together. \<open>constructLayer2\<close> gives the pages the
  address of the settings; a callback of the network becomes signals of the bridge, which reach the
  pages and the core in the same turn of the event loop; a logout of the page reaches the bridge,
  the videos and the models.
\<close>

section \<open>State and events\<close>

text \<open>
  \<open>sys_history\<close> lists what has happened at the pages and the network: the events of the client,
  the callbacks with their texts among them, and the images. \<open>sys_taken\<close> counts the jobs that the
  pool has taken. Both only record the run; they are not part of the program.
\<close>

datatype system_event =
    SE_client client_event
  | SE_image bytes string

record CoreSystem =
  sys_client :: Client
  sys_cv :: CoreVideo
  sys_history :: "system_event list"
  sys_taken :: "Core_job multiset"

definition SERVER_PORT :: string where
  "SERVER_PORT = ''20000''"

definition Core_constructLayer2 ::
  "settings_ops \<Rightarrow> ('q, 'm) qt_object_ops_scheme \<Rightarrow> string option \<Rightarrow> settings_store \<Rightarrow> CoreSystem" where
  "Core_constructLayer2 O' Q json stored =
     (let cv = CoreVideo_init O' Q json stored
      in \<lparr>sys_client = Client_new (set_serverIp (cv_settings cv)) SERVER_PORT, sys_cv = cv,
          sys_history = [], sys_taken = {#}\<rparr>)"

text \<open>The signals that an event of the client has for the core.\<close>

fun Core_wireSignals :: "('q, 'm) qt_object_ops_scheme \<Rightarrow> string \<Rightarrow> client_event \<Rightarrow> Core_signal list" where
  "Core_wireSignals Q purpose (CE_callback cb text) =
     concat (map BridgeSignal_core (NetworkBridge_callback Q purpose (cb, text)))"
| "Core_wireSignals Q purpose CE_connected =
     concat (map BridgeSignal_core (NetworkBridge_onConnected purpose))"
| "Core_wireSignals Q purpose CE_logout = [SIG_logoutRequested]"
| "Core_wireSignals Q purpose _ = []"

definition CoreSystem_signals :: "Core_signal list \<Rightarrow> CoreSystem \<Rightarrow> CoreSystem" where
  "CoreSystem_signals sigs s = s\<lparr>sys_cv := foldl (\<lambda>cv sig. CoreVideo_signal sig cv) (sys_cv s) sigs\<rparr>"

definition CoreSystem_client ::
  "('q, 'm) qt_object_ops_scheme \<Rightarrow> string \<Rightarrow> client_event \<Rightarrow> CoreSystem \<Rightarrow> CoreSystem" where
  "CoreSystem_client Q emptyForm e s =
     CoreSystem_signals (Core_wireSignals Q (Client_purpose (sys_client s)) e)
       (s\<lparr>sys_client := Client_event Q emptyForm (sys_client s) e,
          sys_history := sys_history s @ [SE_client e]\<rparr>)"

definition CoreSystem_imageData :: "bytes \<Rightarrow> string \<Rightarrow> CoreSystem \<Rightarrow> CoreSystem" where
  "CoreSystem_imageData data meta s =
     CoreSystem_signals (concat (map BridgeSignal_core (NetworkBridge_onImageData data meta)))
       (s\<lparr>sys_history := sys_history s @ [SE_image data meta]\<rparr>)"

text \<open>A step of the pool, of a posted call or of the user; a job that is taken is counted.\<close>

definition CoreSystem_inner :: "CoreVideo \<Rightarrow> CoreSystem \<Rightarrow> CoreSystem" where
  "CoreSystem_inner cv s =
     s\<lparr>sys_cv := cv,
       sys_taken := sys_taken s + (mset (core_jobs (cv_core (sys_cv s))) - mset (core_jobs (cv_core cv)))\<rparr>"

inductive CoreSystem_step ::
  "'j json_ops \<Rightarrow> ('q, 'm) qt_object_ops_scheme \<Rightarrow> string \<Rightarrow> (bytes \<Rightarrow> string) \<Rightarrow> (string \<times> int) list \<Rightarrow>
   settings_ops \<Rightarrow> CoreSystem \<Rightarrow> CoreSystem \<Rightarrow> bool"
  for J Q emptyForm toBase64 tbl O'
where
  client: "\<not> core_aborted (cv_core (sys_cv s)) \<Longrightarrow>
     CoreSystem_step J Q emptyForm toBase64 tbl O' s (CoreSystem_client Q emptyForm e s)"
| image: "\<not> core_aborted (cv_core (sys_cv s)) \<Longrightarrow>
     CoreSystem_step J Q emptyForm toBase64 tbl O' s (CoreSystem_imageData data meta s)"
| inner: "CoreVideo_inner J (qt_ops.truncate Q) toBase64 tbl O' Q (sys_cv s) cv \<Longrightarrow>
     CoreSystem_step J Q emptyForm toBase64 tbl O' s (CoreSystem_inner cv s)"

inductive_cases CoreSystem_stepE: "CoreSystem_step J Q emptyForm toBase64 tbl O' s s'"

inductive CoreSystem_reachable ::
  "'j json_ops \<Rightarrow> ('q, 'm) qt_object_ops_scheme \<Rightarrow> string \<Rightarrow> (bytes \<Rightarrow> string) \<Rightarrow> (string \<times> int) list \<Rightarrow>
   settings_ops \<Rightarrow> CoreSystem \<Rightarrow> bool"
  for J Q emptyForm toBase64 tbl O'
where
  start: "CoreSystem_reachable J Q emptyForm toBase64 tbl O' (Core_constructLayer2 O' Q json stored)"
| step: "CoreSystem_reachable J Q emptyForm toBase64 tbl O' s \<Longrightarrow>
     CoreSystem_step J Q emptyForm toBase64 tbl O' s s' \<Longrightarrow>
     CoreSystem_reachable J Q emptyForm toBase64 tbl O' s'"

section \<open>The parts of a run\<close>

lemma CoreSystem_signals_fields [simp]:
  "sys_client (CoreSystem_signals sigs s) = sys_client s"
  "sys_history (CoreSystem_signals sigs s) = sys_history s"
  "sys_taken (CoreSystem_signals sigs s) = sys_taken s"
  "sys_cv (CoreSystem_signals sigs s) = foldl (\<lambda>cv sig. CoreVideo_signal sig cv) (sys_cv s) sigs"
  by (simp_all add: CoreSystem_signals_def)

lemma CoreSystem_inner_fields [simp]:
  "sys_client (CoreSystem_inner cv s) = sys_client s"
  "sys_history (CoreSystem_inner cv s) = sys_history s"
  "sys_cv (CoreSystem_inner cv s) = cv"
  by (simp_all add: CoreSystem_inner_def)

lemma CoreVideo_signal_core [simp]:
  "cv_core (CoreVideo_signal sig cv) = Core_onSignal sig (cv_core cv)"
  by (simp add: CoreVideo_signal_def CoreVideo_logout_def del: Core_onSignal.simps)

lemma Core_onSignal_aborted [simp]: "core_aborted (Core_onSignal sig c) = core_aborted c"
  by (cases sig) (simp_all add: Core_submit_def Core_post_def Core_logout_def)

lemma CoreVideo_signals_reachable:
  "CoreVideo_reachable J Q toBase64 tbl O' R cv \<Longrightarrow> \<not> core_aborted (cv_core cv) \<Longrightarrow>
   CoreVideo_reachable J Q toBase64 tbl O' R (foldl (\<lambda>cv sig. CoreVideo_signal sig cv) cv sigs)"
proof (induction sigs arbitrary: cv)
  case (Cons sig sigs)
  from Cons.prems have "CoreVideo_reachable J Q toBase64 tbl O' R (CoreVideo_signal sig cv)"
    by (blast intro: CoreVideo_reachable.step CoreVideo_step.signal)
  with Cons show ?case by simp
qed simp

lemma CoreSystem_reachable_cv:
  "CoreSystem_reachable J Q emptyForm toBase64 tbl O' s \<Longrightarrow>
   CoreVideo_reachable J (qt_ops.truncate Q) toBase64 tbl O' Q (sys_cv s)"
proof (induction rule: CoreSystem_reachable.induct)
  case (start json stored)
  show ?case by (simp add: Core_constructLayer2_def Let_def CoreVideo_reachable.start)
next
  case (step s s')
  from step.hyps(2) show ?case
  proof cases
    case (inner cv)
    with step.IH show ?thesis
      by (auto intro: CoreVideo_reachable.step CoreVideo_step.inner)
  qed (use step.IH in \<open>simp_all add: CoreSystem_client_def CoreSystem_imageData_def CoreVideo_signals_reachable\<close>)
qed

text \<open>The jobs that a signal submits.\<close>

fun signal_jobs :: "Core_signal \<Rightarrow> Core_job list" where
  "signal_jobs (SIG_cameraListReceived json) = [JOB_cameraStore json, JOB_deviceStore_camera json]"
| "signal_jobs (SIG_deviceStatusReceived json) = [JOB_deviceStore_available json, JOB_serverStatusStore json]"
| "signal_jobs (SIG_metaResultReceived json) = [JOB_meta json]"
| "signal_jobs (SIG_aiResultReceived json) = [JOB_alarm json, JOB_personCount json]"
| "signal_jobs (SIG_imageDataReceived data meta) = [JOB_image data meta]"
| "signal_jobs _ = []"

lemma Core_onSignal_jobs [simp]: "core_jobs (Core_onSignal sig c) = core_jobs c @ signal_jobs sig"
  by (cases sig) (simp_all add: Core_submit_def Core_post_def Core_logout_def)

lemma CoreVideo_signals_jobs [simp]:
  "core_jobs (cv_core (foldl (\<lambda>cv sig. CoreVideo_signal sig cv) cv sigs)) =
   core_jobs (cv_core cv) @ concat (map signal_jobs sigs)"
  by (induction sigs arbitrary: cv) (simp_all del: Core_onSignal.simps)

lemma Core_runJob_jobs [simp]: "core_jobs (Core_runJob J toBase64 now j c) = core_jobs c"
  by (cases j) (auto simp: Core_bind_def Core_post_def split: prod.splits sum.splits option.splits)

lemma Core_runCall_jobs [simp]: "core_jobs (Core_runCall Q tbl order now call c) = core_jobs c"
  by (cases call) simp_all

lemma CoreVideo_inner_jobs:
  assumes "CoreVideo_inner J Q toBase64 tbl O' R cv cv'"
  shows "mset (core_jobs (cv_core cv')) \<subseteq># mset (core_jobs (cv_core cv))"
  using assms by cases simp_all

text \<open>
  What an event is for, by the type of its packet and whatever the state of the pages: the jobs
  that \<open>Core::wireSignals\<close> has to submit for it. This is the specification of the wiring, which
  goes over the signals of the bridge.
\<close>

fun packet_jobs :: "system_event \<Rightarrow> Core_job list" where
  "packet_jobs (SE_image data meta) = [JOB_image data meta]"
| "packet_jobs (SE_client (CE_callback cb t)) =
     (if cb = onCameraList then [JOB_cameraStore t, JOB_deviceStore_camera t]
      else if cb = onDeviceStatus then [JOB_deviceStore_available t, JOB_serverStatusStore t]
      else if cb = onMetaResult then [JOB_meta t]
      else if cb = onAiResult then [JOB_alarm t, JOB_personCount t]
      else [])"
| "packet_jobs (SE_client _) = []"

definition client_events :: "system_event list \<Rightarrow> client_event list" where
  "client_events h = List.map_filter (\<lambda>e. case e of SE_client c \<Rightarrow> Some c | SE_image _ _ \<Rightarrow> None) h"

lemma client_events_snoc [simp]:
  "client_events [] = []"
  "client_events (h @ [SE_client e]) = client_events h @ [e]"
  "client_events (h @ [SE_image data meta]) = client_events h"
  by (simp_all add: client_events_def map_filter_def)

lemma answer_signals_jobs:
  "concat (map signal_jobs (concat (map BridgeSignal_core (NetworkBridge_onLoginResult Q t)))) = []"
  "concat (map signal_jobs (concat (map BridgeSignal_core (NetworkBridge_onLoginFail Q purpose t)))) = []"
  "concat (map signal_jobs (concat (map BridgeSignal_core (NetworkBridge_onConnected purpose)))) = []"
  by (simp_all add: result_signals fail_signals NetworkBridge_onConnected_def)

lemma Core_wireSignals_jobs:
  "concat (map signal_jobs (Core_wireSignals Q purpose e)) = packet_jobs (SE_client e)"
proof (cases e)
  case (CE_callback cb t)
  then show ?thesis
    by (cases cb) (simp_all add: NetworkBridge_callback_def answer_signals_jobs)
qed (simp_all add: answer_signals_jobs)

lemma CoreSystem_inner_balance:
  assumes "mset (core_jobs (cv_core cv)) \<subseteq># mset (core_jobs (cv_core (sys_cv s)))"
  shows "mset (core_jobs (cv_core cv)) + sys_taken (CoreSystem_inner cv s) =
    mset (core_jobs (cv_core (sys_cv s))) + sys_taken s"
proof -
  from assms obtain M where "mset (core_jobs (cv_core (sys_cv s))) = mset (core_jobs (cv_core cv)) + M"
    by (auto simp: mset_subset_eq_exists_conv)
  then show ?thesis by (simp add: CoreSystem_inner_def)
qed

section \<open>Properties\<close>

text \<open>
  Claim C7. The program answers its events as the table of the packets says. In any run the pages and
  the bridge are in the state that the client events of the history give, starting at the server of
  the settings; the models, videos and settings are in a state they reach alone; and the jobs that
  wait for the pool and those it has taken are, each as often, exactly the jobs that the table
  names for the callbacks and images of the history: the bridge, its signals and the wiring of
  the core lose none, add none and mix up none, whatever happens between.
\<close>

theorem CoreSystem_refines_parts:
  assumes "CoreSystem_reachable J Q emptyForm toBase64 tbl O' s"
  shows "CoreVideo_reachable J (qt_ops.truncate Q) toBase64 tbl O' Q (sys_cv s) \<and>
    (\<exists>json stored. sys_client s = foldl (Client_event Q emptyForm)
       (Client_new (set_serverIp (SettingsController_new O' Q json stored)) SERVER_PORT)
       (client_events (sys_history s))) \<and>
    mset (core_jobs (cv_core (sys_cv s))) + sys_taken s = mset (concat (map packet_jobs (sys_history s)))"
proof (intro conjI)
  show "CoreVideo_reachable J (qt_ops.truncate Q) toBase64 tbl O' Q (sys_cv s)"
    by (rule CoreSystem_reachable_cv [OF assms])
  show "\<exists>json stored. sys_client s = foldl (Client_event Q emptyForm)
       (Client_new (set_serverIp (SettingsController_new O' Q json stored)) SERVER_PORT)
       (client_events (sys_history s))"
    using assms
  proof (induction rule: CoreSystem_reachable.induct)
    case (start json stored)
    show ?case
      by (intro exI [where x = json] exI [where x = stored])
         (simp add: Core_constructLayer2_def CoreVideo_init_def Let_def)
  next
    case (step s s')
    then obtain json stored where run: "sys_client s = foldl (Client_event Q emptyForm)
       (Client_new (set_serverIp (SettingsController_new O' Q json stored)) SERVER_PORT)
       (client_events (sys_history s))" by blast
    from step.hyps(2) show ?case
      by cases (use run in \<open>auto intro!: exI [where x = json] exI [where x = stored]
        simp: CoreSystem_client_def CoreSystem_imageData_def\<close>)
  qed
  show "mset (core_jobs (cv_core (sys_cv s))) + sys_taken s = mset (concat (map packet_jobs (sys_history s)))"
    using assms
  proof (induction rule: CoreSystem_reachable.induct)
    case (start json stored)
    show ?case by (simp add: Core_constructLayer2_def CoreVideo_init_def Core_init_def Let_def)
  next
    case (step s s')
    from step.hyps(2) show ?case
    proof cases
      case (client e)
      with step.IH show ?thesis
        by (simp add: CoreSystem_client_def Core_wireSignals_jobs flip: step.IH)
    next
      case (image data meta)
      with step.IH show ?thesis
        by (simp add: CoreSystem_imageData_def NetworkBridge_onImageData_def Core_submit_def flip: step.IH)
    next
      case (inner cv)
      with CoreSystem_inner_balance [OF CoreVideo_inner_jobs [OF inner(2)]] step.IH show ?thesis
        by simp
    qed
  qed
qed


section \<open>Instances\<close>

text \<open>
  A camera packet, its job, a logout, and then the call that the job posted: the card of the
  session before is on the grid again, although nothing has arrived since.
\<close>

theorem CoreSystem_refines_parts_witness:
  "\<exists>s :: CoreSystem. map ce_cameraId (cm_cameras (core_cameraModel (cv_core (sys_cv s)))) = [''192.168.0.17/0''] \<and>
     last (sys_history s) = SE_client CE_logout \<and>
     mset (core_jobs (cv_core (sys_cv s))) + sys_taken s = mset (concat (map packet_jobs (sys_history s)))"
proof -
  let ?J = "core_example_json" and ?b = "\<lambda>_. ''''"
  let ?O = "\<lparr>so_toBool = (\<lambda>v. False), so_toInt = (\<lambda>v. 0), so_toString = (\<lambda>v. ''''), so_parseInt = (\<lambda>_. 0)\<rparr>"
  let ?R = "qt_ops.extend core_example_qt \<lparr>q_contains = (\<lambda>q s. False)\<rparr> :: unit qt_object_ops"
  define c1 where "c1 = Core_onSignal (SIG_cameraListReceived ''cameras'') Core_init"
  define c2 where "c2 = Core_runJob ?J ?b 0 (JOB_cameraStore ''cameras'') (c1\<lparr>core_jobs := [] @ [JOB_deviceStore_camera ''cameras'']\<rparr>)"
  define c3 where "c3 = Core_onSignal SIG_logoutRequested c2"
  define call where "call = hd (core_calls c3)"
  define c4 where "c4 = Core_runCall core_example_qt [] id 0 call (c3\<lparr>core_calls := []\<rparr>)"
  define s0 where "s0 = Core_constructLayer2 ?O ?R None Map.empty"
  define s1 where "s1 = CoreSystem_client ?R '''' (CE_callback onCameraList ''cameras'') s0"
  define s2 where "s2 = CoreSystem_inner (CoreVideo_update c2 (sys_cv s1)) s1"
  define s3 where "s3 = CoreSystem_client ?R '''' CE_logout s2"
  define s4 where "s4 = CoreSystem_inner (CoreVideo_update c4 (sys_cv s3)) s3"
  have Q: "qt_ops.truncate ?R = core_example_qt" by (simp add: qt_ops.defs)
  have s0: "cv_core (sys_cv s0) = Core_init"
    by (simp add: s0_def Core_constructLayer2_def CoreVideo_init_def Let_def)
  have s1: "cv_core (sys_cv s1) = c1"
    by (simp add: s1_def c1_def CoreSystem_client_def NetworkBridge_callback_def s0 del: Core_onSignal.simps)
  have s2: "cv_core (sys_cv s2) = c2" by (simp add: s2_def)
  have s3: "cv_core (sys_cv s3) = c3"
    by (simp add: s3_def c3_def CoreSystem_client_def s2 del: Core_onSignal.simps)
  have jobs: "\<not> core_aborted c1" "core_jobs c1 = [] @ JOB_cameraStore ''cameras'' # [JOB_deviceStore_camera ''cameras'']"
    by (simp_all add: c1_def Core_init_def Core_submit_def)
  have "core_calls c3 = [call] \<and> \<not> core_aborted c2 \<and> \<not> core_aborted c3"
    unfolding call_def c3_def c2_def c1_def by code_simp
  then have calls: "core_calls c3 = call # []" and alive: "\<not> core_aborted c2" "\<not> core_aborted c3" by auto
  let ?step = "CoreSystem_step ?J ?R '''' ?b [] ?O"
  have "?step s0 s1"
    unfolding s1_def by (rule CoreSystem_step.client) (simp add: s0 Core_init_def)
  moreover have "?step s1 s2"
    using CoreVideo_inner.job [of "sys_cv s1", unfolded s1, OF jobs, of ?J "qt_ops.truncate ?R" ?b "[]" ?O ?R 0]
    unfolding s2_def c2_def by (rule CoreSystem_step.inner)
  moreover have "?step s2 s3"
    unfolding s3_def by (rule CoreSystem_step.client) (simp only: s2 alive not_False_eq_True)
  moreover have "?step s3 s4"
    using CoreVideo_inner.call [of "sys_cv s3" call "[]" id, unfolded s3, OF alive(2) calls,
        of ?J "qt_ops.truncate ?R" ?b "[]" ?O ?R 0]
    unfolding s4_def c4_def Q by (intro CoreSystem_step.inner) (simp only: Q id_apply)
  moreover have "CoreSystem_reachable ?J ?R '''' ?b [] ?O s0"
    unfolding s0_def by (rule CoreSystem_reachable.start)
  ultimately have reach: "CoreSystem_reachable ?J ?R '''' ?b [] ?O s4"
    by (metis CoreSystem_reachable.step)
  have "map ce_cameraId (cm_cameras (core_cameraModel c4)) = [''192.168.0.17/0'']"
    unfolding c4_def call_def c3_def c2_def c1_def by code_simp
  then have "map ce_cameraId (cm_cameras (core_cameraModel (cv_core (sys_cv s4)))) = [''192.168.0.17/0'']"
    by (simp add: s4_def)
  moreover have "last (sys_history s4) = SE_client CE_logout"
    by (simp add: s4_def s3_def CoreSystem_client_def)
  ultimately show ?thesis
    using CoreSystem_refines_parts [OF reach] by (intro exI [where x = s4]) blast
qed

end
