(* ===== verification/ImagePath.thy ===== *)
theory ImagePath
  imports CoreSystem UdpSession
begin

text \<open>
  The path of an image from the datagrams of UdpSession.hpp to the image page: decryption, the
  collection of the fragments, the callback of the bridge, the job of Core.cpp and the call that
  it posts. The engine is arbitrary; what is assumed of it is what OpenSSL documents of a
  connection over datagrams behind its handshake.
\<close>

section \<open>Datagrams\<close>

text \<open>A datagram of an image: the packed \<open>ImageHeader\<close> and one record with a fragment.\<close>

definition image_packet :: "byte \<Rightarrow> byte \<Rightarrow> byte \<times> bytes \<Rightarrow> bytes" where
  "image_packet frameNo maxSeqNo = (\<lambda>(seqNo, cipher).
     MessageType_byte IMAGE # le32_bytes (of_nat (length cipher)) @ [frameNo, seqNo, maxSeqNo] @ cipher)"

lemma image_packet_header [simp]:
  "image_packet frameNo maxSeqNo p \<noteq> []"
  "\<not> length (image_packet frameNo maxSeqNo p) < image_header_size"
  "header_type (image_packet frameNo maxSeqNo p) = MessageType_byte IMAGE"
  "header_FrameNumber (image_packet frameNo maxSeqNo p) = frameNo"
  "header_SequenceNumber (image_packet frameNo maxSeqNo p) = fst p"
  "header_MaxSequenceNumber (image_packet frameNo maxSeqNo p) = maxSeqNo"
  "drop image_header_size (image_packet frameNo maxSeqNo p) = snd p"
  "int (length (image_packet frameNo maxSeqNo p)) - int image_header_size = int (length (snd p))"
  by (simp_all add: image_packet_def split_def image_header_size_def header_type_def header_FrameNumber_def
      header_SequenceNumber_def header_MaxSequenceNumber_def le32_bytes_def)

text \<open>
  The session over such datagrams does what it does over the fragments, but for the state of its
  engine and the address it answers to, neither of which the reassembly reads.
\<close>

lemma handleImageFragment_alike:
  "UdpSession_handleImageFragment C frameNo seqNo maxSeqNo data
     (st\<lparr>udp_server_endpoint := ep, udp_dtlsSession := s\<rparr>) =
   (case UdpSession_handleImageFragment C frameNo seqNo maxSeqNo data st of
      (st', outs) \<Rightarrow> (st'\<lparr>udp_server_endpoint := ep, udp_dtlsSession := s\<rparr>, outs))"
  by (cases st) (simp add: UdpSession_handleImageFragment_def UdpSession_new_frame_def Let_def)

lemma UdpSession_receive_packet:
  assumes "record_reader S pt A" "A e ((cipher, plain) # rs)" "pt e = []" "cipher \<noteq> []" "plain \<noteq> []"
    and "udp_dtlsSession st = Some e"
  shows "\<exists>e' ep st1 outs.
    UdpSession_handleImageFragment C frameNo seqNo maxSeqNo plain st = (st1, outs) \<and>
    UdpSession_onReceive S C sender (image_packet frameNo maxSeqNo (seqNo, cipher)) st =
      Some (st1\<lparr>udp_server_endpoint := ep, udp_dtlsSession := Some e'\<rparr>, outs) \<and>
    A e' rs \<and> pt e' = []"
proof -
  obtain e' where d: "MediaDTLS_decrypt S cipher (int (length cipher)) (Some e) = Some (Some e', plain)"
    "A e' rs" "pt e' = []"
    using decrypt_reader [OF assms(1-4)] by blast
  obtain st1 outs where f: "UdpSession_handleImageFragment C frameNo seqNo maxSeqNo plain st = (st1, outs)"
    by fastforce
  define ep where "ep = (if ep_port (udp_server_endpoint st) = 0 then sender else udp_server_endpoint st)"
  have in_st: "(if ep_port (udp_server_endpoint st) = 0 then st\<lparr>udp_server_endpoint := sender\<rparr> else st) =
      st\<lparr>udp_server_endpoint := ep, udp_dtlsSession := Some e\<rparr>"
    using assms(6) by (cases st) (simp add: ep_def)
  have init: "ssl_isHandshakeDone S (Some e)"
    using record_readerD(1) [OF assms(1,2)] by (simp add: ssl_isHandshakeDone_def)
  have "UdpSession_onReceive S C sender (image_packet frameNo maxSeqNo (seqNo, cipher)) st =
      Some (st1\<lparr>udp_server_endpoint := ep, udp_dtlsSession := Some e'\<rparr>, outs)"
    using init f assms(5)
    by (simp add: UdpSession_onReceive_def in_st UdpSession_handlePacket_def d(1)
        handleImageFragment_alike Let_def)
  with f d(2,3) show ?thesis by blast
qed

lemma UdpSession_arrivals_alike:
  "UdpSession_arrivals C frameNo maxSeqNo fs (st\<lparr>udp_server_endpoint := ep, udp_dtlsSession := s\<rparr>) =
   (case UdpSession_arrivals C frameNo maxSeqNo fs st of
      (st', outs) \<Rightarrow> (st'\<lparr>udp_server_endpoint := ep, udp_dtlsSession := s\<rparr>, outs))"
proof (induction fs arbitrary: st)
  case (Cons x fs)
  then show ?case by (cases x) (simp add: handleImageFragment_alike split: prod.splits)
qed simp

lemma UdpSession_receive_packets:
  assumes "record_reader S pt A"
  shows "A e (map (\<lambda>(i, cipher). (cipher, f i)) ps) \<Longrightarrow> pt e = [] \<Longrightarrow>
    list_all (\<lambda>(i, cipher). cipher \<noteq> [] \<and> f i \<noteq> []) ps \<Longrightarrow> udp_dtlsSession st = Some e \<Longrightarrow>
    UdpSession_arrivals C frameNo maxSeqNo (map (\<lambda>i. (i, f i)) (map fst ps)) st = (st', outs) \<Longrightarrow>
    \<exists>ep s. UdpSession_events S C (map (\<lambda>p. UE_receive sender (image_packet frameNo maxSeqNo p)) ps) st =
      Some (st'\<lparr>udp_server_endpoint := ep, udp_dtlsSession := s\<rparr>, outs)"
proof (induction ps arbitrary: e st st' outs)
  case Nil
  then show ?case
    by (cases st') (auto intro!: exI [where x = "udp_server_endpoint st'"] exI [where x = "udp_dtlsSession st'"])
next
  case (Cons p ps)
  obtain i cipher where p: "p = (i, cipher)" by fastforce
  obtain e' ep st1 outs1 where one:
      "UdpSession_handleImageFragment C frameNo i maxSeqNo (f i) st = (st1, outs1)"
      "UdpSession_onReceive S C sender (image_packet frameNo maxSeqNo (i, cipher)) st =
        Some (st1\<lparr>udp_server_endpoint := ep, udp_dtlsSession := Some e'\<rparr>, outs1)"
      "A e' (map (\<lambda>(i, cipher). (cipher, f i)) ps)" "pt e' = []"
    using UdpSession_receive_packet [OF assms, of e cipher "f i" _ st C frameNo i maxSeqNo sender] Cons.prems p
    by fastforce
  obtain st2 outs2 where two:
      "UdpSession_arrivals C frameNo maxSeqNo (map (\<lambda>i. (i, f i)) (map fst ps)) st1 = (st2, outs2)" by fastforce
  then have out: "st' = st2" "outs = outs1 @ outs2" using Cons.prems(5) one(1) p by simp_all
  have "UdpSession_arrivals C frameNo maxSeqNo (map (\<lambda>i. (i, f i)) (map fst ps))
      (st1\<lparr>udp_server_endpoint := ep, udp_dtlsSession := Some e'\<rparr>) =
      (st2\<lparr>udp_server_endpoint := ep, udp_dtlsSession := Some e'\<rparr>, outs2)"
    using two by (simp only: UdpSession_arrivals_alike prod.case)
  from Cons.IH [OF one(3,4) _ _ this] Cons.prems(3) obtain ep2 s2 where
    "UdpSession_events S C (map (\<lambda>p. UE_receive sender (image_packet frameNo maxSeqNo p)) ps)
      (st1\<lparr>udp_server_endpoint := ep, udp_dtlsSession := Some e'\<rparr>) =
      Some (st2\<lparr>udp_server_endpoint := ep2, udp_dtlsSession := s2\<rparr>, outs2)" by auto
  with one(2) out p show ?case by (auto simp: UdpSession_event_def)
qed

section \<open>The image page\<close>

text \<open>\<open>NetworkService\<close> hands the callback of the bridge to the session.\<close>

fun UdpSession_signals :: "udp_out \<Rightarrow> Core_signal list" where
  "UdpSession_signals (UDP_onComplete data meta) = concat (map BridgeSignal_core (NetworkBridge_onImageData data meta))"
| "UdpSession_signals _ = []"

lemma AiImageModel_receive_sorted:
  "sorted_wrt (<) (map fst m) \<Longrightarrow> sorted_wrt (<) (map fst (AiImageModel_receive m ev))"
  by (simp add: AiImageModel_receive_put AiImageModel_put_sorted)

lemma Core_page_sorted:
  assumes "Core_reachable J Q toBase64 tbl c"
  shows "sorted_wrt (<) (map fst (core_aiImageModel c))"
  using assms
proof (induction rule: Core_reachable.induct)
  case (step c c')
  from step.hyps(2) show ?case
  proof cases
    case (signal sig)
    with step.IH show ?thesis
      by (cases sig) (simp_all add: Core_submit_def Core_post_def Core_logout_def AiImageModel_clearAll_def)
  next
    case (job js j js' now)
    with step.IH show ?thesis
      by (cases j) (auto simp: Core_bind_def Core_post_def split: prod.splits sum.splits option.splits)
  next
    case (call call calls order now)
    with step.IH show ?thesis by (cases call) (simp_all add: AiImageModel_receive_sorted)
  qed (use step.IH in simp_all)
qed (simp add: Core_init_def)

lemma AiImageModel_push_last: "AiImageModel_push queue ev \<noteq> [] \<and> last (AiImageModel_push queue ev) = ev"
  by (simp add: AiImageModel_push_def MAX_EVENTS_PER_CAMERA_def trim_front_last_n last_n_def)

lemma AiImageModel_latest_receive:
  assumes "sorted_wrt (<) (map fst m)"
  shows "AiImageModel_getLatestEvent (AiImageModel_receive m ev) k =
    (if k = ev_cameraId ev then Some ev else AiImageModel_getLatestEvent m k)"
proof -
  have latest: "AiImageModel_getLatestEvent n k =
      (if AiImageModel_getEventsForCamera n k = [] then None else Some (last (AiImageModel_getEventsForCamera n k)))"
    for n by (simp add: AiImageModel_getLatestEvent_def AiImageModel_getEventsForCamera_def split: option.split)
  show ?thesis
    by (simp add: latest AiImageModel_receive_put AiImageModel_put_events [OF assms] AiImageModel_push_last)
qed

text \<open>The calls of one job, run one after the other.\<close>

lemma image_calls_run:
  "sorted_wrt (<) (map fst (core_aiImageModel c)) \<Longrightarrow> distinct (map ev_cameraId evs) \<Longrightarrow> ev \<in> set evs \<Longrightarrow>
   AiImageModel_getLatestEvent (core_aiImageModel
     (foldl (\<lambda>c call. Core_runCall Q tbl order now call c) c (map CALL_aiImageModel_onImageReceived evs)))
     (ev_cameraId ev) = Some ev"
proof (induction evs arbitrary: c rule: rev_induct)
  case (snoc e evs)
  let ?c = "foldl (\<lambda>c call. Core_runCall Q tbl order now call c) c (map CALL_aiImageModel_onImageReceived evs)"
  have sorted: "sorted_wrt (<) (map fst (core_aiImageModel
      (foldl (\<lambda>c call. Core_runCall Q tbl order now call c) c (map CALL_aiImageModel_onImageReceived xs))))" for xs
    using snoc.prems(1) by (induction xs rule: rev_induct) (simp_all add: AiImageModel_receive_sorted)
  show ?case
  proof (cases "ev = e")
    case False
    with snoc.prems(2,3) have "ev \<in> set evs" "ev_cameraId ev \<noteq> ev_cameraId e" by (auto simp: image_iff)
    with snoc.IH [OF snoc.prems(1)] snoc.prems(2) show ?thesis
      by (simp add: AiImageModel_latest_receive [OF sorted])
  qed (simp add: AiImageModel_latest_receive [OF sorted])
qed simp

text \<open>The description of an image that the job can read, and its address.\<close>

definition image_meta :: "'j json_ops \<Rightarrow> string \<Rightarrow> string \<Rightarrow> bool" where
  "image_meta J meta ip \<longleftrightarrow>
     (case j_parse_throw J meta of
        Inl _ \<Rightarrow> False
      | Inr parsed \<Rightarrow>
          j_string J parsed ''ip'' '''' = Inr ip \<and> ip \<noteq> '''' \<and>
          returned (j_string J parsed ''device_id'' '''') \<and> returned (j_int J parsed ''track_id'' 0) \<and>
          returned (j_int J parsed ''frame_index'' 0) \<and> returned (j_int J parsed ''total_frames'' 0) \<and>
          returned (j_int J parsed ''timestamp_ms'' 0))"

lemma Core_image_events:
  assumes "image_meta J meta ip"
  obtains ev evs where
    "Core_image J toBase64 data meta st = Inr (map CALL_aiImageModel_onImageReceived (ev # evs))"
    "map ev_cameraId (ev # evs) = Core_image_ids ip st"
    "ev_base64Image ev = ''data:image/jpeg;base64,'' @ toBase64 data"
    "\<forall>ev' \<in> set evs. ev_base64Image ev' = ''''"
proof -
  obtain parsed deviceName trackId frameIndex totalFrames timestamp where
    "j_parse_throw J meta = Inr parsed" "j_string J parsed ''ip'' '''' = Inr ip" "ip \<noteq> ''''"
    "j_string J parsed ''device_id'' '''' = Inr deviceName" "j_int J parsed ''track_id'' 0 = Inr trackId"
    "j_int J parsed ''frame_index'' 0 = Inr frameIndex" "j_int J parsed ''total_frames'' 0 = Inr totalFrames"
    "j_int J parsed ''timestamp_ms'' 0 = Inr timestamp"
    using assms by (auto simp: image_meta_def returned_def split: sum.splits)
  then have image: "Core_image J toBase64 data meta st =
      Inr (Core_image_calls (Core_image_event deviceName trackId frameIndex totalFrames timestamp)
        (''data:image/jpeg;base64,'' @ toBase64 data) (Core_image_ids ip st))"
    by (simp add: Core_image_def)
  obtain cid cids where ids: "Core_image_ids ip st = cid # cids"
    by (cases "Core_image_ids ip st") (auto simp: Core_image_ids_def Let_def split: if_splits)
  let ?event = "Core_image_event deviceName trackId frameIndex totalFrames timestamp"
  have rest: "Core_image_calls e '''' xs = map CALL_aiImageModel_onImageReceived (map (e '''') xs)" for e xs
    by (induction xs) simp_all
  show thesis
  proof (rule that)
    show "Core_image J toBase64 data meta st = Inr (map CALL_aiImageModel_onImageReceived
        (?event (''data:image/jpeg;base64,'' @ toBase64 data) cid # map (?event '''') cids))"
      by (simp add: image ids rest)
  qed (simp_all add: ids Core_image_event_def comp_def)
qed

section \<open>Properties\<close>

text \<open>
  Claim C4. An image arrives whole. Its fragments come as records of a DTLS connection, one in a
  datagram, in any order; fragments may be repeated, but the one that was missing to the end comes
  once, as the last. The session then calls back once and Core gets one job. If the description
  can be read and the ids that start with its address are distinct, then the calls which that job
  posts, run one after the other in any state the program reaches, make the image the latest one of
  the first of these ids. Only of the first: a further camera of that address gets an event with an
  empty picture as its latest (the code moves the picture into the first event).
\<close>

theorem image_reaches_page:
  assumes engine: "record_reader S pt A" "udp_dtlsSession st = Some e" "pt e = []"
      "A e (map (\<lambda>(i, cipher). (cipher, f i)) ps)"
    and packets: "list_all (\<lambda>(i, cipher). cipher \<noteq> [] \<and> f i \<noteq> []) ps"
      "map fst ps = seqs @ [l]" "set (seqs @ [l]) = {..maxSeqNo}" "l \<notin> set seqs"
    and session: "udp_current_frame st \<noteq> frameNo \<or> udp_fragments st = []" "uc_onComplete C" "uc_sendControl C"
    and meta: "image_meta J (udp_expected_meta st) ip"
    and job: "distinct (Core_image_ids ip (core_cameraStore c1))"
    and page: "Core_reachable J Q toBase64 tbl c2"
    and img: "img = concat (map (\<lambda>n. f (of_nat n)) [0..<Suc (unat maxSeqNo)])"
  shows "\<exists>st' outs calls.
    UdpSession_events S C (map (\<lambda>p. UE_receive sender (image_packet frameNo maxSeqNo p)) ps) st = Some (st', outs) \<and>
    Core_onSignals (concat (map UdpSession_signals outs)) c =
      c\<lparr>core_jobs := core_jobs c @ [JOB_image img (udp_expected_meta st)]\<rparr> \<and>
    Core_runJob J toBase64 now (JOB_image img (udp_expected_meta st)) c1 = Core_post calls c1 \<and>
    (\<forall>cid \<in> set (Core_image_ids ip (core_cameraStore c1)).
       map_option ev_base64Image (AiImageModel_getLatestEvent (core_aiImageModel
         (foldl (\<lambda>c call. Core_runCall Q tbl order now' call c) c2 calls)) cid) =
       Some (if cid = hd (Core_image_ids ip (core_cameraStore c1))
             then ''data:image/jpeg;base64,'' @ toBase64 img else ''''))"
proof -
  from UdpSession_reassembles [OF session(1) packets(3,4) session(2,3), of f]
  obtain st1 where "UdpSession_arrivals C frameNo maxSeqNo (map (\<lambda>i. (i, f i)) (map fst ps)) st =
      (st1, [UDP_onComplete img (udp_expected_meta st), UDP_sendControl receive_true])"
    unfolding packets(2) img by blast
  from UdpSession_receive_packets [OF engine(1,4,3) packets(1) engine(2) this] obtain st' where
    events: "UdpSession_events S C (map (\<lambda>p. UE_receive sender (image_packet frameNo maxSeqNo p)) ps) st =
      Some (st', [UDP_onComplete img (udp_expected_meta st), UDP_sendControl receive_true])" by blast
  obtain ev evs where run:
      "Core_image J toBase64 img (udp_expected_meta st) (core_cameraStore c1) =
        Inr (map CALL_aiImageModel_onImageReceived (ev # evs))"
      "map ev_cameraId (ev # evs) = Core_image_ids ip (core_cameraStore c1)"
      "ev_base64Image ev = ''data:image/jpeg;base64,'' @ toBase64 img" "\<forall>ev' \<in> set evs. ev_base64Image ev' = ''''"
    by (rule Core_image_events [OF meta])
  let ?calls = "map CALL_aiImageModel_onImageReceived (ev # evs)"
  have latest: "map_option ev_base64Image (AiImageModel_getLatestEvent (core_aiImageModel
       (foldl (\<lambda>c call. Core_runCall Q tbl order now' call c) c2 ?calls)) cid) =
     Some (if cid = hd (Core_image_ids ip (core_cameraStore c1))
           then ''data:image/jpeg;base64,'' @ toBase64 img else '''')"
    if "cid \<in> set (Core_image_ids ip (core_cameraStore c1))" for cid
  proof -
    from that obtain ev' where ev': "ev' \<in> set (ev # evs)" "cid = ev_cameraId ev'"
      unfolding run(2) [symmetric] by auto
    from image_calls_run [OF Core_page_sorted [OF page] job [folded run(2)] ev'(1)]
    have "AiImageModel_getLatestEvent (core_aiImageModel
       (foldl (\<lambda>c call. Core_runCall Q tbl order now' call c) c2 ?calls)) cid = Some ev'"
      unfolding ev'(2) .
    with run(3,4) ev' job [folded run(2)] show ?thesis
      unfolding run(2) [symmetric] by (auto simp: image_iff)
  qed
  have signals: "Core_onSignals (concat (map UdpSession_signals
      [UDP_onComplete img (udp_expected_meta st), UDP_sendControl receive_true])) c =
      c\<lparr>core_jobs := core_jobs c @ [JOB_image img (udp_expected_meta st)]\<rparr>"
    by (simp add: NetworkBridge_onImageData_def Core_submit_def)
  have "Core_runJob J toBase64 now (JOB_image img (udp_expected_meta st)) c1 = Core_post ?calls c1"
    by (simp only: Core_runJob.simps run(1) sum.case)
  with events signals latest show ?thesis by blast
qed

section \<open>An instance\<close>

definition image_example_json :: "jv json_ops" where
  "image_example_json = jv_ops [(''two streams'', JArr
       [JObj [(''ip'', JStr ''10.0.0.7''), (''source_url'', JStr ''rtsp://10.0.0.7/0/main'')],
        JObj [(''ip'', JStr ''10.0.0.7''), (''source_url'', JStr ''rtsp://10.0.0.7/1/main'')]]),
     (''image'', JObj [(''ip'', JStr ''10.0.0.7'')])]"

definition image_example_core :: Core where
  "image_example_core = Core_init
     \<lparr>core_cameraStore := fst (CameraStore_updateFromJson image_example_json ''two streams'' CameraStore_init)\<rparr>"

lemma image_example_ids:
  "Core_image_ids ''10.0.0.7'' (core_cameraStore image_example_core) = [''10.0.0.7/0'', ''10.0.0.7/1'']"
  by code_simp

text \<open>The second fragment twice, then the first; the page has the image under the first stream.\<close>

theorem image_reaches_page_witness:
  "\<exists>st' outs calls.
     UdpSession_events loop_ops \<lparr>uc_onComplete = True, uc_sendControl = True\<rparr>
       (map (\<lambda>p. UE_receive endpoint_default p)
         [[10, 1, 0, 0, 0, 7, 1, 1, 41], [10, 1, 0, 0, 0, 7, 1, 1, 41], [10, 1, 0, 0, 0, 7, 0, 1, 40]])
       ((UdpSession_new (Some \<lparr>loop_in = [], loop_out = [], loop_done = True\<rparr>))\<lparr>udp_expected_meta := ''image''\<rparr>) =
       Some (st', outs) \<and>
     core_jobs (Core_onSignals (concat (map UdpSession_signals outs)) Core_init) = [JOB_image [40, 41] ''image''] \<and>
     Core_runJob image_example_json (\<lambda>_. ''/9j/'') 0 (JOB_image [40, 41] ''image'') image_example_core =
       Core_post calls image_example_core \<and>
     map_option ev_base64Image (AiImageModel_getLatestEvent (core_aiImageModel
       (foldl (\<lambda>c call. Core_runCall core_example_qt [] id 0 call c) Core_init calls)) ''10.0.0.7/0'') =
       Some ''data:image/jpeg;base64,/9j/''"
proof -
  let ?e = "\<lparr>loop_in = [], loop_out = [], loop_done = True\<rparr>"
  let ?C = "\<lparr>uc_onComplete = True, uc_sendControl = True\<rparr>"
  let ?st = "(UdpSession_new (Some ?e))\<lparr>udp_expected_meta := ''image''\<rparr>"
  let ?ps = "[(1, [41]), (1, [41]), (0, [40])] :: (byte \<times> bytes) list"
  have numbers: "set ([1, 1] @ [0]) = {..1 :: byte}"
    using byte_atMost [of 1] by (auto simp: atMost_Suc)
  have meta: "image_meta image_example_json (udp_expected_meta ?st) ''10.0.0.7''"
    by (simp add: image_meta_def image_example_json_def jv_ops_def jv_value_def)
  have start: "Core_reachable image_example_json core_example_qt (\<lambda>_. ''/9j/'') [] Core_init"
    by (rule Core_reachable.start)
  have session: "udp_dtlsSession ?st = Some ?e" "loop_in ?e = []" "udp_current_frame ?st \<noteq> 7 \<or> udp_fragments ?st = []"
    "uc_onComplete ?C" "uc_sendControl ?C" by (simp_all add: UdpSession_new_def)
  have engine: "loop_done ?e \<and> list_all (\<lambda>(cipher, plain). cipher = plain)
      (map (\<lambda>(i, cipher). (cipher, [i + 40])) ?ps)" by simp
  have packets: "list_all (\<lambda>(i, cipher). cipher \<noteq> [] \<and> [i + 40] \<noteq> []) ?ps" "map fst ?ps = [1, 1] @ [0]"
    "0 \<notin> set [1, 1 :: byte]" by simp_all
  have img: "[40, 41] = concat (map (\<lambda>n. [of_nat n + 40 :: byte]) [0..<Suc (unat (1 :: byte))])"
    by (simp add: upt_rec)
  have ids: "distinct (Core_image_ids ''10.0.0.7'' (core_cameraStore image_example_core))"
    unfolding image_example_ids by simp
  from image_reaches_page [OF loop_reader session(1,2) engine packets(1,2) numbers packets(3) session(3,4,5) meta ids
      start img, of endpoint_default Core_init 0 id 0]
  obtain st' outs calls where run:
    "UdpSession_events loop_ops ?C (map (\<lambda>p. UE_receive endpoint_default (image_packet 7 1 p)) ?ps) ?st = Some (st', outs)"
    "Core_onSignals (concat (map UdpSession_signals outs)) Core_init =
       Core_init\<lparr>core_jobs := core_jobs Core_init @ [JOB_image [40, 41] (udp_expected_meta ?st)]\<rparr>"
    "Core_runJob image_example_json (\<lambda>_. ''/9j/'') 0 (JOB_image [40, 41] (udp_expected_meta ?st)) image_example_core =
       Core_post calls image_example_core"
    "\<forall>cid \<in> set [''10.0.0.7/0'', ''10.0.0.7/1''].
       map_option ev_base64Image (AiImageModel_getLatestEvent (core_aiImageModel
         (foldl (\<lambda>c call. Core_runCall core_example_qt [] id 0 call c) Core_init calls)) cid) =
       Some (if cid = hd [''10.0.0.7/0'', ''10.0.0.7/1''] then ''data:image/jpeg;base64,'' @ ''/9j/'' else '''')"
    unfolding image_example_ids by blast
  have bytes: "map (image_packet 7 1) ?ps =
      [[10, 1, 0, 0, 0, 7, 1, 1, 41], [10, 1, 0, 0, 0, 7, 1, 1, 41], [10, 1, 0, 0, 0, 7, 0, 1, 40]]"
    by (simp add: image_packet_def le32_bytes_def)
  have outs: "core_jobs (Core_onSignals (concat (map UdpSession_signals outs)) Core_init) = [JOB_image [40, 41] ''image'']"
    unfolding run(2) by (simp add: Core_init_def)
  have page: "map_option ev_base64Image (AiImageModel_getLatestEvent (core_aiImageModel
       (foldl (\<lambda>c call. Core_runCall core_example_qt [] id 0 call c) Core_init calls)) ''10.0.0.7/0'') =
       Some ''data:image/jpeg;base64,/9j/''"
    using run(4) by simp
  from run(1) have "UdpSession_events loop_ops ?C (map (\<lambda>p. UE_receive endpoint_default p) (map (image_packet 7 1) ?ps)) ?st =
      Some (st', outs)" by (simp add: comp_def)
  with outs page run(3) show ?thesis unfolding bytes by auto
qed

end
