(* ===== verification/VideoDecode.thy ===== *)
theory VideoDecode
  imports Video "HOL-Library.Sublist"
begin

text \<open>
  The decoding thread of Src/Network/Video.cpp: \<open>decodeLoopFFmpeg\<close>, \<open>tryOnceFFmpeg\<close> and
  \<open>cleanupFFmpeg\<close>. What FFmpeg, the clock and the other threads do is a script of answers, one for
  every call in the order of the code, so every loop runs over a list: a list of reads ends where
  the loop finds the flag \<open>stopThread_\<close> set, and the frames of a packet end where the decoder wants
  the next packet. Allocations succeed. What the thread does is the list of its calls.
\<close>

section \<open>Answers\<close>

datatype av_format = AV_PIX_FMT_NV12 | AV_PIX_FMT_NV21 | AV_PIX_FMT_D3D11 | AV_PIX_FMT_OTHER

datatype av_media = AVMEDIA_TYPE_VIDEO | AVMEDIA_TYPE_OTHER

record av_frame =
  af_format :: av_format
  af_width :: int
  af_height :: int
  af_data0 :: "bytes option"
  af_data1 :: "bytes option"
  af_linesize0 :: nat
  af_linesize1 :: nat

text \<open>
  A frame that \<open>avcodec_receive_frame\<close> gives, the frame that \<open>av_hwframe_transfer_data\<close> makes of it
  where it is asked to and succeeds, the time, and the rates that other threads set meanwhile.
\<close>

record av_answer =
  aa_frame :: av_frame
  aa_transfer :: "av_frame option"
  aa_now :: int
  aa_fps :: "int list"

record av_read =
  ar_ret :: int
  ar_stream_index :: int
  ar_frames :: "av_answer list"

text \<open>\<open>ao_options\<close>: whether entries of the options are left when the input is opened.\<close>

record av_open =
  ao_open_input :: int
  ao_options :: bool
  ao_find_stream_info :: int
  ao_streams :: "av_media list"
  ao_hwdevice_create :: int
  ao_open2 :: int

section \<open>Calls\<close>

datatype av_object =
    AV_frame | AV_swFrame | AV_packet | AV_options | AV_formatCtx | AV_codecCtx | AV_hwDeviceCtx
  | AV_frameData | AV_packetData

text \<open>\<open>VC_frameReady\<close> carries the time of the frame beside what the callback gets.\<close>

datatype video_call =
    VC_alloc av_object
  | VC_free av_object
  | VC_frameReady int FramePayload
  | VC_sleep int

record VideoDecoder =
  vd_video :: Video
  vd_onFrameReady :: bool
  vd_formatCtx :: bool
  vd_codecCtx :: bool
  vd_videoStreamIndex :: int
  vd_calls :: "video_call list"

definition VideoDecoder_new :: "Video \<Rightarrow> bool \<Rightarrow> VideoDecoder" where
  "VideoDecoder_new v callback =
     \<lparr>vd_video = v, vd_onFrameReady = callback, vd_formatCtx = False, vd_codecCtx = False,
      vd_videoStreamIndex = -1, vd_calls = []\<rparr>"

definition vd_do :: "video_call list \<Rightarrow> VideoDecoder \<Rightarrow> VideoDecoder" where
  "vd_do calls d = d\<lparr>vd_calls := vd_calls d @ calls\<rparr>"

definition Video_cleanupFFmpeg :: "VideoDecoder \<Rightarrow> VideoDecoder" where
  "Video_cleanupFFmpeg d =
     (let d1 = (if vd_codecCtx d then vd_do [VC_free AV_codecCtx] (d\<lparr>vd_codecCtx := False\<rparr>) else d);
          d2 = (if vd_formatCtx d1 then vd_do [VC_free AV_formatCtx] (d1\<lparr>vd_formatCtx := False\<rparr>) else d1)
      in d2\<lparr>vd_videoStreamIndex := -1\<rparr>)"

section \<open>The frames of a packet\<close>

definition Video_setFpsLimits :: "int list \<Rightarrow> VideoDecoder \<Rightarrow> VideoDecoder" where
  "Video_setFpsLimits rates d = d\<lparr>vd_video := fold Video_setFpsLimit rates (vd_video d)\<rparr>"

definition Video_targetFrame :: "av_answer \<Rightarrow> av_frame option" where
  "Video_targetFrame a =
     (if af_format (aa_frame a) = AV_PIX_FMT_D3D11 then aa_transfer a else Some (aa_frame a))"

definition Video_payload :: "av_frame \<Rightarrow> FramePayload" where
  "Video_payload f =
     \<lparr>fp_dataY = af_data0 f, fp_dataUV = af_data1 f, fp_width = af_width f, fp_height = af_height f,
      fp_strideY = af_linesize0 f, fp_strideUV = af_linesize1 f\<rparr>"

definition Video_ready :: "int \<Rightarrow> av_frame \<Rightarrow> VideoDecoder \<Rightarrow> VideoDecoder" where
  "Video_ready now f d =
     (if (af_format f = AV_PIX_FMT_NV12 \<or> af_format f = AV_PIX_FMT_NV21) \<and> vd_onFrameReady d
      then vd_do [VC_frameReady now (Video_payload f)] d else d)"

fun Video_drain :: "av_answer list \<Rightarrow> VideoDecoder \<Rightarrow> VideoDecoder" where
  "Video_drain [] d = d"
| "Video_drain (a # as) d =
     Video_drain as (vd_do [VC_alloc AV_frameData, VC_free AV_frameData] (Video_setFpsLimits (aa_fps a) d))"

fun Video_receive :: "av_answer list \<Rightarrow> VideoDecoder \<Rightarrow> VideoDecoder" where
  "Video_receive [] d = d"
| "Video_receive (a # as) d =
     (let d1 = vd_do [VC_alloc AV_frameData] (Video_setFpsLimits (aa_fps a) d) in
      case Video_targetFrame a of
        None \<Rightarrow> Video_receive as (vd_do [VC_free AV_frameData] d1)
      | Some f \<Rightarrow>
          if af_width f \<le> 0 \<or> af_height f \<le> 0 then Video_receive as (vd_do [VC_free AV_frameData] d1)
          else
            (case Video_throttle (aa_now a) (vd_video d1) of
               (v, False) \<Rightarrow>
                 let elapsedMs = (aa_now a - vid_lastFrameTime (vd_video d1)) div 1000000;
                     sleepMs = vid_fpsLimitMs (vd_video d1) - elapsedMs;
                     d2 = Video_drain as (vd_do [VC_free AV_frameData] d1)
                 in if 0 < sleepMs then vd_do [VC_sleep sleepMs] d2 else d2
             | (v, True) \<Rightarrow>
                 Video_receive as
                   (vd_do [VC_free AV_frameData] (Video_ready (aa_now a) f (d1\<lparr>vd_video := v\<rparr>)))))"

section \<open>One connection\<close>

fun Video_readLoop :: "av_read list \<Rightarrow> VideoDecoder \<Rightarrow> VideoDecoder" where
  "Video_readLoop [] d = d"
| "Video_readLoop (r # rs) d =
     (if ar_ret r < 0 then d
      else
        let d1 = vd_do [VC_alloc AV_packetData] d;
            d2 = (if ar_stream_index r = vd_videoStreamIndex d1 then Video_receive (ar_frames r) d1 else d1)
        in Video_readLoop rs (vd_do [VC_free AV_packetData] d2))"

definition Video_freeLocals :: "bool \<Rightarrow> VideoDecoder \<Rightarrow> VideoDecoder" where
  "Video_freeLocals options d =
     Video_cleanupFFmpeg (vd_do ([VC_free AV_frame, VC_free AV_swFrame, VC_free AV_packet] @
       (if options then [VC_free AV_options] else [])) d)"

text \<open>
  The contexts are allocated by \<open>avformat_alloc_context\<close> and \<open>avcodec_alloc_context3\<close>; opening the
  input frees the format context where it fails, as FFmpeg documents.
\<close>

definition Video_tryOnceFFmpeg :: "av_open \<Rightarrow> av_read list \<Rightarrow> VideoDecoder \<Rightarrow> VideoDecoder \<times> bool" where
  "Video_tryOnceFFmpeg o' rs d =
     (let d1 = vd_do [VC_alloc AV_frame, VC_alloc AV_swFrame, VC_alloc AV_packet, VC_alloc AV_formatCtx,
                      VC_alloc AV_options] (d\<lparr>vd_formatCtx := True\<rparr>);
          d2 = vd_do (if ao_options o' then [] else [VC_free AV_options]) d1
      in if ao_open_input o' \<noteq> 0
         then (Video_freeLocals (ao_options o') (vd_do [VC_free AV_formatCtx] (d2\<lparr>vd_formatCtx := False\<rparr>)), False)
         else
           let d3 = vd_do (if ao_options o' then [VC_free AV_options] else []) d2
           in if ao_find_stream_info o' < 0 then (Video_freeLocals False d3, False)
              else
                let d4 = d3\<lparr>vd_videoStreamIndex := index_where (\<lambda>m. m = AVMEDIA_TYPE_VIDEO) (ao_streams o')\<rparr>
                in if vd_videoStreamIndex d4 = -1 then (Video_freeLocals False d4, False)
                   else
                     let d5 = vd_do ([VC_alloc AV_codecCtx] @
                           (if 0 \<le> ao_hwdevice_create o' then [VC_alloc AV_hwDeviceCtx, VC_free AV_hwDeviceCtx]
                            else [])) (d4\<lparr>vd_codecCtx := True\<rparr>)
                     in if ao_open2 o' < 0 then (Video_freeLocals False d5, False)
                        else (Video_freeLocals False (Video_readLoop rs d5), True))"

text \<open>
  The loop of the thread: every try comes with whether the flag is set behind it. The list ends
  where the flag is set in front of a try.
\<close>

fun Video_decodeLoopFFmpeg :: "(av_open \<times> av_read list \<times> bool) list \<Rightarrow> VideoDecoder \<Rightarrow> VideoDecoder" where
  "Video_decodeLoopFFmpeg [] d = d"
| "Video_decodeLoopFFmpeg ((o', rs, stopThread) # tries) d =
     (let (d1, ok) = Video_tryOnceFFmpeg o' rs d in
      if stopThread then d1
      else Video_decodeLoopFFmpeg tries (if ok then d1 else vd_do [VC_sleep 3000] d1))"

section \<open>Specification\<close>

text \<open>Which objects are alive after the calls; \<open>None\<close> after a double allocation or a wrong free.\<close>

fun av_ledger :: "av_object set \<Rightarrow> video_call list \<Rightarrow> av_object set option" where
  "av_ledger alive [] = Some alive"
| "av_ledger alive (VC_alloc ob # calls) =
     (if ob \<in> alive then None else av_ledger (insert ob alive) calls)"
| "av_ledger alive (VC_free ob # calls) =
     (if ob \<in> alive then av_ledger (alive - {ob}) calls else None)"
| "av_ledger alive (VC_frameReady now payload # calls) = av_ledger alive calls"
| "av_ledger alive (VC_sleep ms # calls) = av_ledger alive calls"

definition vd_alive :: "VideoDecoder \<Rightarrow> av_object set option" where
  "vd_alive d = av_ledger {} (vd_calls d)"

text \<open>What the callback gets, with the times.\<close>

definition ready_of :: "video_call list \<Rightarrow> (int \<times> FramePayload) list" where
  "ready_of calls = concat (map (\<lambda>c. case c of VC_frameReady now p \<Rightarrow> [(now, p)] | _ \<Rightarrow> []) calls)"

definition vd_ready :: "VideoDecoder \<Rightarrow> (int \<times> FramePayload) list" where
  "vd_ready d = ready_of (vd_calls d)"

text \<open>What a script has to show: the frames that the decoder gives for the stream that is found.\<close>

definition answer_shows :: "av_answer \<Rightarrow> (int \<times> FramePayload) list" where
  "answer_shows a =
     (case Video_targetFrame a of
        Some f \<Rightarrow> if 0 < af_width f \<and> 0 < af_height f \<and> af_format f \<in> {AV_PIX_FMT_NV12, AV_PIX_FMT_NV21}
                  then [(aa_now a, Video_payload f)] else []
      | None \<Rightarrow> [])"

definition stream_answers :: "int \<Rightarrow> av_read list \<Rightarrow> av_answer list" where
  "stream_answers i rs = concat (map ar_frames (filter (\<lambda>r. ar_stream_index r = i) rs))"

definition video_index :: "av_open \<Rightarrow> int" where
  "video_index o' = index_where (\<lambda>m. m = AVMEDIA_TYPE_VIDEO) (ao_streams o')"

definition tries_show :: "(av_open \<times> av_read list \<times> bool) list \<Rightarrow> (int \<times> FramePayload) list" where
  "tries_show tries =
     concat (map (\<lambda>(o', rs, stop). concat (map answer_shows (stream_answers (video_index o') rs))) tries)"

section \<open>Lemmas\<close>

lemma vd_do_fields [simp]:
  "vd_video (vd_do calls d) = vd_video d" "vd_onFrameReady (vd_do calls d) = vd_onFrameReady d"
  "vd_formatCtx (vd_do calls d) = vd_formatCtx d" "vd_codecCtx (vd_do calls d) = vd_codecCtx d"
  "vd_videoStreamIndex (vd_do calls d) = vd_videoStreamIndex d" "vd_calls (vd_do calls d) = vd_calls d @ calls"
  by (simp_all add: vd_do_def)

lemma Video_setFpsLimits_fields [simp]:
  "vd_video (Video_setFpsLimits rates d) = fold Video_setFpsLimit rates (vd_video d)"
  "vd_calls (Video_setFpsLimits rates d) = vd_calls d"
  "vd_formatCtx (Video_setFpsLimits rates d) = vd_formatCtx d"
  "vd_codecCtx (Video_setFpsLimits rates d) = vd_codecCtx d"
  by (simp_all add: Video_setFpsLimits_def)

lemma av_ledger_append:
  "av_ledger alive (xs @ ys) = Option.bind (av_ledger alive xs) (\<lambda>alive'. av_ledger alive' ys)"
  by (induction alive xs rule: av_ledger.induct) simp_all

lemma vd_alive_do [simp]: "vd_alive (vd_do calls d) = Option.bind (vd_alive d) (\<lambda>alive. av_ledger alive calls)"
  by (simp add: vd_alive_def av_ledger_append)

lemma vd_alive_cong [simp]:
  "vd_alive (d\<lparr>vd_video := v\<rparr>) = vd_alive d" "vd_alive (d\<lparr>vd_formatCtx := b\<rparr>) = vd_alive d"
  "vd_alive (d\<lparr>vd_codecCtx := b\<rparr>) = vd_alive d" "vd_alive (d\<lparr>vd_videoStreamIndex := i\<rparr>) = vd_alive d"
  "vd_alive (Video_setFpsLimits rates d) = vd_alive d"
  by (simp_all add: vd_alive_def)

lemma ready_of_simps [simp]:
  "ready_of [] = []" "ready_of (xs @ ys) = ready_of xs @ ready_of ys"
  "ready_of (VC_alloc ob # calls) = ready_of calls" "ready_of (VC_free ob # calls) = ready_of calls"
  "ready_of (VC_sleep ms # calls) = ready_of calls"
  "ready_of (VC_frameReady now p # calls) = (now, p) # ready_of calls"
  by (simp_all add: ready_of_def)

lemma vd_ready_do [simp]: "vd_ready (vd_do calls d) = vd_ready d @ ready_of calls"
  by (simp add: vd_ready_def)

lemma vd_ready_cong [simp]:
  "vd_ready (d\<lparr>vd_video := v\<rparr>) = vd_ready d" "vd_ready (d\<lparr>vd_formatCtx := b\<rparr>) = vd_ready d"
  "vd_ready (d\<lparr>vd_codecCtx := b\<rparr>) = vd_ready d" "vd_ready (d\<lparr>vd_videoStreamIndex := i\<rparr>) = vd_ready d"
  "vd_ready (Video_setFpsLimits rates d) = vd_ready d"
  by (simp_all add: vd_ready_def)

text \<open>A packet leaves what is alive as it was, and the contexts.\<close>

lemma Video_drain_alive:
  "vd_alive d = Some alive \<Longrightarrow> AV_frameData \<notin> alive \<Longrightarrow>
   vd_alive (Video_drain as d) = Some alive \<and> vd_formatCtx (Video_drain as d) = vd_formatCtx d \<and>
   vd_codecCtx (Video_drain as d) = vd_codecCtx d"
  by (induction as arbitrary: d) simp_all

lemma Video_ready_frame [simp]:
  "vd_alive (Video_ready now f d) = vd_alive d" "vd_formatCtx (Video_ready now f d) = vd_formatCtx d"
  "vd_codecCtx (Video_ready now f d) = vd_codecCtx d" "vd_video (Video_ready now f d) = vd_video d"
  by (auto simp: Video_ready_def split: bind_split)

lemma Video_receive_alive:
  "vd_alive d = Some alive \<Longrightarrow> AV_frameData \<notin> alive \<Longrightarrow>
   vd_alive (Video_receive as d) = Some alive \<and> vd_formatCtx (Video_receive as d) = vd_formatCtx d \<and>
   vd_codecCtx (Video_receive as d) = vd_codecCtx d"
proof (induction as arbitrary: d)
  case (Cons a as)
  let ?d = "vd_do [VC_free AV_frameData] (vd_do [VC_alloc AV_frameData] (Video_setFpsLimits (aa_fps a) d))"
  have "vd_alive ?d = Some alive" "vd_alive (vd_do [VC_free AV_frameData] (Video_ready now f
      ((vd_do [VC_alloc AV_frameData] (Video_setFpsLimits (aa_fps a) d))\<lparr>vd_video := v\<rparr>))) = Some alive" for now f v
    using Cons.prems by simp_all
  note alive = this
  note drained = Video_drain_alive [OF alive(1) Cons.prems(2), of as]
  note skipped = Cons.IH [OF alive(1) Cons.prems(2)]
  note shown = Cons.IH [OF alive(2) Cons.prems(2)]
  show ?case
    using drained skipped shown
    by (simp add: Let_def split: option.splits prod.splits bool.splits)
qed simp

lemma Video_readLoop_alive:
  "vd_alive d = Some alive \<Longrightarrow> AV_frameData \<notin> alive \<Longrightarrow> AV_packetData \<notin> alive \<Longrightarrow>
   vd_alive (Video_readLoop rs d) = Some alive \<and> vd_formatCtx (Video_readLoop rs d) = vd_formatCtx d \<and>
   vd_codecCtx (Video_readLoop rs d) = vd_codecCtx d"
proof (induction rs arbitrary: d)
  case (Cons r rs)
  let ?d1 = "vd_do [VC_alloc AV_packetData] d"
  have "vd_alive ?d1 = Some (insert AV_packetData alive)"
    using Cons.prems by simp
  note packet = Video_receive_alive [OF this, of "ar_frames r"]
  show ?case
    using Cons.prems packet
      Cons.IH [of "vd_do [VC_free AV_packetData] ?d1"]
      Cons.IH [of "vd_do [VC_free AV_packetData] (Video_receive (ar_frames r) ?d1)"]
    by (simp add: Let_def)
qed simp

text \<open>Between the tries nothing is alive.\<close>

definition decoder_idle :: "VideoDecoder \<Rightarrow> bool" where
  "decoder_idle d \<longleftrightarrow> vd_alive d = Some {} \<and> \<not> vd_formatCtx d \<and> \<not> vd_codecCtx d"

lemma Video_freeLocals_idle:
  assumes "vd_alive d = Some ({AV_frame, AV_swFrame, AV_packet} \<union> (if options then {AV_options} else {}) \<union>
      (if vd_codecCtx d then {AV_codecCtx} else {}) \<union> (if vd_formatCtx d then {AV_formatCtx} else {}))"
  shows "decoder_idle (Video_freeLocals options d)"
  using assms
  by (cases options; cases "vd_codecCtx d"; cases "vd_formatCtx d")
     (simp_all add: decoder_idle_def Video_freeLocals_def Video_cleanupFFmpeg_def Let_def insert_Diff_if)

lemma Video_tryOnce_idle:
  assumes "decoder_idle d"
  shows "decoder_idle (fst (Video_tryOnceFFmpeg o' rs d))"
proof -
  let ?A = "{AV_codecCtx, AV_formatCtx, AV_packet, AV_swFrame, AV_frame}"
  have loop: "decoder_idle (Video_freeLocals False (Video_readLoop rs d'))"
    if "vd_alive d' = Some ?A" "vd_formatCtx d'" "vd_codecCtx d'" for d'
    using Video_readLoop_alive [OF that(1), of rs] that(2,3)
    by (intro Video_freeLocals_idle) (auto simp: insert_commute)
  show ?thesis
  proof (cases "ao_open_input o' = 0 \<and> 0 \<le> ao_find_stream_info o' \<and> 0 \<le> ao_open2 o' \<and>
      index_where (\<lambda>m. m = AVMEDIA_TYPE_VIDEO) (ao_streams o') \<noteq> -1")
    case True
    with assms show ?thesis
      unfolding decoder_idle_def [of d]
      by (auto simp: Video_tryOnceFFmpeg_def Let_def insert_Diff_if insert_commute intro!: loop)
  next
    case False
    with assms show ?thesis
      unfolding decoder_idle_def [of d]
      by (auto simp: Video_tryOnceFFmpeg_def Let_def insert_Diff_if insert_commute
          intro!: Video_freeLocals_idle)
  qed
qed

lemma Video_decodeLoop_idle: "decoder_idle d \<Longrightarrow> decoder_idle (Video_decodeLoopFFmpeg tries d)"
proof (induction tries d rule: Video_decodeLoopFFmpeg.induct)
  case (2 o' rs stopThread tries d)
  obtain d1 ok where once: "Video_tryOnceFFmpeg o' rs d = (d1, ok)" by fastforce
  with Video_tryOnce_idle [OF "2.prems", of o' rs] have "decoder_idle d1" by simp
  moreover from this have "decoder_idle (vd_do [VC_sleep 3000] d1)" by (simp add: decoder_idle_def)
  ultimately show ?case
    using once "2.IH" by (auto split: if_splits)
qed simp

text \<open>The pace: what is handed out so far is spaced, and no later than the time that is remembered.\<close>

definition paced :: "int \<Rightarrow> VideoDecoder \<Rightarrow> bool" where
  "paced ms d \<longleftrightarrow> ms \<le> vid_fpsLimitMs (vd_video d) \<and>
     successively (\<lambda>s t. ms * 1000000 \<le> t - s) (map fst (vd_ready d)) \<and>
     (vd_ready d \<noteq> [] \<longrightarrow> fst (last (vd_ready d)) \<le> vid_lastFrameTime (vd_video d))"

abbreviation rate_ok :: "int \<Rightarrow> int \<Rightarrow> bool" where
  "rate_ok F r \<equiv> 0 < r \<and> r \<le> F"

abbreviation answer_rates :: "int \<Rightarrow> av_answer \<Rightarrow> bool" where
  "answer_rates F a \<equiv> list_all (rate_ok F) (aa_fps a)"

abbreviation read_rates :: "int \<Rightarrow> av_read \<Rightarrow> bool" where
  "read_rates F r \<equiv> list_all (answer_rates F) (ar_frames r)"

lemma Video_setFpsLimit_pace:
  "rate_ok F r \<Longrightarrow> 1000 div F \<le> vid_fpsLimitMs (Video_setFpsLimit r v)"
  "vid_lastFrameTime (Video_setFpsLimit r v) = vid_lastFrameTime v"
  by (simp_all add: Video_setFpsLimit_def zdiv_mono2)

lemma Video_setFpsLimits_pace:
  "list_all (rate_ok F) rates \<Longrightarrow> 1000 div F \<le> vid_fpsLimitMs v \<Longrightarrow>
   1000 div F \<le> vid_fpsLimitMs (fold Video_setFpsLimit rates v) \<and>
   vid_lastFrameTime (fold Video_setFpsLimit rates v) = vid_lastFrameTime v"
  by (induction rates arbitrary: v) (simp_all add: Video_setFpsLimit_pace)

lemma paced_rates:
  "paced (1000 div F) d \<Longrightarrow> list_all (rate_ok F) rates \<Longrightarrow> paced (1000 div F) (Video_setFpsLimits rates d)"
  using Video_setFpsLimits_pace [of F rates "vd_video d"] by (simp add: paced_def)

lemma paced_do [simp]: "ready_of calls = [] \<Longrightarrow> paced ms (vd_do calls d) = paced ms d"
  by (simp add: paced_def)

lemma paced_cong [simp]:
  "paced ms (d\<lparr>vd_formatCtx := b\<rparr>) = paced ms d" "paced ms (d\<lparr>vd_codecCtx := b\<rparr>) = paced ms d"
  "paced ms (d\<lparr>vd_videoStreamIndex := i\<rparr>) = paced ms d"
  by (simp_all add: paced_def)

lemma Video_throttle_pass:
  assumes "Video_throttle now v = (v', True)" "0 \<le> ms" "ms \<le> vid_fpsLimitMs v"
  shows "vid_lastFrameTime v' = now" "vid_fpsLimitMs v' = vid_fpsLimitMs v"
    "ms * 1000000 \<le> now - vid_lastFrameTime v"
proof -
  from assms(1) have pass: "vid_fpsLimitMs v \<le> (now - vid_lastFrameTime v) div 1000000"
    and v': "v' = v\<lparr>vid_lastFrameTime := now\<rparr>"
    by (auto simp: Video_throttle_def Let_def split: if_splits)
  from v' show "vid_lastFrameTime v' = now" "vid_fpsLimitMs v' = vid_fpsLimitMs v" by simp_all
  from pass assms(3) show "ms * 1000000 \<le> now - vid_lastFrameTime v" by linarith
qed

lemma paced_ready:
  assumes "paced ms d" "0 \<le> ms" "Video_throttle now (vd_video d) = (v, True)"
  shows "paced ms (Video_ready now f (d\<lparr>vd_video := v\<rparr>))"
proof -
  note pass = Video_throttle_pass [OF assms(3,2)]
  show ?thesis
    using assms(1,2) pass
    by (cases "vd_ready d = []") (auto simp: paced_def Video_ready_def successively_append_iff last_map)
qed

lemma Video_drain_paced:
  "paced (1000 div F) d \<Longrightarrow> list_all (answer_rates F) as \<Longrightarrow>
   paced (1000 div F) (Video_drain as d) \<and> vd_ready (Video_drain as d) = vd_ready d"
  by (induction as arbitrary: d) (simp_all add: paced_rates)

lemma Video_receive_paced:
  assumes "0 < F"
  shows "paced (1000 div F) d \<Longrightarrow> list_all (answer_rates F) as \<Longrightarrow> paced (1000 div F) (Video_receive as d)"
proof (induction as arbitrary: d)
  case (Cons a as)
  let ?d = "vd_do [VC_alloc AV_frameData] (Video_setFpsLimits (aa_fps a) d)"
  have nonneg: "0 \<le> 1000 div F" using assms by (simp add: pos_imp_zdiv_nonneg_iff)
  have d: "paced (1000 div F) ?d" using Cons.prems by (simp add: paced_rates)
  have shown: "paced (1000 div F) (Video_receive as
      (vd_do [VC_free AV_frameData] (Video_ready (aa_now a) f (?d\<lparr>vd_video := v\<rparr>))))"
    if "Video_throttle (aa_now a) (vd_video ?d) = (v, True)" for f v
    using Cons.prems paced_ready [OF d nonneg that, of f] by (intro Cons.IH) simp_all
  have "paced (1000 div F) (Video_receive as (vd_do [VC_free AV_frameData] ?d))"
    using Cons.prems d by (intro Cons.IH) simp_all
  moreover have "paced (1000 div F) (Video_drain as (vd_do [VC_free AV_frameData] ?d))"
    using Cons.prems d Video_drain_paced [of F "vd_do [VC_free AV_frameData] ?d" as] by simp
  ultimately show ?case
    using shown by (simp add: Let_def split: option.splits prod.splits bool.splits)
qed simp

lemma Video_readLoop_paced:
  assumes "0 < F"
  shows "paced (1000 div F) d \<Longrightarrow> list_all (read_rates F) rs \<Longrightarrow> paced (1000 div F) (Video_readLoop rs d)"
  by (induction rs arbitrary: d) (simp_all add: Let_def Video_receive_paced [OF assms])

lemma Video_freeLocals_frame [simp]:
  "paced ms (Video_freeLocals options d) = paced ms d" "vd_ready (Video_freeLocals options d) = vd_ready d"
  by (simp_all add: Video_freeLocals_def Video_cleanupFFmpeg_def Let_def)

lemma Video_tryOnce_paced:
  assumes "0 < F" "paced (1000 div F) d" "list_all (read_rates F) rs"
  shows "paced (1000 div F) (fst (Video_tryOnceFFmpeg o' rs d))"
  using assms by (simp add: Video_tryOnceFFmpeg_def Let_def Video_readLoop_paced)

lemma Video_decodeLoop_paced:
  assumes "0 < F"
  shows "paced (1000 div F) d \<Longrightarrow> list_all (\<lambda>(o', rs, stop). list_all (read_rates F) rs) tries \<Longrightarrow>
    paced (1000 div F) (Video_decodeLoopFFmpeg tries d)"
proof (induction tries d rule: Video_decodeLoopFFmpeg.induct)
  case (2 o' rs stopThread tries d)
  obtain d1 ok where once: "Video_tryOnceFFmpeg o' rs d = (d1, ok)" by fastforce
  with Video_tryOnce_paced [OF assms "2.prems"(1), of rs o'] "2.prems"(2)
  have "paced (1000 div F) d1" by simp
  with once "2.IH" "2.prems"(2) show ?case by (auto split: if_splits)
qed simp

text \<open>What is handed out is what the decoder gave, in order.\<close>

lemma Video_drain_ready [simp]: "vd_ready (Video_drain as d) = vd_ready d"
  by (induction as arbitrary: d) simp_all

lemma Video_ready_subseq:
  assumes "Video_targetFrame a = Some f" "0 < af_width f" "0 < af_height f"
  shows "\<exists>out. vd_ready (Video_ready (aa_now a) f d) = vd_ready d @ out \<and> subseq out (answer_shows a)"
  using assms by (auto simp: Video_ready_def answer_shows_def)

lemma Video_receive_subseq:
  "\<exists>out. vd_ready (Video_receive as d) = vd_ready d @ out \<and> subseq out (concat (map answer_shows as))"
proof (induction as arbitrary: d)
  case (Cons a as)
  let ?d = "vd_do [VC_alloc AV_frameData] (Video_setFpsLimits (aa_fps a) d)"
  have skipped: "\<exists>out. vd_ready (Video_receive as (vd_do [VC_free AV_frameData] ?d)) = vd_ready d @ out \<and>
      subseq out (answer_shows a @ concat (map answer_shows as))"
    using Cons.IH [of "vd_do [VC_free AV_frameData] ?d"] by (auto intro: subseq_append)
  have shown: "\<exists>out. vd_ready (Video_receive as (vd_do [VC_free AV_frameData]
      (Video_ready (aa_now a) f (?d\<lparr>vd_video := v\<rparr>)))) = vd_ready d @ out \<and>
      subseq out (answer_shows a @ concat (map answer_shows as))"
    if f: "Video_targetFrame a = Some f" "0 < af_width f" "0 < af_height f" for f v
  proof -
    obtain out1 where "vd_ready (Video_ready (aa_now a) f (?d\<lparr>vd_video := v\<rparr>)) = vd_ready d @ out1"
        "subseq out1 (answer_shows a)"
      using Video_ready_subseq [OF f, of "?d\<lparr>vd_video := v\<rparr>"] by auto
    with Cons.IH [of "vd_do [VC_free AV_frameData] (Video_ready (aa_now a) f (?d\<lparr>vd_video := v\<rparr>))"]
    show ?thesis by (auto intro: list_emb_append_mono)
  qed
  have none: "\<exists>out. vd_ready d = vd_ready d @ out \<and> subseq out (answer_shows a @ concat (map answer_shows as))"
    by simp
  show ?case
    using skipped shown none by (simp add: Let_def not_le split: option.splits prod.splits bool.splits)
qed simp

lemma stream_answers_simps [simp]:
  "stream_answers i [] = []"
  "stream_answers i (r # rs) = (if ar_stream_index r = i then ar_frames r else []) @ stream_answers i rs"
  by (simp_all add: stream_answers_def)

lemma Video_drain_fields [simp]:
  "vd_videoStreamIndex (Video_drain as d) = vd_videoStreamIndex d"
  "vd_onFrameReady (Video_drain as d) = vd_onFrameReady d"
  by (induction as arbitrary: d) (simp_all add: Video_setFpsLimits_def)

lemma Video_receive_fields [simp]:
  "vd_videoStreamIndex (Video_receive as d) = vd_videoStreamIndex d"
  "vd_onFrameReady (Video_receive as d) = vd_onFrameReady d"
  by (induction as arbitrary: d)
     (simp_all add: Let_def Video_setFpsLimits_def Video_ready_def split: option.splits prod.splits bool.splits)

lemma Video_readLoop_subseq:
  "\<exists>out. vd_ready (Video_readLoop rs d) = vd_ready d @ out \<and>
     subseq out (concat (map answer_shows (stream_answers (vd_videoStreamIndex d) rs)))"
proof (induction rs arbitrary: d)
  case (Cons r rs)
  let ?d1 = "vd_do [VC_alloc AV_packetData] d"
  let ?d2 = "if ar_stream_index r = vd_videoStreamIndex d then Video_receive (ar_frames r) ?d1 else ?d1"
  obtain out1 where out1: "vd_ready ?d2 = vd_ready d @ out1"
    "subseq out1 (concat (map answer_shows (if ar_stream_index r = vd_videoStreamIndex d then ar_frames r else [])))"
    using Video_receive_subseq [of "ar_frames r" ?d1]
    by (cases "ar_stream_index r = vd_videoStreamIndex d") auto
  obtain out2 where "vd_ready (Video_readLoop rs (vd_do [VC_free AV_packetData] ?d2)) = vd_ready ?d2 @ out2"
    "subseq out2 (concat (map answer_shows (stream_answers (vd_videoStreamIndex d) rs)))"
    using Cons.IH [of "vd_do [VC_free AV_packetData] ?d2"] by (auto split: if_splits)
  with out1 have "vd_ready (Video_readLoop rs (vd_do [VC_free AV_packetData] ?d2)) = vd_ready d @ out1 @ out2"
    "subseq (out1 @ out2) (concat (map answer_shows (stream_answers (vd_videoStreamIndex d) (r # rs))))"
    by (auto intro: list_emb_append_mono)
  then show ?case by (cases "ar_ret r < 0") (auto simp: Let_def)
qed simp

lemma Video_tryOnce_subseq:
  "\<exists>out. vd_ready (fst (Video_tryOnceFFmpeg o' rs d)) = vd_ready d @ out \<and>
     subseq out (concat (map answer_shows (stream_answers (video_index o') rs)))"
proof -
  have "\<exists>out. vd_ready (Video_readLoop rs d') = vd_ready d @ out \<and>
     subseq out (concat (map answer_shows (stream_answers (video_index o') rs)))"
    if "vd_ready d' = vd_ready d" "vd_videoStreamIndex d' = video_index o'" for d'
    using Video_readLoop_subseq [of rs d'] that by simp
  then show ?thesis
    by (auto simp: Video_tryOnceFFmpeg_def Let_def video_index_def)
qed

lemma Video_decodeLoop_subseq:
  "\<exists>out. vd_ready (Video_decodeLoopFFmpeg tries d) = vd_ready d @ out \<and> subseq out (tries_show tries)"
proof (induction tries d rule: Video_decodeLoopFFmpeg.induct)
  case (2 o' rs stopThread tries d)
  obtain d1 ok where once: "Video_tryOnceFFmpeg o' rs d = (d1, ok)" by fastforce
  obtain out where out: "vd_ready d1 = vd_ready d @ out"
    "subseq out (concat (map answer_shows (stream_answers (video_index o') rs)))"
    using Video_tryOnce_subseq [of o' rs d] once by auto
  have unfolded: "tries_show ((o', rs, stop) # tries) =
      concat (map answer_shows (stream_answers (video_index o') rs)) @ tries_show tries" for stop
    by (simp add: tries_show_def)
  show ?case
  proof (cases stopThread)
    case True
    with once out show ?thesis by (auto simp: unfolded)
  next
    case False
    from "2.IH" [OF once [symmetric] refl False] obtain out2 where
      "vd_ready (Video_decodeLoopFFmpeg tries (if ok then d1 else vd_do [VC_sleep 3000] d1)) = vd_ready d1 @ out2"
      "subseq out2 (tries_show tries)" by auto
    with False once out show ?thesis by (auto simp: unfolded intro: list_emb_append_mono)
  qed
qed simp

text \<open>A stream that is slower than the limit.\<close>

abbreviation slow :: "int \<Rightarrow> int list \<Rightarrow> bool" where
  "slow ms \<equiv> successively (\<lambda>s t. ms * 1000000 \<le> t - s)"

lemma slow_skip: "0 \<le> ms \<Longrightarrow> slow ms (s # t # ts) \<Longrightarrow> slow ms (s # ts)"
  by (cases ts) auto

lemma Video_receive_slow:
  assumes "0 \<le> ms"
  shows "vid_fpsLimitMs (vd_video d) = ms \<Longrightarrow> vd_onFrameReady d \<Longrightarrow> list_all (\<lambda>a. aa_fps a = []) as \<Longrightarrow>
    slow ms (vid_lastFrameTime (vd_video d) # map aa_now as @ ts) \<Longrightarrow>
    vd_ready (Video_receive as d) = vd_ready d @ concat (map answer_shows as) \<and>
    vid_fpsLimitMs (vd_video (Video_receive as d)) = ms \<and>
    slow ms (vid_lastFrameTime (vd_video (Video_receive as d)) # ts)"
proof (induction as arbitrary: d)
  case (Cons a as)
  let ?d = "vd_do [VC_alloc AV_frameData] (Video_setFpsLimits [] d)"
  have skip: "slow ms (vid_lastFrameTime (vd_video d) # map aa_now as @ ts)"
    using slow_skip [OF assms] Cons.prems(4) by simp
  have pass: "Video_throttle (aa_now a) (vd_video d) = ((vd_video d)\<lparr>vid_lastFrameTime := aa_now a\<rparr>, True)"
    using Cons.prems(1,4) by (simp add: Video_throttle_def) linarith
  have d: "Video_setFpsLimits [] d = d" by (simp add: Video_setFpsLimits_def)
  show ?case
  proof (cases "\<exists>f. Video_targetFrame a = Some f \<and> 0 < af_width f \<and> 0 < af_height f")
    case True
    then obtain f where f: "Video_targetFrame a = Some f" "0 < af_width f" "0 < af_height f" by auto
    let ?d' = "vd_do [VC_free AV_frameData] (Video_ready (aa_now a) f
      ((vd_do [VC_alloc AV_frameData] d)\<lparr>vd_video := (vd_video d)\<lparr>vid_lastFrameTime := aa_now a\<rparr>\<rparr>))"
    have "vd_ready ?d' = vd_ready d @ answer_shows a"
      using f Cons.prems(2) by (auto simp: Video_ready_def answer_shows_def)
    moreover have "vd_onFrameReady ?d'" using Cons.prems(2) by (simp add: Video_ready_def)
    ultimately show ?thesis
      using f Cons.prems Cons.IH [of ?d'] pass by (simp add: d Let_def not_le [symmetric])
  next
    case False
    then have "answer_shows a = []"
      by (auto simp: answer_shows_def split: option.splits)
    moreover have "Video_receive (a # as) d =
        Video_receive as (vd_do [VC_free AV_frameData] (vd_do [VC_alloc AV_frameData] d))"
      using False Cons.prems(3) by (auto simp: d Let_def not_le split: option.splits)
    ultimately show ?thesis
      using Cons.prems skip Cons.IH [of "vd_do [VC_free AV_frameData] (vd_do [VC_alloc AV_frameData] d)"]
      by simp
  qed
qed simp

lemma Video_readLoop_slow:
  assumes "0 \<le> ms"
  shows "vid_fpsLimitMs (vd_video d) = ms \<Longrightarrow> vd_onFrameReady d \<Longrightarrow> list_all (\<lambda>r. 0 \<le> ar_ret r) rs \<Longrightarrow>
    list_all (\<lambda>a. aa_fps a = []) (stream_answers (vd_videoStreamIndex d) rs) \<Longrightarrow>
    slow ms (vid_lastFrameTime (vd_video d) # map aa_now (stream_answers (vd_videoStreamIndex d) rs)) \<Longrightarrow>
    vd_ready (Video_readLoop rs d) =
      vd_ready d @ concat (map answer_shows (stream_answers (vd_videoStreamIndex d) rs))"
proof (induction rs arbitrary: d)
  case (Cons r rs)
  let ?d1 = "vd_do [VC_alloc AV_packetData] d"
  show ?case
  proof (cases "ar_stream_index r = vd_videoStreamIndex d")
    case True
    with Cons.prems Video_receive_slow [OF assms, of ?d1 "ar_frames r"
        "map aa_now (stream_answers (vd_videoStreamIndex d) rs)"]
    show ?thesis
      by (simp add: Let_def not_less [symmetric] Cons.IH)
  next
    case False
    with Cons.prems show ?thesis
      by (simp add: Let_def not_less [symmetric] Cons.IH)
  qed
qed simp

section \<open>Properties\<close>

text \<open>
  Claim C35. Whatever FFmpeg answers and whenever the stream is stopped, the decoding thread allocates
  nothing that is still alive and frees nothing that is not, frees everything it allocated before it
  ends, and leaves no context behind that \<open>stopStream\<close> would still have to free.
\<close>

theorem Video_decode_frees_everything:
  "av_ledger {} (vd_calls (Video_decodeLoopFFmpeg tries (VideoDecoder_new v callback))) = Some {} \<and>
   vd_calls (Video_cleanupFFmpeg (Video_decodeLoopFFmpeg tries (VideoDecoder_new v callback))) =
   vd_calls (Video_decodeLoopFFmpeg tries (VideoDecoder_new v callback))"
proof -
  have "decoder_idle (VideoDecoder_new v callback)"
    by (simp add: decoder_idle_def vd_alive_def VideoDecoder_new_def)
  from Video_decodeLoop_idle [OF this, of tries] show ?thesis
    by (simp add: decoder_idle_def vd_alive_def Video_cleanupFFmpeg_def Let_def)
qed

text \<open>
  Claim C36. While the rates that are set stay within \<open>F\<close> frames per second, the callback gets, across
  reconnections, decoded frames of the video stream in their order, no two of them closer than
  \<open>1000 div F\<close> milliseconds.
\<close>

theorem Video_decode_paced:
  assumes "0 < F" and "1000 div F \<le> vid_fpsLimitMs v"
    and "list_all (\<lambda>(o', rs, stop). list_all (\<lambda>r. list_all (\<lambda>a.
      list_all (\<lambda>r. 0 < r \<and> r \<le> F) (aa_fps a)) (ar_frames r)) rs) tries"
  shows "subseq (vd_ready (Video_decodeLoopFFmpeg tries (VideoDecoder_new v callback))) (tries_show tries) \<and>
    successively (\<lambda>s t. 1000 div F * 1000000 \<le> t - s)
      (map fst (vd_ready (Video_decodeLoopFFmpeg tries (VideoDecoder_new v callback))))"
proof -
  have "vd_ready (VideoDecoder_new v callback) = []" "paced (1000 div F) (VideoDecoder_new v callback)"
    using assms(2) by (simp_all add: paced_def vd_ready_def VideoDecoder_new_def)
  with Video_decodeLoop_subseq [of tries "VideoDecoder_new v callback"]
    Video_decodeLoop_paced [OF assms(1) _ assms(3), of "VideoDecoder_new v callback"]
  show ?thesis by (auto simp: paced_def)
qed

definition decode_example_frame :: "av_format \<Rightarrow> av_frame" where
  "decode_example_frame fmt = \<lparr>af_format = fmt, af_width = 2, af_height = 2, af_data0 = Some [1, 2, 3, 4],
     af_data1 = Some [5, 6], af_linesize0 = 2, af_linesize1 = 2\<rparr>"

definition decode_example_answer :: "int \<Rightarrow> int list \<Rightarrow> av_answer" where
  "decode_example_answer now fps = \<lparr>aa_frame = decode_example_frame AV_PIX_FMT_D3D11,
     aa_transfer = Some (decode_example_frame AV_PIX_FMT_NV12), aa_now = now, aa_fps = fps\<rparr>"

definition decode_example_open :: av_open where
  "decode_example_open = \<lparr>ao_open_input = 0, ao_options = True, ao_find_stream_info = 0,
     ao_streams = [AVMEDIA_TYPE_OTHER, AVMEDIA_TYPE_VIDEO], ao_hwdevice_create = 0, ao_open2 = 0\<rparr>"

text \<open>
  Three packets of the video stream, one of them with two frames, and one of the sound; the second
  frame of the first packet comes too early.
\<close>

definition decode_example_reads :: "av_read list" where
  "decode_example_reads =
     [\<lparr>ar_ret = 0, ar_stream_index = 1, ar_frames = [decode_example_answer 100000000 [], decode_example_answer 110000000 []]\<rparr>,
      \<lparr>ar_ret = 0, ar_stream_index = 0, ar_frames = []\<rparr>,
      \<lparr>ar_ret = 0, ar_stream_index = 1, ar_frames = [decode_example_answer 150000000 [15]]\<rparr>,
      \<lparr>ar_ret = 0, ar_stream_index = 1, ar_frames = [decode_example_answer 200000000 []]\<rparr>]"

theorem Video_decode_paced_witness:
  "map fst (vd_ready (Video_decodeLoopFFmpeg [(decode_example_open, decode_example_reads, True)] (VideoDecoder_new Video_new True)))
     = [100000000, 200000000] \<and>
   successively (\<lambda>s t. 1000 div 30 * 1000000 \<le> t - s)
     (map fst (vd_ready (Video_decodeLoopFFmpeg [(decode_example_open, decode_example_reads, True)]
       (VideoDecoder_new Video_new True))))"
proof
  show "map fst (vd_ready (Video_decodeLoopFFmpeg [(decode_example_open, decode_example_reads, True)]
      (VideoDecoder_new Video_new True))) = [100000000, 200000000]"
    by code_simp
  show "successively (\<lambda>s t. 1000 div 30 * 1000000 \<le> t - s)
     (map fst (vd_ready (Video_decodeLoopFFmpeg [(decode_example_open, decode_example_reads, True)]
       (VideoDecoder_new Video_new True))))"
    using Video_decode_paced [of 30 Video_new "[(decode_example_open, decode_example_reads, True)]" True]
    by (simp add: Video_new_def decode_example_reads_def decode_example_answer_def)
qed

text \<open>
  Over a connection that opens, a stream whose frames are at least the limit apart is shown
  in full: every frame in one of the two formats, from the main memory or from the video card,
  reaches the callback, and the throttle drops none.
\<close>

theorem Video_slow_stream_complete:
  assumes "ao_open_input o' = 0" "0 \<le> ao_find_stream_info o'" "0 \<le> ao_open2 o'"
    and "AVMEDIA_TYPE_VIDEO \<in> set (ao_streams o')"
    and "0 \<le> vid_fpsLimitMs v" "list_all (\<lambda>r. 0 \<le> ar_ret r) rs"
    and "list_all (\<lambda>a. aa_fps a = []) (stream_answers (video_index o') rs)"
    and "successively (\<lambda>s t. vid_fpsLimitMs v * 1000000 \<le> t - s)
      (vid_lastFrameTime v # map aa_now (stream_answers (video_index o') rs))"
  shows "vd_ready (fst (Video_tryOnceFFmpeg o' rs (VideoDecoder_new v True))) =
    concat (map answer_shows (stream_answers (video_index o') rs))"
proof -
  have "0 \<le> video_index o'"
    using assms(4) by (auto simp: video_index_def index_where_nonneg)
  moreover have "vd_ready (Video_readLoop rs d) = concat (map answer_shows (stream_answers (video_index o') rs))"
    if "vd_video d = v" "vd_onFrameReady d" "vd_videoStreamIndex d = video_index o'" "vd_ready d = []" for d
    using Video_readLoop_slow [OF assms(5), of d rs] assms(6-8) that by simp
  moreover have "vd_ready (VideoDecoder_new v True) = []" "vd_video (VideoDecoder_new v True) = v"
    "vd_onFrameReady (VideoDecoder_new v True)"
    by (simp_all add: VideoDecoder_new_def vd_ready_def)
  ultimately show ?thesis
    using assms(1-3) by (simp add: Video_tryOnceFFmpeg_def Let_def video_index_def)
qed

theorem Video_slow_stream_complete_witness:
  "vd_ready (fst (Video_tryOnceFFmpeg decode_example_open
     [\<lparr>ar_ret = 0, ar_stream_index = 1, ar_frames = [decode_example_answer 100000000 []]\<rparr>,
      \<lparr>ar_ret = 0, ar_stream_index = 1, ar_frames = [decode_example_answer 140000000 []]\<rparr>]
     (VideoDecoder_new Video_new True))) =
   [(100000000, Video_payload (decode_example_frame AV_PIX_FMT_NV12)),
    (140000000, Video_payload (decode_example_frame AV_PIX_FMT_NV12))]"
  using Video_slow_stream_complete [of decode_example_open Video_new
      "[\<lparr>ar_ret = 0, ar_stream_index = 1, ar_frames = [decode_example_answer 100000000 []]\<rparr>,
        \<lparr>ar_ret = 0, ar_stream_index = 1, ar_frames = [decode_example_answer 140000000 []]\<rparr>]"]
  by (simp add: decode_example_open_def Video_new_def video_index_def decode_example_answer_def answer_shows_def
      Video_targetFrame_def decode_example_frame_def)

section \<open>From the camera to the screen\<close>




end
