(* ===== verification/GridViews.thy ===== *)
theory GridViews
  imports CameraGrid
begin

text \<open>
  What the notifications of the camera model tell a view. A view keeps, for every row, the values
  of the roles that it has read, and reads a value again once a notification says that it is out of
  date. It is shown here that no call changes anything that its notifications do not say.
\<close>

section \<open>The view\<close>

text \<open>A row of the view: \<open>None\<close> where the value has to be read again.\<close>

type_synonym view_row = "CameraRole \<Rightarrow> CameraValue option"

definition view_unread :: view_row where
  "view_unread = (\<lambda>role. None)"

definition view_read :: "CameraEntry \<Rightarrow> view_row" where
  "view_read e = (\<lambda>role. Some (CameraEntry_data e role))"

definition view_mark :: "CameraRole list \<Rightarrow> view_row \<Rightarrow> view_row" where
  "view_mark roles row = (\<lambda>role. if roles = [] \<or> role \<in> set roles then None else row role)"

text \<open>
  The contract of QAbstractItemModel: \<open>None\<close> once a notification names rows that do not exist.
\<close>

fun view_follow :: "view_row list option \<Rightarrow> CameraModel_event \<Rightarrow> view_row list option" where
  "view_follow None ev = None"
| "view_follow (Some rows) (CM_beginRemoveRows a b) =
     (if 0 \<le> a \<and> a \<le> b \<and> b < int (length rows) then Some (take (nat a) rows @ drop (nat b + 1) rows) else None)"
| "view_follow (Some rows) (CM_beginInsertRows a b) =
     (if 0 \<le> a \<and> a \<le> b \<and> a \<le> int (length rows)
      then Some (take (nat a) rows @ replicate (nat (b - a + 1)) view_unread @ drop (nat a) rows) else None)"
| "view_follow (Some rows) (CM_dataChanged r roles) =
     (if 0 \<le> r \<and> r < int (length rows) then Some (rows[nat r := view_mark roles (rows ! nat r)]) else None)"
| "view_follow (Some rows) (CM_endResetModel k) = Some (replicate (nat k) view_unread)"
| "view_follow (Some rows) _ = Some rows"

text \<open>A row shows a card: what it has read, and need not read again, is what the card has.\<close>

definition view_shows :: "view_row \<Rightarrow> CameraEntry \<Rightarrow> bool" where
  "view_shows row e \<longleftrightarrow> (\<forall>role. row role = None \<or> row role = Some (CameraEntry_data e role))"

definition view_agrees :: "view_row list \<Rightarrow> CameraModel \<Rightarrow> bool" where
  "view_agrees rows m \<longleftrightarrow> list_all2 view_shows rows (cm_cameras m)"

lemma view_shows_simps [simp]:
  "view_shows view_unread e" "view_shows (view_read e) e" "view_shows (view_mark [] row) e"
  by (simp_all add: view_shows_def view_unread_def view_read_def view_mark_def)

lemma view_shows_mark:
  assumes "view_shows row e" "\<And>role. role \<notin> set roles \<Longrightarrow> CameraEntry_data e' role = CameraEntry_data e role"
  shows "view_shows (view_mark roles row) e'"
  using assms by (auto simp: view_shows_def view_mark_def)

lemma view_unread_all: "length cams = n \<Longrightarrow> list_all2 view_shows (replicate n view_unread) cams"
  by (auto simp: list_all2_conv_all_nth)

section \<open>Calls that a view can follow\<close>

definition view_follows :: "CameraModel \<Rightarrow> CameraModel \<Rightarrow> bool" where
  "view_follows m m' \<longleftrightarrow>
     (\<exists>evs. cm_events m' = cm_events m @ evs \<and>
        (\<forall>rows. view_agrees rows m \<longrightarrow>
           (\<exists>rows'. foldl view_follow (Some rows) evs = Some rows' \<and> view_agrees rows' m')))"

named_theorems view_intros \<open>calls that a view can follow\<close>

lemma view_followsI:
  assumes "cm_events m' = cm_events m @ evs"
    and "\<And>rows. list_all2 view_shows rows (cm_cameras m) \<Longrightarrow>
      \<exists>rows'. foldl view_follow (Some rows) evs = Some rows' \<and> list_all2 view_shows rows' (cm_cameras m')"
  shows "view_follows m m'"
  using assms unfolding view_follows_def view_agrees_def by blast

lemma view_follows_refl [view_intros, simp]: "view_follows m m"
  by (rule view_followsI [of _ _ "[]"]) simp_all

lemma view_follows_trans:
  assumes "view_follows m m'" "view_follows m' m''"
  shows "view_follows m m''"
proof -
  from assms obtain evs evs' where
    "cm_events m' = cm_events m @ evs" "cm_events m'' = cm_events m' @ evs'"
    and rows: "\<And>rows. view_agrees rows m \<Longrightarrow> \<exists>rows'. foldl view_follow (Some rows) evs = Some rows' \<and> view_agrees rows' m'"
      "\<And>rows. view_agrees rows m' \<Longrightarrow> \<exists>rows'. foldl view_follow (Some rows) evs' = Some rows' \<and> view_agrees rows' m''"
    unfolding view_follows_def by blast
  then have "cm_events m'' = cm_events m @ evs @ evs'" by simp
  moreover have "\<exists>rows''. foldl view_follow (Some rows) (evs @ evs') = Some rows'' \<and> view_agrees rows'' m''"
    if "view_agrees rows m" for rows
    using rows(1) [OF that] rows(2) by fastforce
  ultimately show ?thesis unfolding view_follows_def by blast
qed

text \<open>Signals that say nothing about rows.\<close>

lemma view_follows_emit:
  assumes "view_follows m m'" "\<And>rows. view_follow (Some rows) ev = Some rows"
  shows "view_follows m (CameraModel_emit ev m')"
  by (rule view_follows_trans [OF assms(1)], rule view_followsI [of _ _ "[ev]"]) (simp_all add: assms(2))

lemma view_follows_emitSlots: "view_follows m m' \<Longrightarrow> view_follows m (CameraModel_emitSlotsUpdated m')"
  unfolding CameraModel_emitSlotsUpdated_def by (intro view_follows_emit) simp_all

text \<open>One row is replaced, and the view is told the roles that changed.\<close>

lemma view_follows_row:
  assumes "i < length (cm_cameras m)"
    "\<And>role. role \<notin> set roles \<Longrightarrow> CameraEntry_data e role = CameraEntry_data (cm_cameras m ! i) role"
  shows "view_follows m (CameraModel_emit (CM_dataChanged (int i) roles) (m\<lparr>cm_cameras := (cm_cameras m)[i := e]\<rparr>))"
proof (rule view_followsI [of _ _ "[CM_dataChanged (int i) roles]"])
  fix rows assume rows: "list_all2 view_shows rows (cm_cameras m)"
  then have "view_shows (rows ! i) (cm_cameras m ! i)" "length rows = length (cm_cameras m)"
    using assms(1) by (auto simp: list_all2_conv_all_nth)
  with assms have "view_shows (view_mark roles (rows ! i)) e" by (intro view_shows_mark)
  with rows \<open>length rows = _\<close> assms(1)
  show "\<exists>rows'. foldl view_follow (Some rows) [CM_dataChanged (int i) roles] = Some rows' \<and>
      list_all2 view_shows rows' (cm_cameras (CameraModel_emit (CM_dataChanged (int i) roles)
        (m\<lparr>cm_cameras := (cm_cameras m)[i := e]\<rparr>)))"
    by (simp add: list_all2_update_cong)
qed simp

section \<open>The operations\<close>

lemma CameraModel_setOnline_view [view_intros]: "view_follows m (CameraModel_setOnline i b m)"
  using view_follows_row [of "nat i" m "[IsOnlineRole]" "(cm_cameras m ! nat i)\<lparr>ce_isOnline := b\<rparr>"]
  by (auto simp: CameraModel_setOnline_def CameraEntry_data_def split: CameraRole.splits)

lemma CameraModel_setData_view [view_intros]:
  "view_follows m (fst (CameraModel_setData f g index v role m))"
proof (cases index)
  case (Some row)
  let ?cam = "cm_cameras m ! row"
  show ?thesis
  proof (cases "row < length (cm_cameras m)")
    case True
    note upd = view_follows_row [OF True]
    have "view_follows m (CameraModel_emit (CM_dataChanged (int row) [TitleRole])
        (m\<lparr>cm_cameras := (cm_cameras m)[row := ?cam\<lparr>ce_title := f v\<rparr>]\<rparr>))"
      "view_follows m (CameraModel_emit (CM_dataChanged (int row) [IsOnlineRole])
        (m\<lparr>cm_cameras := (cm_cameras m)[row := ?cam\<lparr>ce_isOnline := g v\<rparr>]\<rparr>))"
      "view_follows m (CameraModel_emit (CM_dataChanged (int row) [CameraTypeRole])
        (m\<lparr>cm_cameras := (cm_cameras m)[row := ?cam\<lparr>ce_cameraType := f v\<rparr>]\<rparr>))"
      by (rule upd; simp add: CameraEntry_data_def split: CameraRole.splits)+
    note told = this
    show ?thesis
    proof (cases role)
      case None
      with Some show ?thesis by (simp add: CameraModel_setData_def)
    next
      case (Some r)
      with \<open>index = Some row\<close> True told show ?thesis
        by (cases r) (simp_all add: CameraModel_setData_def Let_def)
    qed
  qed (simp add: CameraModel_setData_def Some)
qed (simp add: CameraModel_setData_def)

text \<open>The sensor data is under no role.\<close>

lemma CameraModel_updateSensorInfo_view [view_intros]:
  "view_follows m (CameraModel_updateSensorInfo cid h l ti tm m)"
proof -
  have "view_follows m (m\<lparr>cm_cameras := map (\<lambda>e. if ce_cameraId e = cid then e\<lparr>ce_deviceInfo := g e\<rparr> else e)
      (cm_cameras m)\<rparr>)" for g
  proof (rule view_followsI [of _ _ "[]"])
    have "view_shows row e \<Longrightarrow> view_shows row (if ce_cameraId e = cid then e\<lparr>ce_deviceInfo := g e\<rparr> else e)" for row e
    proof -
      have "CameraEntry_data (e\<lparr>ce_deviceInfo := g e\<rparr>) = CameraEntry_data e"
        by (simp add: CameraEntry_data_def fun_eq_iff cong: CameraRole.case_cong)
      then show "view_shows row e \<Longrightarrow> view_shows row (if ce_cameraId e = cid then e\<lparr>ce_deviceInfo := g e\<rparr> else e)"
        by (simp add: view_shows_def)
    qed
    then show "list_all2 view_shows rows (cm_cameras m) \<Longrightarrow>
      \<exists>rows'. foldl view_follow (Some rows) [] = Some rows' \<and> list_all2 view_shows rows'
        (cm_cameras (m\<lparr>cm_cameras := map (\<lambda>e. if ce_cameraId e = cid then e\<lparr>ce_deviceInfo := g e\<rparr> else e) (cm_cameras m)\<rparr>))"
      for rows by (simp add: list_all2_conv_all_nth)
  qed simp
  then show ?thesis
    unfolding CameraModel_updateSensorInfo_def Let_def by (simp add: view_follows_emit)
qed

text \<open>
  The swap names neither the size nor the slot: the cards have one size, and the slots stay.
\<close>

lemma CameraModel_swapSlots_view [view_intros]:
  assumes "CameraModel_sized m"
  shows "view_follows m (CameraModel_swapSlots i j m)"
proof (cases "i < 0 \<or> j < 0 \<or> int (length (cm_cameras m)) \<le> i \<or> int (length (cm_cameras m)) \<le> j \<or> i = j")
  case True
  then show ?thesis by (auto simp: CameraModel_swapSlots_def Let_def)
next
  case False
  let ?i = "nat i" and ?j = "nat j" and ?cams = "cm_cameras m"
  let ?a = "CameraEntry_take_content (?cams ! ?i) (?cams ! ?j)" and ?b = "CameraEntry_take_content (?cams ! ?j) (?cams ! ?i)"
  let ?m = "m\<lparr>cm_cameras := ?cams[?i := ?a, ?j := ?b]\<rparr>"
  have rng: "?i < length ?cams" "?j < length ?cams" "?i \<noteq> ?j"
    using False by auto
  note size = rng(1,2) [THEN CameraModel_sized_nth [OF assms]]
  have same: "CameraEntry_data (CameraEntry_take_content x y) role = CameraEntry_data x role"
    if "role \<notin> set CameraModel_swap_roles" "ce_width y = ce_width x" "ce_height y = ce_height x" for x y role
    using that by (cases role) (simp_all add: CameraEntry_data_def CameraEntry_take_content_def CameraModel_swap_roles_def)
  have "view_follows m (CameraModel_emit (CM_dataChanged j CameraModel_swap_roles)
      (CameraModel_emit (CM_dataChanged i CameraModel_swap_roles) (CameraModel_emitSlotsUpdated ?m)))"
  proof (rule view_followsI [of _ _ "[CM_slotsUpdated (map CameraModel_slotInfo (cm_cameras ?m)),
      CM_cameraIdsUpdated (CameraModel_cids (cm_cameras ?m) {}), CM_dataChanged i CameraModel_swap_roles,
      CM_dataChanged j CameraModel_swap_roles]"])
    fix rows assume rows: "list_all2 view_shows rows ?cams"
    then have len: "length rows = length ?cams" and ij: "view_shows (rows ! ?i) (?cams ! ?i)" "view_shows (rows ! ?j) (?cams ! ?j)"
      using rng by (auto simp: list_all2_conv_all_nth)
    have "view_shows (view_mark CameraModel_swap_roles (rows ! ?i)) ?a"
      "view_shows (view_mark CameraModel_swap_roles (rows ! ?j)) ?b"
      using ij size by (auto intro!: view_shows_mark same)
    with rows have "list_all2 view_shows (rows[?i := view_mark CameraModel_swap_roles (rows ! ?i),
        ?j := view_mark CameraModel_swap_roles (rows ! ?j)]) (?cams[?i := ?a, ?j := ?b])"
      by (intro list_all2_update_cong)
    with False rng len show "\<exists>rows'. foldl view_follow (Some rows)
        [CM_slotsUpdated (map CameraModel_slotInfo (cm_cameras ?m)),
         CM_cameraIdsUpdated (CameraModel_cids (cm_cameras ?m) {}), CM_dataChanged i CameraModel_swap_roles,
         CM_dataChanged j CameraModel_swap_roles] = Some rows' \<and>
      list_all2 view_shows rows' (cm_cameras (CameraModel_emit (CM_dataChanged j CameraModel_swap_roles)
        (CameraModel_emit (CM_dataChanged i CameraModel_swap_roles) (CameraModel_emitSlotsUpdated ?m))))"
      by simp
  qed simp
  with False show ?thesis by (simp add: CameraModel_swapSlots_def Let_def)
qed

lemma CameraModel_split_view [view_intros]:
  "view_follows m (fst (CameraModel_splitSlotAtIndex row n d auto m))"
proof (cases rule: CameraModel_splitSlotAtIndex_cases [of row n d auto m])
  case (split us orig vs)
  let ?tiles = "CameraModel_tiles orig n d (cm_nextSplitGroupId m) (cm_nextSlotId m) 0"
  let ?cams = "us @ ?tiles @ vs"
  have n: "2 \<le> n" using validCount_range split(3) by blast
  have len: "length ?tiles = nat n" by (simp add: CameraModel_tiles_def)
  show ?thesis
  proof (rule view_followsI [of _ _ "[CM_beginRemoveRows row row, CM_endRemoveRows,
      CM_beginInsertRows row (row + n - 1), CM_endInsertRows,
      CM_slotsUpdated (map CameraModel_slotInfo ?cams), CM_cameraIdsUpdated (CameraModel_cids ?cams {})]"])
    fix rows assume "list_all2 view_shows rows (cm_cameras m)"
    then obtain rs r rs' where rows: "rows = rs @ r # rs'" "list_all2 view_shows rs us" "list_all2 view_shows rs' vs"
      unfolding split(1) by (auto simp: list_all2_append2 list_all2_Cons2)
    then have "row = int (length rs)" using split(2) by (simp add: list_all2_lengthD)
    with rows n have "foldl view_follow (Some rows) [CM_beginRemoveRows row row, CM_endRemoveRows,
        CM_beginInsertRows row (row + n - 1), CM_endInsertRows, CM_slotsUpdated (map CameraModel_slotInfo ?cams),
        CM_cameraIdsUpdated (CameraModel_cids ?cams {})] = Some (rs @ replicate (nat n) view_unread @ rs')"
      by simp
    moreover have "list_all2 view_shows (rs @ replicate (nat n) view_unread @ rs') ?cams"
      using rows(2,3) view_unread_all [OF len] by (simp add: list_all2_appendI)
    ultimately show "\<exists>rows'. foldl view_follow (Some rows) [CM_beginRemoveRows row row, CM_endRemoveRows,
        CM_beginInsertRows row (row + n - 1), CM_endInsertRows, CM_slotsUpdated (map CameraModel_slotInfo ?cams),
        CM_cameraIdsUpdated (CameraModel_cids ?cams {})] = Some rows' \<and>
      list_all2 view_shows rows' (cm_cameras (fst (CameraModel_splitSlotAtIndex row n d auto m)))"
      by (simp add: CameraModel_splitSlotAtIndex_closed [OF split] Let_def)
  qed (simp add: CameraModel_splitSlotAtIndex_closed [OF split] Let_def)
qed simp

lemma CameraModel_auto_view [view_intros]:
  "view_follows m (fst (CameraModel_applyAutoSplitForSlot tbl slotId m))"
  by (auto simp: CameraModel_applyAutoSplitForSlot_def CameraModel_autoSplitForIndex_def Let_def
      intro: view_intros)

text \<open>The rows of a group go from the last one down; the others stay.\<close>

lemma view_removals:
  assumes "list_all2 view_shows rs' vs" "length rs = k"
  shows "\<exists>rs''. foldl view_follow (Some (rs @ rs')) (CameraModel_removal_events (rev (CameraModel_groupIndices g k vs))) =
      Some (rs @ rs'') \<and> list_all2 view_shows rs'' (filter (\<lambda>e. ce_splitGroupId e \<noteq> g) vs)"
  using assms
proof (induction vs arbitrary: rs rs' k rule: list.induct)
  case Nil
  then have "rs' = []" by simp
  then show ?case by (simp add: CameraModel_removal_events_def)
next
  case (Cons c vs)
  from Cons.prems(1) obtain r rest where rs': "rs' = r # rest" "view_shows r c" "list_all2 view_shows rest vs"
    by (auto simp: list_all2_Cons2)
  from Cons.IH [OF rs'(3), of "rs @ [r]" "k + 1"] Cons.prems(2) obtain rs'' where
    IH: "foldl view_follow (Some (rs @ r # rest)) (CameraModel_removal_events (rev (CameraModel_groupIndices g (k + 1) vs))) =
        Some (rs @ r # rs'')" "list_all2 view_shows rs'' (filter (\<lambda>e. ce_splitGroupId e \<noteq> g) vs)" by auto
  show ?case
  proof (cases "ce_splitGroupId c = g")
    case True
    then have "CameraModel_removal_events (rev (CameraModel_groupIndices g k (c # vs))) =
        CameraModel_removal_events (rev (CameraModel_groupIndices g (k + 1) vs)) @
        [CM_beginRemoveRows (int k) (int k), CM_endRemoveRows]"
      by (simp add: CameraModel_removal_events_def)
    with IH True Cons.prems(2) show ?thesis
      by (auto simp: rs'(1) nat_int_add)
  next
    case False
    with IH rs' show ?thesis by auto
  qed
qed

lemma CameraModel_merge_view [view_intros]:
  "view_follows m (fst (CameraModel_mergeGroupByIndex row m))"
proof (cases rule: CameraModel_mergeGroupByIndex_cases [of row m])
  case (merged us first vs g)
  let ?cams = "us @ CameraModel_merged first # filter (\<lambda>e. ce_splitGroupId e \<noteq> g) vs"
  let ?evs = "CameraModel_removal_events (rev (CameraModel_groupIndices g (length us + 1) vs)) @
      [CM_dataChanged (int (length us)) [], CM_slotsUpdated (map CameraModel_slotInfo ?cams),
       CM_cameraIdsUpdated (CameraModel_cids ?cams {})]"
  note closed = CameraModel_mergeGroupByIndex_closed [OF merged]
  show ?thesis
  proof (rule view_followsI [of _ _ ?evs])
    fix rows assume "list_all2 view_shows rows (cm_cameras m)"
    then obtain rs r rs' where rows: "rows = rs @ r # rs'" "list_all2 view_shows rs us" "list_all2 view_shows rs' vs"
      unfolding merged(1) by (auto simp: list_all2_append2 list_all2_Cons2)
    have len: "length rs = length us" using rows(2) by (rule list_all2_lengthD)
    then have "length (rs @ [r]) = length us + 1" by simp
    from view_removals [OF rows(3) this, of g] obtain rs'' where
      "foldl view_follow (Some rows) (CameraModel_removal_events (rev (CameraModel_groupIndices g (length us + 1) vs))) =
        Some (rs @ r # rs'')" "list_all2 view_shows rs'' (filter (\<lambda>e. ce_splitGroupId e \<noteq> g) vs)"
      by (auto simp: rows(1))
    moreover have "list_all2 view_shows (rs @ view_mark [] r # rs'') ?cams"
      using rows(2) calculation(2) by (intro list_all2_appendI) simp_all
    ultimately show "\<exists>rows'. foldl view_follow (Some rows) ?evs = Some rows' \<and>
        list_all2 view_shows rows' (cm_cameras (fst (CameraModel_mergeGroupByIndex row m)))"
      by (simp add: closed Let_def len [symmetric])
  qed (simp add: closed Let_def)
qed simp

lemma CameraModel_clearAll_view [view_intros]: "view_follows m (CameraModel_clearAll m)"
  unfolding CameraModel_clearAll_def Let_def
  by (intro view_follows_emitSlots view_followsI [of _ _ "[CM_beginResetModel, CM_endResetModel 0]"])
    (simp_all add: CameraModel_rowCount_def)

section \<open>A new snapshot\<close>

lemma CameraModel_refresh_roles:
  assumes "CameraModel_refresh byCid c = (e, on, roles)" "role \<notin> set roles"
  shows "CameraEntry_data e role = CameraEntry_data c role"
  using assms
  by (cases role) (auto simp: CameraModel_refresh_def CameraEntry_data_def Let_def split: option.splits if_splits)

lemma CameraModel_refresh_rows_view: "view_follows m (CameraModel_refresh_rows byCid i m)"
proof (induction byCid i m rule: CameraModel_refresh_rows.induct)
  case (1 byCid i m)
  show ?case
  proof (cases "i < length (cm_cameras m)")
    case False
    then show ?thesis by (subst CameraModel_refresh_rows.simps) simp
  next
    case True
    obtain e on roles where r: "CameraModel_refresh byCid (cm_cameras m ! i) = (e, on, roles)"
      by (metis prod.exhaust)
    let ?m1 = "m\<lparr>cm_cameras := (cm_cameras m)[i := e]\<rparr>"
    let ?m2 = "if on then CameraModel_emit (CM_cameraOnline (ce_cameraId e)) ?m1 else ?m1"
    let ?m3 = "if roles \<noteq> [] then CameraModel_emit (CM_dataChanged (int i) roles) ?m2 else ?m2"
    note same = CameraModel_refresh_roles [OF r]
    have "view_follows m ?m3"
    proof (rule view_followsI)
      show "cm_events ?m3 = cm_events m @ (if on then [CM_cameraOnline (ce_cameraId e)] else []) @
          (if roles \<noteq> [] then [CM_dataChanged (int i) roles] else [])" by simp
      fix rows assume rows: "list_all2 view_shows rows (cm_cameras m)"
      then have len: "length rows = length (cm_cameras m)" and row: "view_shows (rows ! i) (cm_cameras m ! i)"
        using True by (auto simp: list_all2_conv_all_nth)
      have "view_shows (view_mark roles (rows ! i)) e" using row same by (rule view_shows_mark)
      moreover have "view_shows (rows ! i) e" if "roles = []"
        using row same that by (simp add: view_shows_def)
      ultimately show "\<exists>rows'. foldl view_follow (Some rows) ((if on then [CM_cameraOnline (ce_cameraId e)] else []) @
          (if roles \<noteq> [] then [CM_dataChanged (int i) roles] else [])) = Some rows' \<and>
        list_all2 view_shows rows' (cm_cameras ?m3)"
        using rows True len list_all2_update_cong [OF rows, of "rows ! i" e i]
        by (auto intro: list_all2_update_cong)
    qed
    moreover have "view_follows ?m3 (CameraModel_refresh_rows byCid (i + 1) ?m3)"
      using 1 [OF True r [symmetric] refl refl refl refl refl] by simp
    moreover have "CameraModel_refresh_rows byCid i m = CameraModel_refresh_rows byCid (i + 1) ?m3"
      using True r by (subst CameraModel_refresh_rows.simps) (simp add: Let_def)
    ultimately show ?thesis using view_follows_trans [of m ?m3] by simp
  qed
qed

lemma CameraModel_insertNew_view [view_intros]: "view_follows m (CameraModel_insertNew new m)"
proof (rule view_followsI)
  fix rows assume rows: "list_all2 view_shows rows (cm_cameras m)"
  then have "int (length rows) = int (length (cm_cameras m))" by (simp add: list_all2_lengthD)
  with rows show "\<exists>rows'. foldl view_follow (Some rows) (if new = [] then []
       else [CM_beginInsertRows (int (length (cm_cameras m)))
               (int (length (cm_cameras m)) + int (length new) - 1), CM_endInsertRows]) = Some rows' \<and>
      list_all2 view_shows rows' (cm_cameras (CameraModel_insertNew new m))"
    using view_unread_all [of new "length new"]
    by (cases "new = []") (simp_all add: list_all2_appendI Suc_le_eq)
qed simp

lemma CameraModel_onStoreUpdated_view [view_intros]:
  "view_follows m (CameraModel_onStoreUpdated order tbl snapshot m)"
proof -
  have autos: "view_follows m' (foldl (\<lambda>m slotId. fst (CameraModel_applyAutoSplitForSlot tbl slotId m)) m' slots)" for m' slots
  proof (induction slots arbitrary: m')
    case (Cons s slots)
    show ?case using view_follows_trans [OF CameraModel_auto_view Cons.IH] by simp
  qed simp
  show ?thesis
    unfolding CameraModel_onStoreUpdated_def Let_def
    by (rule view_follows_trans [OF CameraModel_refresh_rows_view],
        rule view_follows_trans [OF view_follows_emitSlots [OF CameraModel_insertNew_view] autos])
qed

lemma CameraModel_step_view: "CameraModel_sized m \<Longrightarrow> view_follows m (CameraModel_step tbl m x)"
  by (cases x) (auto simp: CameraModel_splitSlot_def CameraModel_mergeSlots_def Let_def intro: view_intros)

section \<open>Properties\<close>

text \<open>
  Claim C16. The notifications of a call say all that the call changes. In every reachable state,
  a view that shows the grid and then follows the notifications of any call, that is removes,
  inserts and clears the rows they name and forgets the roles they name, has the rows of the grid
  afterwards: as many, in their order, and where it has not been told to read a value again, the
  value it shows is still that of the card. No notification names rows that are not there.
\<close>

theorem CameraModel_notifications_match_rows:
  fixes tbl :: "(string \<times> int) list" and ops :: "CameraModel_op list" and x :: CameraModel_op
  defines "m \<equiv> foldl (CameraModel_step tbl) CameraModel_init ops"
  defines "m' \<equiv> CameraModel_step tbl m x"
  shows "\<exists>evs rows. cm_events m' = cm_events m @ evs \<and>
    foldl view_follow (Some (map view_read (cm_cameras m))) evs = Some rows \<and> view_agrees rows m'"
proof -
  have "CameraModel_sized m" unfolding m_def by (rule camera_sizes.run_inv)
  then have "view_follows m m'" unfolding m'_def by (rule CameraModel_step_view)
  moreover have "view_agrees (map view_read (cm_cameras m)) m"
    by (simp add: view_agrees_def list_all2_conv_all_nth)
  ultimately show ?thesis unfolding view_follows_def by blast
qed

end
