(* ===== verification/SessionEngine.thy ===== *)
theory SessionEngine
  imports Protocol Json
begin

text \<open>
  Src/Network/SessionEngine.hpp, a rewrite of the connection that is in the repository but outside
  the build, and the application state of Src/Config.hpp that only it uses. The bodies that the
  file gives are modelled: the operations of a TCP session, the dispatch of a header by the login
  state, and the job of a login answer. The other handlers of \<open>ServerConnect\<close> are only declared.
\<close>

section \<open>The application state\<close>

datatype User = LogOut | Admin | Normal

text \<open>\<open>Observable\<close>: the value, and the arguments of the signal in order.\<close>

record 'a Observable =
  ob_t :: 'a
  ob_on_changed :: "'a list"

definition Observable_assign :: "'a \<Rightarrow> 'a Observable \<Rightarrow> 'a Observable" where
  "Observable_assign t ob =
     (if ob_t ob \<noteq> t then ob\<lparr>ob_t := t, ob_on_changed := ob_on_changed ob @ [t]\<rparr> else ob)"

text \<open>Observers are told of changes only, and the last value they are told is the value.\<close>

lemma Observable_follows:
  fixes ob ts
  defines "ob' \<equiv> foldl (\<lambda>ob t. Observable_assign t ob) (ob\<lparr>ob_on_changed := []\<rparr>) ts"
  shows "ob_t ob' = last (ob_t ob # ob_on_changed ob') \<and> distinct_adj (ob_t ob # ob_on_changed ob')"
  unfolding ob'_def
proof (induction ts rule: rev_induct)
  case (snoc t ts)
  define o1 where "o1 = foldl (\<lambda>ob t. Observable_assign t ob) (ob\<lparr>ob_on_changed := []\<rparr>) ts"
  define told where "told = ob_t ob # ob_on_changed o1"
  have IH: "ob_t o1 = last told" "distinct_adj told" "told \<noteq> []"
    using snoc by (simp_all add: o1_def told_def)
  have told: "ob_t ob # ob_on_changed (Observable_assign t o1) = (if last told = t then told else told @ [t])"
    by (simp add: Observable_assign_def IH(1), simp add: told_def)
  have "ob_t (Observable_assign t o1) = t"
    by (simp add: Observable_assign_def)
  then have "ob_t (Observable_assign t o1) = last (ob_t ob # ob_on_changed (Observable_assign t o1)) \<and>
      distinct_adj (ob_t ob # ob_on_changed (Observable_assign t o1))"
    unfolding told using IH(2,3) by (simp add: distinct_adj_append_iff)
  then show ?case
    unfolding o1_def by (simp only: foldl_append foldl.simps)
qed simp

section \<open>The session\<close>

text \<open>
  The vectors that handlers and jobs share are cells of a store. An outstanding operation of the
  socket is kept with what its handler does: nothing, or the function it was given, of which there
  is one in the file. No handler looks at the error code.
\<close>

datatype se_after = AF_nothing | AF_header

datatype se_operation =
    SE_connect string "16 word"
  | SE_read nat se_after
  | SE_write bytes

record Session =
  se_vectors :: "bytes list"
  se_pending :: "se_operation list"

definition Session_Connect :: "string \<Rightarrow> 16 word \<Rightarrow> Session \<Rightarrow> Session" where
  "Session_Connect ip port s = s\<lparr>se_pending := se_pending s @ [SE_connect ip port]\<rparr>"

definition Session_Read_then :: "nat \<Rightarrow> se_after \<Rightarrow> Session \<Rightarrow> Session" where
  "Session_Read_then v After s = s\<lparr>se_pending := se_pending s @ [SE_read v After]\<rparr>"

definition Session_Read :: "nat \<Rightarrow> Session \<Rightarrow> Session" where
  "Session_Read v s = s\<lparr>se_pending := se_pending s @ [SE_read v AF_nothing]\<rparr>"

definition Session_Write :: "bytes \<Rightarrow> Session \<Rightarrow> Session" where
  "Session_Write data s = s\<lparr>se_pending := se_pending s @ [SE_write data]\<rparr>"

text \<open>\<open>std::make_shared<std::vector<uint8_t>>(n)\<close>: a new vector of zeros, with its place in the store.\<close>

definition make_vector :: "nat \<Rightarrow> Session \<Rightarrow> nat \<times> Session" where
  "make_vector n s = (length (se_vectors s), s\<lparr>se_vectors := se_vectors s @ [replicate n 0]\<rparr>)"

section \<open>The connection to the server\<close>

text \<open>The tasks that go to the pool; \<open>SJ_Success\<close> shares the vector of its body.\<close>

datatype se_job = SJ_Success nat | SJ_Fail | SJ_Available | SJ_Camera | SJ_AI | SJ_Image

record ServerConnect =
  sc_session :: Session
  sc_pool :: "se_job list"
  sc_User :: User  \<comment> \<open>\<open>AppState::getInstance().User_\<close>\<close>

text \<open>
  The constructor runs the io context until nothing is outstanding: the attempt to connect ends,
  well or not, and its handler does nothing. \<open>None\<close> where \<open>make_address\<close> throws.
\<close>

definition ServerConnect_new ::
  "(string \<Rightarrow> bool) \<Rightarrow> string \<Rightarrow> 16 word \<Rightarrow> User \<Rightarrow> ServerConnect option" where
  "ServerConnect_new make_address ip port user =
     (if \<not> make_address ip then None
      else
        let s = Session_Connect ip port \<lparr>se_vectors = [], se_pending = []\<rparr>
        in Some \<lparr>sc_session = s\<lparr>se_pending := []\<rparr>, sc_pool = [], sc_User = user\<rparr>)"

definition ServerConnect_Read :: "ServerConnect \<Rightarrow> ServerConnect" where
  "ServerConnect_Read sc =
     (case make_vector header_size (sc_session sc) of
        (header, s) \<Rightarrow> sc\<lparr>sc_session := Session_Read_then header AF_header s\<rparr>)"

text \<open>The switch over the type; META is answered like AVAILABLE.\<close>

fun ServerConnect_dispatch :: "MessageType \<Rightarrow> User \<Rightarrow> nat \<Rightarrow> se_job list" where
  "ServerConnect_dispatch SUCCESS user body = (if user = LogOut then [SJ_Success body] else [])"
| "ServerConnect_dispatch FAIL user body = (if user = LogOut then [SJ_Fail] else [])"
| "ServerConnect_dispatch AVAILABLE user body = (if user \<noteq> LogOut then [SJ_Available] else [])"
| "ServerConnect_dispatch CAMERA user body = (if user \<noteq> LogOut then [SJ_Camera] else [])"
| "ServerConnect_dispatch AI user body = (if user \<noteq> LogOut then [SJ_AI] else [])"
| "ServerConnect_dispatch META user body = (if user \<noteq> LogOut then [SJ_Available] else [])"
| "ServerConnect_dispatch IMAGE user body = (if user \<noteq> LogOut then [SJ_Image] else [])"
| "ServerConnect_dispatch _ user body = []"

definition ServerConnect_onHeader :: "nat \<Rightarrow> ServerConnect \<Rightarrow> ServerConnect" where
  "ServerConnect_onHeader header sc =
     (let h = se_vectors (sc_session sc) ! header in
      case make_vector (unat (header_length h)) (sc_session sc) of
        (body, s) \<Rightarrow>
          ServerConnect_Read (sc\<lparr>sc_session := Session_Read body s,
            sc_pool := sc_pool sc @
              (case MessageType_of (header_type h) of
                 None \<Rightarrow> []
               | Some t \<Rightarrow> ServerConnect_dispatch t (sc_User sc) body)\<rparr>))"

text \<open>
  The outstanding operation at \<open>k\<close> ends with the bytes \<open>bs\<close> transferred, all that fit the vector or,
  with an error, fewer.
\<close>

definition ServerConnect_complete :: "nat \<Rightarrow> bytes \<Rightarrow> ServerConnect \<Rightarrow> ServerConnect" where
  "ServerConnect_complete k bs sc =
     (let s = sc_session sc; rest = take k (se_pending s) @ drop (Suc k) (se_pending s) in
      case se_pending s ! k of
        SE_read v after \<Rightarrow>
          let old = se_vectors s ! v;
              sc' = sc\<lparr>sc_session := s\<lparr>se_pending := rest, se_vectors := (se_vectors s)[v := bs @ drop (length bs) old]\<rparr>\<rparr>
          in (case after of AF_nothing \<Rightarrow> sc' | AF_header \<Rightarrow> ServerConnect_onHeader v sc')
      | _ \<Rightarrow> sc\<lparr>sc_session := s\<lparr>se_pending := rest\<rparr>\<rparr>)"

text \<open>
  \<open>operator[]\<close> of a document that is not constant makes an object of null, and throws type_error
  305 for anything else that is not an object.
\<close>

record 'j json_index_ops = "'j json_ops" +
  j_is_null :: "'j \<Rightarrow> bool"

definition ServerConnect_Success :: "('j, 'm) json_index_ops_scheme \<Rightarrow> bytes \<Rightarrow> exn + User" where
  "ServerConnect_Success J Body =
     bindE (j_parse_throw J (bytes_string Body)) (\<lambda>json.
       if \<not> j_is_object J json \<and> \<not> j_is_null J json then Inl (TypeError 305)
       else Inr (if j_is_object J json \<and> j_contains J json ''state'' \<and>
                    j_string J json ''state'' '''' = Inr ''admin'' then Admin else Normal))"

text \<open>
  A lambda selects the template of \<open>Submit\<close>, so that what the job throws ends in the future, which
  is dropped.
\<close>

definition ServerConnect_runSuccess :: "('j, 'm) json_index_ops_scheme \<Rightarrow> nat \<Rightarrow> ServerConnect \<Rightarrow> ServerConnect" where
  "ServerConnect_runSuccess J body sc =
     (case ServerConnect_Success J (se_vectors (sc_session sc) ! body) of
        Inl _ \<Rightarrow> sc
      | Inr user \<Rightarrow> sc\<lparr>sc_User := user\<rparr>)"

section \<open>Runs\<close>

text \<open>
  \<open>runs\<close>: whether a thread runs the io context, which is private, once the constructor is over. The
  other jobs have no body, so their step does nothing else than leave the queue.
\<close>

inductive ServerConnect_step ::
  "('j, 'm) json_index_ops_scheme \<Rightarrow> bool \<Rightarrow> ServerConnect \<Rightarrow> ServerConnect \<Rightarrow> bool"
  for J runs
where
  complete: "runs \<Longrightarrow> k < length (se_pending (sc_session sc)) \<Longrightarrow>
     (\<forall>v after. se_pending (sc_session sc) ! k = SE_read v after \<longrightarrow>
        length bs \<le> length (se_vectors (sc_session sc) ! v)) \<Longrightarrow>
     ServerConnect_step J runs sc (ServerConnect_complete k bs sc)"
| success: "sc_pool sc = js @ SJ_Success body # js' \<Longrightarrow>
     ServerConnect_step J runs sc (ServerConnect_runSuccess J body (sc\<lparr>sc_pool := js @ js'\<rparr>))"
| job: "sc_pool sc = js @ j # js' \<Longrightarrow> (\<forall>body. j \<noteq> SJ_Success body) \<Longrightarrow>
     ServerConnect_step J runs sc (sc\<lparr>sc_pool := js @ js'\<rparr>)"

inductive_cases ServerConnect_stepE: "ServerConnect_step J runs sc sc'"

inductive ServerConnect_reachable ::
  "('j, 'm) json_index_ops_scheme \<Rightarrow> bool \<Rightarrow> ServerConnect \<Rightarrow> bool"
  for J runs
where
  start: "ServerConnect_new make_address ip port LogOut = Some sc \<Longrightarrow>
     ServerConnect_reachable J runs (ServerConnect_Read sc)"
| step: "ServerConnect_reachable J runs sc \<Longrightarrow> ServerConnect_step J runs sc sc' \<Longrightarrow>
     ServerConnect_reachable J runs sc'"

section \<open>Invariants\<close>

definition se_header_reads :: "Session \<Rightarrow> nat" where
  "se_header_reads s = length (filter (\<lambda>p. \<exists>v. p = SE_read v AF_header) (se_pending s))"

definition se_reads :: "Session \<Rightarrow> nat" where
  "se_reads s = length (filter (\<lambda>p. \<exists>v after. p = SE_read v after) (se_pending s))"

lemma filter_nth_split:
  "k < length xs \<Longrightarrow>
   length (filter P xs) = length (filter P (take k xs @ drop (Suc k) xs)) + (if P (xs ! k) then 1 else 0)"
  by (subst id_take_nth_drop [of k xs]) simp_all

lemma ServerConnect_Read_fields [simp]:
  "sc_pool (ServerConnect_Read sc) = sc_pool sc" "sc_User (ServerConnect_Read sc) = sc_User sc"
  "se_pending (sc_session (ServerConnect_Read sc)) =
     se_pending (sc_session sc) @ [SE_read (length (se_vectors (sc_session sc))) AF_header]"
  "se_vectors (sc_session (ServerConnect_Read sc)) = se_vectors (sc_session sc) @ [replicate header_size 0]"
  by (simp_all add: ServerConnect_Read_def make_vector_def Session_Read_then_def)

lemma ServerConnect_onHeader_fields [simp]:
  "sc_User (ServerConnect_onHeader header sc) = sc_User sc"
  "sc_pool (ServerConnect_onHeader header sc) = sc_pool sc @
     (case MessageType_of (header_type (se_vectors (sc_session sc) ! header)) of
        None \<Rightarrow> []
      | Some t \<Rightarrow> ServerConnect_dispatch t (sc_User sc) (length (se_vectors (sc_session sc))))"
  "se_pending (sc_session (ServerConnect_onHeader header sc)) =
     se_pending (sc_session sc) @ [SE_read (length (se_vectors (sc_session sc))) AF_nothing,
       SE_read (Suc (length (se_vectors (sc_session sc)))) AF_header]"
  "se_vectors (sc_session (ServerConnect_onHeader header sc)) = se_vectors (sc_session sc) @
     [replicate (unat (header_length (se_vectors (sc_session sc) ! header))) 0, replicate header_size 0]"
  by (simp_all add: ServerConnect_onHeader_def Let_def make_vector_def Session_Read_def)

lemma ServerConnect_complete_User [simp]:
  "sc_User (ServerConnect_complete k bs sc) = sc_User sc"
  by (simp add: ServerConnect_complete_def Let_def split: se_operation.split se_after.split)

text \<open>The reader never stops: the header read that ends is followed by the next.\<close>

lemma ServerConnect_complete_header_reads:
  assumes "k < length (se_pending (sc_session sc))"
  shows "se_header_reads (sc_session (ServerConnect_complete k bs sc)) = se_header_reads (sc_session sc)"
  unfolding se_header_reads_def filter_nth_split [OF assms]
  by (simp add: ServerConnect_complete_def Let_def split: se_operation.split se_after.split)

text \<open>Behind it a body is read too: two reads of one socket at a time.\<close>

lemma ServerConnect_complete_two_reads:
  assumes "k < length (se_pending (sc_session sc))" "se_pending (sc_session sc) ! k = SE_read v AF_header"
  shows "2 \<le> se_reads (sc_session (ServerConnect_complete k bs sc))"
  using assms by (simp add: se_reads_def ServerConnect_complete_def Let_def)

lemma ServerConnect_dispatch_LogOut:
  "set (ServerConnect_dispatch t LogOut body) \<subseteq> {SJ_Success body, SJ_Fail}"
  by (cases t) auto

lemma ServerConnect_complete_pool:
  "\<exists>jobs. sc_pool (ServerConnect_complete k bs sc) = sc_pool sc @ jobs \<and>
     (jobs = [] \<or> (\<exists>t body. jobs = ServerConnect_dispatch t (sc_User sc) body))"
  by (auto simp: ServerConnect_complete_def Let_def split: se_operation.split se_after.split option.split)

lemma ServerConnect_complete_jobs:
  assumes "sc_User sc = LogOut" "set (sc_pool sc) \<subseteq> insert SJ_Fail (range SJ_Success)"
  shows "set (sc_pool (ServerConnect_complete k bs sc)) \<subseteq> insert SJ_Fail (range SJ_Success)"
  using ServerConnect_complete_pool [of k bs sc] assms ServerConnect_dispatch_LogOut by fastforce

lemma ServerConnect_runSuccess_fields [simp]:
  "sc_pool (ServerConnect_runSuccess J body sc) = sc_pool sc"
  "sc_session (ServerConnect_runSuccess J body sc) = sc_session sc"
  by (simp_all add: ServerConnect_runSuccess_def split: sum.split)

lemma ServerConnect_runSuccess_User:
  "sc_User (ServerConnect_runSuccess J body sc) = LogOut \<Longrightarrow> sc_User sc = LogOut"
  by (auto simp: ServerConnect_runSuccess_def ServerConnect_Success_def bindE_def split: sum.splits if_splits)

section \<open>Properties\<close>

text \<open>
  Claim C40. Once reading has been started, a connection waits for exactly one header at any time,
  also behind errors; before a login it submits nothing but the answers to one; and whenever a
  header arrives it has two reads of the socket outstanding at once, which Asio does not allow. As
  long as no thread runs the private io context, which the constructor leaves when the attempt to
  connect is over, nothing is ever received.
\<close>

theorem ServerConnect_waits_for_login:
  assumes "ServerConnect_reachable J runs sc"
  shows "se_header_reads (sc_session sc) = 1 \<and>
    (sc_User sc = LogOut \<longrightarrow> set (sc_pool sc) \<subseteq> insert SJ_Fail (range SJ_Success)) \<and>
    (\<forall>k v bs. k < length (se_pending (sc_session sc)) \<longrightarrow> se_pending (sc_session sc) ! k = SE_read v AF_header \<longrightarrow>
       2 \<le> se_reads (sc_session (ServerConnect_complete k bs sc))) \<and>
    (\<not> runs \<longrightarrow> sc_pool sc = [] \<and> sc_User sc = LogOut \<and> se_pending (sc_session sc) = [SE_read 0 AF_header])"
  using assms
proof (induction rule: ServerConnect_reachable.induct)
  case (start make_address ip port sc)
  then have "sc = \<lparr>sc_session = \<lparr>se_vectors = [], se_pending = []\<rparr>, sc_pool = [], sc_User = LogOut\<rparr>"
    by (auto simp: ServerConnect_new_def Session_Connect_def split: if_splits)
  then show ?case
    by (simp add: se_header_reads_def ServerConnect_complete_two_reads)
next
  case (step sc sc')
  have two: "\<forall>k v bs. k < length (se_pending (sc_session sc')) \<longrightarrow> se_pending (sc_session sc') ! k = SE_read v AF_header \<longrightarrow>
      2 \<le> se_reads (sc_session (ServerConnect_complete k bs sc'))"
    by (simp add: ServerConnect_complete_two_reads)
  from step.hyps(2) show ?case
  proof cases
    case (complete k bs)
    with step.IH two show ?thesis
      using ServerConnect_complete_header_reads [of k sc bs] ServerConnect_complete_jobs [of sc k bs] by simp
  next
    case (success js body js')
    with step.IH two show ?thesis
      using ServerConnect_runSuccess_User [of J body "sc\<lparr>sc_pool := js @ js'\<rparr>"] by auto
  next
    case (job js j js')
    with step.IH two show ?thesis by auto
  qed
qed

text \<open>
  The answer to a login can be lost: the job is submitted before its body is read, and run at that
  moment it sees zeros, which no reader accepts as a document.
\<close>

theorem ServerConnect_login_lost:
  assumes "k < length (se_pending (sc_session sc))" "se_pending (sc_session sc) ! k = SE_read v AF_header"
    and "v < length (se_vectors (sc_session sc))" "length (se_vectors (sc_session sc) ! v) = header_size"
    and "length bs = header_size" "header_type bs = MessageType_byte SUCCESS" "sc_User sc = LogOut"
    and "j_parse_throw J (replicate (unat (header_length bs)) (CHR 0x00)) = Inl e"
  shows "\<exists>body. SJ_Success body \<in> set (sc_pool (ServerConnect_complete k bs sc)) \<and>
    ServerConnect_runSuccess J body (ServerConnect_complete k bs sc) = ServerConnect_complete k bs sc"
proof -
  let ?body = "length (se_vectors (sc_session sc))"
  have success: "MessageType_of (0x02 :: byte) = Some SUCCESS" by code_simp
  have "SJ_Success ?body \<in> set (sc_pool (ServerConnect_complete k bs sc))"
    using assms success by (simp add: ServerConnect_complete_def Let_def)
  moreover have "se_vectors (sc_session (ServerConnect_complete k bs sc)) ! ?body = replicate (unat (header_length bs)) 0"
    using assms by (simp add: ServerConnect_complete_def Let_def nth_append)
  moreover have "bytes_string (replicate n 0) = replicate n (CHR 0x00)" for n
    by (simp add: bytes_string_def char_of_def)
  ultimately show ?thesis
    using assms(8) by (intro exI [where x = ?body]) (simp add: ServerConnect_runSuccess_def ServerConnect_Success_def)
qed

section \<open>An instance\<close>

definition engine_example_json :: "jv json_index_ops" where
  "engine_example_json = json_ops.extend (jv_ops [(''1'', JObj [(''state'', JStr ''admin'')])]) \<lparr>j_is_null = (\<lambda>v. v = JNull)\<rparr>"

text \<open>The header of a login answer, its body, and its job.\<close>

theorem ServerConnect_waits_for_login_witness:
  "\<exists>sc. ServerConnect_reachable engine_example_json True sc \<and> sc_User sc = Admin \<and>
     se_header_reads (sc_session sc) = 1"
proof -
  define s0 where "s0 = ServerConnect_Read
    \<lparr>sc_session = \<lparr>se_vectors = [], se_pending = []\<rparr>, sc_pool = [], sc_User = LogOut\<rparr>"
  define s1 where "s1 = ServerConnect_complete 0 [2, 1, 0, 0, 0] s0"
  define s2 where "s2 = ServerConnect_complete 0 [49] s1"
  define s3 where "s3 = ServerConnect_runSuccess engine_example_json 1 (s2\<lparr>sc_pool := [] @ []\<rparr>)"
  let ?step = "ServerConnect_step engine_example_json True"
  have "ServerConnect_new (\<lambda>_. True) ''10.0.0.1'' 20000 LogOut = Some
      \<lparr>sc_session = \<lparr>se_vectors = [], se_pending = []\<rparr>, sc_pool = [], sc_User = LogOut\<rparr>"
    by (simp add: ServerConnect_new_def Session_Connect_def)
  then have r0: "ServerConnect_reachable engine_example_json True s0"
    unfolding s0_def by (rule ServerConnect_reachable.start)
  have p0: "se_pending (sc_session s0) = [SE_read 0 AF_header]" "se_vectors (sc_session s0) = [[0, 0, 0, 0, 0]]"
    by (simp_all add: s0_def header_size_def numeral_eq_Suc)
  then have "?step s0 s1"
    unfolding s1_def by (intro ServerConnect_step.complete) auto
  with r0 have r1: "ServerConnect_reachable engine_example_json True s1" by (rule ServerConnect_reachable.step)
  have "se_pending (sc_session s1) = [SE_read 1 AF_nothing, SE_read 2 AF_header] \<and> sc_pool s1 = [SJ_Success 1] \<and>
      se_vectors (sc_session s1) = [[2, 1, 0, 0, 0], [0], [0, 0, 0, 0, 0]]"
    unfolding s1_def s0_def by code_simp
  then have p1: "se_pending (sc_session s1) = [SE_read 1 AF_nothing, SE_read 2 AF_header]"
      "se_vectors (sc_session s1) = [[2, 1, 0, 0, 0], [0], [0, 0, 0, 0, 0]]" by auto
  then have "?step s1 s2"
    unfolding s2_def by (intro ServerConnect_step.complete) auto
  with r1 have r2: "ServerConnect_reachable engine_example_json True s2" by (rule ServerConnect_reachable.step)
  have p2: "sc_pool s2 = [] @ SJ_Success 1 # []"
    unfolding s2_def s1_def s0_def by code_simp
  then have "?step s2 s3"
    unfolding s3_def by (rule ServerConnect_step.success)
  with r2 have r3: "ServerConnect_reachable engine_example_json True s3" by (rule ServerConnect_reachable.step)
  have "sc_User s3 = Admin"
    unfolding s3_def s2_def s1_def s0_def by code_simp
  with r3 ServerConnect_waits_for_login [OF r3] show ?thesis by blast
qed

end
