(* ===== verification/App.thy ===== *)
theory App
  imports Prelude
begin

text \<open>
  App.cpp: the rewriting of QML import paths. The rest of the file configures Qt and hands over to
  Core, whose construction and shutdown CoreShutdown models.
\<close>

section \<open>Operations\<close>

text \<open>
  \<open>QString::replace\<close>: every occurrence from the left; what is put in is not searched again.
\<close>

function str_replace :: "string \<Rightarrow> string \<Rightarrow> string \<Rightarrow> string" where
  "str_replace s before after =
     (if s = [] then []
      else if before \<noteq> [] \<and> starts_with s before then after @ str_replace (drop (length before) s) before after
      else hd s # str_replace (tl s) before after)"
  by pat_completeness auto
termination by (relation "measure (\<lambda>(s, _, _). length s)") auto

declare str_replace.simps [simp del]

definition str_contains :: "string \<Rightarrow> string \<Rightarrow> bool" where
  "str_contains s sub \<longleftrightarrow> str_find s sub \<noteq> None"

definition PathCaseInterceptor_intercept :: "string \<Rightarrow> string" where
  "PathCaseInterceptor_intercept path =
     (if str_contains path ''/Pages/'' then str_replace path ''/Pages/'' ''/pages/'' else path)"

section \<open>Properties\<close>

lemma str_replace_absent:
  "\<not> str_contains s before \<Longrightarrow> str_replace s before after = s"
proof (induction s)
  case (Cons c cs)
  then show ?case
    by (subst str_replace.simps) (cases "before = []"; simp add: str_contains_def starts_with_def split: if_splits)
qed (simp add: str_replace.simps)

text \<open>The test before the replacement changes nothing but the cost.\<close>

lemma intercept_is_replace:
  "PathCaseInterceptor_intercept path = str_replace path ''/Pages/'' ''/pages/''"
  by (simp add: PathCaseInterceptor_intercept_def str_replace_absent)

text \<open>The second of two occurrences that share a slash stays as it is.\<close>

lemma intercept_overlap: "PathCaseInterceptor_intercept ''/Pages/Pages/A.qml'' = ''/pages/Pages/A.qml''"
  by code_simp

text \<open>Only letters change their case: no path gets longer, and none points to another name.\<close>

definition to_lower :: "char \<Rightarrow> char" where
  "to_lower c = (if of_char c \<in> {65..90 :: nat} then char_of (of_char c + 32 :: nat) else c)"

lemma intercept_changes_case_only:
  "map to_lower (PathCaseInterceptor_intercept path) = map to_lower path"
proof -
  have lower: "map to_lower ''/pages/'' = map to_lower ''/Pages/''" by code_simp
  have "map to_lower (str_replace s ''/Pages/'' ''/pages/'') = map to_lower s" for s
  proof (induction "length s" arbitrary: s rule: less_induct)
    case less
    show ?case
    proof (cases "s = []")
      case False
      show ?thesis
      proof (cases "starts_with s ''/Pages/''")
        case True
        then obtain t where s: "s = ''/Pages/'' @ t" by (auto simp: starts_with_def elim: prefixE)
        have "str_replace s ''/Pages/'' ''/pages/'' = ''/pages/'' @ str_replace t ''/Pages/'' ''/pages/''"
          unfolding s by (subst str_replace.simps) (simp add: starts_with_def)
        moreover have "map to_lower (str_replace t ''/Pages/'' ''/pages/'') = map to_lower t"
          by (intro less) (simp add: s)
        ultimately show ?thesis
          unfolding s by (simp only: map_append lower)
      next
        case no: False
        have "map to_lower (str_replace (tl s) ''/Pages/'' ''/pages/'') = map to_lower (tl s)"
          using False by (intro less) simp
        with False no show ?thesis
          by (subst str_replace.simps) (cases s; simp)
      qed
    qed (simp add: str_replace.simps)
  qed
  then show ?thesis by (simp add: intercept_is_replace)
qed

end
