(* ===== verification/Spec2Isabelle.thy ===== *)
theory Spec2Isabelle
  imports CameraStore DeviceStore ServerStatus CameraGrid DeviceModel Alarm AiImageModel UserModel Protocol
    Ssl TcpSession TlsChannel UdpSession Core Video NetworkBridge Auth ThreadPool NetworkService Settings
    SslContext SslObjects CoreShutdown CoreVideo CoreSystem ImagePath VideoDecode GridViews SessionEngine
    App
begin

text \<open>
  A verification development for the surveillance client of this repository: a C++ core (Src/)
  under a Qt user interface (Qt/Back/), wired together by Core.cpp.

  The program. A TCP connection, optionally under TLS, carries frames of a type, a length and a
  payload (Src/Network/TcpSession.hpp). The message processor hands the payload of every frame to
  the callback of its type; the network bridge turns callbacks into signals of the event loop;
  Core.cpp submits jobs for a signal to the thread pool. A job parses the JSON text, updates a
  store of the domain (Src/Domain/), and posts the new snapshot back to the event loop, where a
  list model of Qt/Back/Models takes it over for the user interface. Images come over UDP under
  DTLS in numbered fragments (Src/Network/UdpSession.hpp).

  The theories, in the order of that path:
  \<^item> Prelude: names of machine types, string functions of the standard library and Qt, loops
    over indices; the locales of the interfaces the components share: \<open>op_system\<close> (an invariant
    over any sequence of operations), \<open>bounded_history\<close> (a queue that keeps the last entries)
    and \<open>row_lookup\<close> (a search for the row with a key). Each is interpreted on the definitions of
    the components that provide it, and their properties rest on these interpretations.
  \<^item> Json: the JSON library as a record of its calls, and one concrete library for witnesses.
  \<^item> Protocol: the message types and headers of Protocol.hpp as little endian bytes, and
    \<open>MessageProcessor_processMessage\<close> with its handlers (MessageProcessor.cpp).
  \<^item> Ssl: the sessions of TLS.hpp and MediaDTLS.hpp over an engine of OpenSSL calls.
  \<^item> TcpSession: the handlers of TcpSession.hpp as operations on a state with the read that is
    outstanding; \<open>TcpSession_events\<close> runs them on any sequence of completions. \<open>TcpSession_feed\<close> and
    \<open>TcpSession_receive\<close> are not code of the repository but its environment: they complete the
    reads from a stream of bytes, whole or in chunks, as \<open>async_read\<close> does.
  \<^item> TlsChannel: the frames of a server over TLS, and two sessions at the ends of one connection.
  \<^item> UdpSession: reassembly of fragments, the retransmission timer and the packets of
    UdpSession.hpp.
  \<^item> SslContext: the contexts of TLS.hpp, MediaDTLS.hpp and DTLS.hpp over the configuration calls of
    OpenSSL, the cookies of DTLS.hpp, and which of them the network service uses.
  \<^item> SslObjects: constructors, moves, assignment and destruction of the three session classes as
    the OpenSSL calls they make, held against a ledger of what is owned.
  \<^item> NetworkService: connect, send, disconnect and the tasks of the io thread as a state machine.
  \<^item> ThreadPool: Submit, the work loop and the destructor as steps of clients and workers.
  \<^item> CameraStore, DeviceStore, ServerStatus: the stores of Src/Domain (Camera, Device,
    ServerStatus), and the status model of Qt/Back/Services/ServerStatus.
  \<^item> Binary64, CameraModel, CameraGrid: rounding of doubles, the grid of camera cards with
    splits, merges and swaps (CameraModel.cpp), and its properties.
  \<^item> GridViews: a view that follows the notifications of the grid (the environment's part of a Qt
    model), and what the notifications owe it.
  \<^item> DeviceModel, AiImageModel, UserModel, Alarm: the other list models, the alarm dispatcher and
    the alarm controller.
  \<^item> NetworkBridge: the requests of the user interface as JSON texts, the callbacks as signals, the
    timer that joins device requests, and the path of a frame from the wire to a job.
  \<^item> Auth: the login and the registration page over one bridge, as a client with events.
  \<^item> Video: the stream of one camera, the copy of a frame, the worker of every camera and the
    stream of a card (Src/Network/Video, Qt/Back/Services/VideoStream). The decoding thread stores a
    frame and counts it in two steps, the timer of a card reads the counter and the frame in two;
    \<open>Video_step\<close> interleaves these four in any order.
  \<^item> VideoDecode: the decoding thread of Video.cpp over a script of the answers of FFmpeg, and the
    path of a frame to the card.
  \<^item> Settings: SettingsController over the stored settings, and AppController with its windows.
  \<^item> Core: the wiring of Core.cpp as a step relation over signals, jobs, posted calls and calls
    of the user.
  \<^item> GridSignals, CoreVideo: what the signals of the grid announce, and the state of Core together
    with the videos and the settings.
  \<^item> CoreShutdown: construction and shutdown of the objects of Core, beside the threads of the pool.
  \<^item> CoreSystem: the pages, the bridge and the core with videos and settings as one program, from
    the callbacks of the network and the calls of the user to the models; the logout.
  \<^item> ImagePath: an image from its datagrams over the job of Core to the image page.
  \<^item> App: the rewriting of import paths in App.cpp.
  \<^item> SessionEngine: the rewrite of the connection in SessionEngine.hpp, which is outside the build, as
    far as it has bodies, and the application state of Config.hpp.

  What the lemmas show. Per component: an invariant and its preservation by every operation; the
  behaviour of the operations on every branch, thrown exceptions included (\<open>Inl\<close>); the types of
  what a view reads; refinement of maps from ips to records by the list code of the device store
  and the device model; bounds of all histories; what settings survive a restart. For the network:
  delivery of texts to the callbacks in any segmentation of the stream, in the clear
  and from one end of a TLS connection to the other, single calls
  of the handlers, reassembly and recovery of lost fragments, no message before the handshake,
  credentials that go out at most once, ownership of the OpenSSL objects, contexts that verify.
  For the videos: no leak and no double free on any path of the decoding thread, the pace of the
  frames, the copy of the planes, the order of the pictures. Across components: a frame of the
  wire becomes one job, the pool runs every job once, the two stores agree on a packet, in every
  reachable state of the system the cameras of the grid are known to the store and every card
  finds the worker of its camera, and when a shutdown is safe. In every run of the whole program the
  pages are where the events of the run lead them, the core is in a state it reaches alone, and the
  jobs are exactly those that the received packets ask for; a logout that returns clears the
  session of the user and leaves the stores. The fragments of an image end as one picture of
  its camera on the image page.

  Conventions. A method is a function from the state before to the state after, named Class_method;
  fields of a class are a record. C++ int and long long are \<open>int\<close>, without overflow of counters;
  the bytes of the protocol are \<open>8 word\<close>, lengths \<open>32 word\<close>, and the counters of fragments wrap at
  their width. Doubles that are only copied are rationals; where the code computes with them
  Binary64 rounds every operation. \<open>std::string\<close> and QString are lists of characters and the
  conversions between them are the identity. Buffers are shorter than \<open>2 ^ 32\<close> bytes. The memory
  layout is little endian without padding. Notifications and signals of Qt are recorded in the
  state in the order they are emitted.

  Termination. Loops over lists are structural. \<open>TcpSession_feed\<close> consumes its input. The loop
  around SSL_read (\<open>ssl_drain\<close>) and the loop over missing fragments (\<open>UdpSession_missing_from\<close>)
  may not end in the code; they are partial functions with the value \<open>None\<close> for that, and their
  properties say when they return. The loops of the decoding thread run over the list of answers
  they get, which ends where the thread is told to stop. The queue of the pool is drained by steps,
  and ThreadPool shows that every run of them ends with it empty. No fuel is used.

  Parameters. Code outside the repository is an argument: the JSON libraries, OpenSSL, the base64
  encoder, the iteration order of QHash
  (the steps of Core take any that visits every key), the conversions of QVariant and QSettings, what a mapped
  QVideoFrame holds, clocks, FFmpeg (as a script of answers). The hypotheses on such arguments are
  \<open>ssl_finite\<close> (a successful SSL_read takes bytes out of a finite store; \<open>loop_ops\<close> meets it),
  \<open>tls_channel\<close> (one engine reads what the other writes, in order; two of \<open>loop_ops\<close> meet it),
  \<open>record_reader\<close> (an engine of either wrapper that accepts records one by one, each with its text;
  \<open>loop_ops\<close> meets it),
  \<open>ctx_documented\<close> (a context keeps the mode it is set to; \<open>toy_ctx_ops\<close> meets it) and
  \<open>settings_faithful\<close> (a stored setting reads back); every property with one has a witness.

  Atomicity. The methods of a class run one at a time: those of the stores lock a mutex, those of a
  session run on a strand, those of the models on the event loop. In Core a job of the pool is one
  step; the interleaving of two jobs between two locked methods is not modelled. The steps of Video
  are those of a sequentially consistent memory. A call of \<open>disconnect\<close> joins the io thread and may
  never return (\<open>NetworkService.NetworkService_disconnect_hangs\<close>): the events of the pages are calls
  that return, and \<open>LoginController_logout\<close> says what a logout does when it does not.

  Specifications. What the properties compare the code with is not code: the maps of DeviceStore and
  DeviceModel, the grammar of JSON (\<open>read_object\<close>), the table of jobs of a packet
  (\<open>packet_jobs\<close>, \<open>jobs_of_text\<close>), the requests of the user (\<open>login_request\<close>), the views of GridViews.

  Not modelled: the handlers that SessionEngine.hpp only declares; the configuration of Qt in App.cpp
  and the registration of the objects under their QML names; the QML user interface and the Qt scene
  graph; log output; the body of FFmpeg, OpenSSL and Boost.Asio.
\<close>

end
